(* ===== verification/Replica_Prelude.thy ===== *)
theory Replica_Prelude
  imports Main "HOL-Library.Char_ord" "HOL-Library.List_Lexorder" "HOL-Library.FSet"
    "HOL-Library.Monad_Syntax" "HOL-Library.Multiset" "HOL-Library.Word"
begin

text \<open>
  Shared vocabulary of the development.

  \<^item> Rust's \<open>BTreeMap\<close> is an association list in strictly increasing key order
    (\<open>bt_insert\<close>, \<open>bt_remove\<close>, \<open>bt_or_insert\<close>, \<open>bt_collect\<close>), read with
    \<^const>\<open>map_of\<close>. The order is the iteration order of the code.
  \<^item> Rust's \<open>BTreeSet\<close> is a finite set (\<open>fset\<close>); where the code iterates one, the
    model iterates \<open>sorted_list_of_fset\<close>.
  \<^item> A Rust \<open>String\<close> is a \<^typ>\<open>string\<close>, one \<^typ>\<open>char\<close> per UTF-8 byte, compared
    bytewise as Rust compares strings.
  \<^item> A computation that may panic (\<open>expect\<close> on an absent value) has an \<open>option\<close>
    result, \<open>None\<close> being the panic.

  The locale \<open>ordered_map\<close> is the contract of an ordered map; the facts the components
  need of maps are proved in it once and reach them through its interpretation on the
  association lists.
\<close>

named_theorems recording \<open>what a sync step records: a write, an event, a count\<close>
named_theorems wf_intros \<open>placements keep their invariant through every operation\<close>

type_synonym u8 = "8 word"
type_synonym u64 = "64 word"
type_synonym ('k, 'v) btree_map = "('k \<times> 'v) list"

text \<open>The bytes of a string, as \<open>str::as_bytes\<close> gives them.\<close>

definition as_bytes :: "string \<Rightarrow> u8 list" where
  "as_bytes s = map (\<lambda>c. of_char c) s"

text \<open>Rust's \<open>Option::is_some_and\<close> and \<open>Option::is_none_or\<close>.\<close>

fun is_some_and :: "'a option \<Rightarrow> ('a \<Rightarrow> bool) \<Rightarrow> bool" where
  "is_some_and None P = False"
| "is_some_and (Some x) P = P x"

fun is_none_or :: "'a option \<Rightarrow> ('a \<Rightarrow> bool) \<Rightarrow> bool" where
  "is_none_or None P = True"
| "is_none_or (Some x) P = P x"

text \<open>Rust's \<open>Option::or\<close>.\<close>

fun option_or :: "'a option \<Rightarrow> 'a option \<Rightarrow> 'a option" where
  "option_or (Some x) y = Some x"
| "option_or None y = y"

lemma is_some_and_iff: "is_some_and x P \<longleftrightarrow> (\<exists>v. x = Some v \<and> P v)"
  by (cases x) auto

lemma is_none_or_iff: "is_none_or x P \<longleftrightarrow> (\<forall>v. x = Some v \<longrightarrow> P v)"
  by (cases x) auto

section \<open>Ordered maps\<close>

lemma map_of_rev_distinct: "distinct (map fst es) \<Longrightarrow> map_of (rev es) = map_of es"
proof
  fix k assume d: "distinct (map fst es)"
  have "map_of (rev es) k = Some v \<longleftrightarrow> map_of es k = Some v" for v
    using d by (simp add: map_of_eq_Some_iff rev_map[symmetric])
  then show "map_of (rev es) k = map_of es k"
    by (metis not_None_eq)
qed

lemma entries_of_keys:
  "distinct (map fst es) \<Longrightarrow> map (\<lambda>k. (k, the (map_of es k))) (map fst es) = es"
  by (auto simp: map_of_eq_Some_iff intro!: map_idI)

locale ordered_map =
  fixes empty :: "'m"
    and insert :: "'k::linorder \<Rightarrow> 'v \<Rightarrow> 'm \<Rightarrow> 'm"
    and remove :: "'k \<Rightarrow> 'm \<Rightarrow> 'm"
    and get :: "'m \<Rightarrow> 'k \<Rightarrow> 'v option"
    and entries :: "'m \<Rightarrow> ('k \<times> 'v) list"
    and invar :: "'m \<Rightarrow> bool"
  assumes invar_empty: "invar empty"
    and invar_insert: "invar m \<Longrightarrow> invar (insert k v m)"
    and invar_remove: "invar m \<Longrightarrow> invar (remove k m)"
    and get_empty: "get empty = Map.empty"
    and get_insert: "get (insert k v m) = (get m)(k \<mapsto> v)"
    and get_remove: "invar m \<Longrightarrow> get (remove k m) = (get m)(k := None)"
    and entries_sorted: "invar m \<Longrightarrow> sorted_wrt (<) (map fst (entries m))"
    and entries_get: "invar m \<Longrightarrow> map_of (entries m) = get m"
begin

lemma entries_distinct: "invar m \<Longrightarrow> distinct (map fst (entries m))"
  using entries_sorted strict_sorted_iff by blast

lemma mem_entries: "invar m \<Longrightarrow> (k, v) \<in> set (entries m) \<longleftrightarrow> get m k = Some v"
  using entries_distinct entries_get map_of_eq_Some_iff by metis

lemma keys_entries: "invar m \<Longrightarrow> fst ` set (entries m) = dom (get m)"
  using entries_get dom_map_of_conv_image_fst by metis

text \<open>Two well-formed maps with the same lookups are the same sequence of entries.\<close>

lemma entries_canonical:
  assumes "invar m" "invar m'" "get m = get m'"
  shows "entries m = entries m'"
proof -
  have "map fst (entries m) = map fst (entries m')"
    using assms entries_sorted keys_entries by (metis list.set_map strict_sorted_equal)
  moreover have "map_of (entries m) = map_of (entries m')"
    using assms entries_get by simp
  ultimately show ?thesis
    using assms(1,2) entries_distinct entries_of_keys by metis
qed

text \<open>Inserting a sequence of bindings, the last of a key winning.\<close>

lemma invar_inserts: "invar m \<Longrightarrow> invar (fold (\<lambda>(k, v). insert k v) kvs m)"
  by (induction kvs arbitrary: m) (auto intro: invar_insert)

lemma get_inserts: "get (fold (\<lambda>(k, v). insert k v) kvs m) = get m ++ map_of (rev kvs)"
  by (induction kvs arbitrary: m) (auto simp: get_insert)

text \<open>Distinct keys make the order in which they are inserted irrelevant.\<close>

lemma entries_inserts_perm:
  assumes "mset kvs = mset kvs'" and "distinct (map fst kvs)" and "invar m"
  shows "entries (fold (\<lambda>(k, v). insert k v) kvs m)
       = entries (fold (\<lambda>(k, v). insert k v) kvs' m)"
proof (rule entries_canonical)
  have d': "distinct (map fst kvs')"
    using assms(1,2) by (metis mset_map mset_eq_imp_distinct_iff)
  have "map_of (rev kvs) = map_of (rev kvs')"
  proof
    fix k
    have "map_of (rev kvs) k = Some v \<longleftrightarrow> map_of (rev kvs') k = Some v" for v
      using assms(1,2) d' by (simp add: map_of_eq_Some_iff rev_map[symmetric] mset_eq_setD[OF assms(1)])
    then show "map_of (rev kvs) k = map_of (rev kvs') k"
      by (metis not_None_eq)
  qed
  then show "get (fold (\<lambda>(k, v). insert k v) kvs m) = get (fold (\<lambda>(k, v). insert k v) kvs' m)"
    by (simp add: get_inserts)
qed (simp_all add: assms(3) invar_inserts)

end

text \<open>\<open>BTreeMap\<close> as an association list.\<close>

definition bt_wf :: "('k::linorder, 'v) btree_map \<Rightarrow> bool" where
  "bt_wf m \<longleftrightarrow> sorted_wrt (<) (map fst m)"

fun bt_insert :: "'k::linorder \<Rightarrow> 'v \<Rightarrow> ('k, 'v) btree_map \<Rightarrow> ('k, 'v) btree_map" where
  "bt_insert k v [] = [(k, v)]"
| "bt_insert k v ((k', v') # m) =
     (if k < k' then (k, v) # (k', v') # m
      else if k = k' then (k, v) # m
      else (k', v') # bt_insert k v m)"

definition bt_remove :: "'k::linorder \<Rightarrow> ('k, 'v) btree_map \<Rightarrow> ('k, 'v) btree_map" where
  "bt_remove k m = filter (\<lambda>e. fst e \<noteq> k) m"

text \<open>\<open>entry(k).or_insert(v)\<close>: a present key keeps its value.\<close>

definition bt_or_insert :: "'k::linorder \<Rightarrow> 'v \<Rightarrow> ('k, 'v) btree_map \<Rightarrow> ('k, 'v) btree_map" where
  "bt_or_insert k v m = (if map_of m k = None then bt_insert k v m else m)"

text \<open>\<open>collect()\<close> of an iterator of pairs.\<close>

definition bt_collect :: "('k::linorder \<times> 'v) list \<Rightarrow> ('k, 'v) btree_map" where
  "bt_collect kvs = fold (\<lambda>(k, v). bt_insert k v) kvs []"

abbreviation bt_values :: "('k, 'v) btree_map \<Rightarrow> 'v list" where
  "bt_values m \<equiv> map snd m"

lemma bt_insert_keys [simp]: "fst ` set (bt_insert k v m) = insert k (fst ` set m)"
  by (induction k v m rule: bt_insert.induct) auto

lemma bt_wf_Nil [simp, intro]: "bt_wf []"
  by (simp add: bt_wf_def)

lemma bt_wf_insert [simp, intro]: "bt_wf m \<Longrightarrow> bt_wf (bt_insert k v m)"
proof (induction k v m rule: bt_insert.induct)
  case (2 k v k' v' m)
  have "\<forall>x \<in> fst ` set (bt_insert k v m). k' < x" if "k' < k"
    using that 2(2) by (auto simp: bt_wf_def)
  with 2 show ?case by (auto simp: bt_wf_def)
qed (simp add: bt_wf_def)

lemma bt_get_insert [simp]: "map_of (bt_insert k v m) = (map_of m)(k \<mapsto> v)"
  by (induction k v m rule: bt_insert.induct) (auto simp: fun_eq_iff)

lemma bt_wf_filter: "bt_wf m \<Longrightarrow> bt_wf (filter P m)"
  by (induction m) (auto simp: bt_wf_def)

lemma bt_wf_remove [simp, intro]: "bt_wf m \<Longrightarrow> bt_wf (bt_remove k m)"
  by (simp add: bt_remove_def bt_wf_filter)

lemma bt_get_remove [simp]: "map_of (bt_remove k m) = (map_of m)(k := None)"
  unfolding bt_remove_def by (induction m) (auto simp: fun_eq_iff)

interpretation bt: ordered_map "[]" bt_insert bt_remove map_of "\<lambda>m. m" bt_wf
  by unfold_locales (auto simp flip: bt_wf_def)

lemma bt_wf_or_insert [simp, intro]: "bt_wf m \<Longrightarrow> bt_wf (bt_or_insert k v m)"
  by (simp add: bt_or_insert_def)

lemma bt_get_or_insert:
  "map_of (bt_or_insert k v m) = (if map_of m k = None then (map_of m)(k \<mapsto> v) else map_of m)"
  by (simp add: bt_or_insert_def)

lemma bt_wf_collect [simp, intro]: "bt_wf (bt_collect kvs)"
  unfolding bt_collect_def by (rule bt.invar_inserts) simp

lemma bt_get_collect: "map_of (bt_collect kvs) = map_of (rev kvs)"
  unfolding bt_collect_def by (simp add: bt.get_inserts)

lemma bt_collect_perm:
  "mset kvs = mset kvs' \<Longrightarrow> distinct (map fst kvs) \<Longrightarrow> bt_collect kvs = bt_collect kvs'"
  unfolding bt_collect_def by (rule bt.entries_inserts_perm) auto

text \<open>Collecting entries already in order returns them: a map is what its iterator collects.\<close>

lemma bt_collect_wf: "bt_wf m \<Longrightarrow> bt_collect m = m"
  by (rule bt.entries_canonical)
     (auto simp: bt_get_collect bt.entries_distinct map_of_rev_distinct)

end
