(* ===== verification/Identity.thy ===== *)
theory Identity
  imports Replica_Prelude
begin

text \<open>
  The string identities of the crate (\<open>lib.rs\<close>, macro \<open>replica_id!\<close>): a handle, a link
  id, a collection id, a source id, a content hash and a change key. The macro declares a
  tuple struct over a \<open>String\<close> with an \<open>as_str\<close> accessor and derives the order of the
  strings; each expansion is a one-constructor datatype here, so that no two identities
  can be confused, and its \<open>Ord\<close> is a \<open>linorder\<close> instance. The checkpoint
  (\<open>collection.rs\<close>) and the object (\<open>object.rs\<close>) complete the vocabulary.

  The crate prefixes every public item with \<open>Replica\<close>; the models drop the prefix.
\<close>

text \<open>The protocol location of an item in one collection (\<open>placement.rs\<close>).\<close>

datatype handle = Handle (handle_str: string)

instantiation handle :: linorder
begin

definition less_eq_handle :: "handle \<Rightarrow> handle \<Rightarrow> bool" where
  "less_eq_handle a b \<longleftrightarrow> handle_str a \<le> handle_str b"

definition less_handle :: "handle \<Rightarrow> handle \<Rightarrow> bool" where
  "less_handle a b \<longleftrightarrow> handle_str a < handle_str b"

instance
  by standard (auto simp: less_eq_handle_def less_handle_def intro: handle.expand)

end

lemma handle_le [simp, code]: "Handle a \<le> Handle b \<longleftrightarrow> a \<le> b"
  by (simp add: less_eq_handle_def)

lemma handle_less [simp, code]: "Handle a < Handle b \<longleftrightarrow> a < b"
  by (simp add: less_handle_def)

text \<open>The logical identity of an item across collections (\<open>placement.rs\<close>).\<close>

datatype link_id = LinkId (link_str: string)

instantiation link_id :: linorder
begin

definition less_eq_link_id :: "link_id \<Rightarrow> link_id \<Rightarrow> bool" where
  "less_eq_link_id a b \<longleftrightarrow> link_str a \<le> link_str b"

definition less_link_id :: "link_id \<Rightarrow> link_id \<Rightarrow> bool" where
  "less_link_id a b \<longleftrightarrow> link_str a < link_str b"

instance
  by standard (auto simp: less_eq_link_id_def less_link_id_def intro: link_id.expand)

end

lemma link_id_le [simp, code]: "LinkId a \<le> LinkId b \<longleftrightarrow> a \<le> b"
  by (simp add: less_eq_link_id_def)

lemma link_id_less [simp, code]: "LinkId a < LinkId b \<longleftrightarrow> a < b"
  by (simp add: less_link_id_def)

text \<open>The identity of a collection (\<open>collection.rs\<close>).\<close>

datatype collection_id = CollectionId (collection_str: string)

instantiation collection_id :: linorder
begin

definition less_eq_collection_id :: "collection_id \<Rightarrow> collection_id \<Rightarrow> bool" where
  "less_eq_collection_id a b \<longleftrightarrow> collection_str a \<le> collection_str b"

definition less_collection_id :: "collection_id \<Rightarrow> collection_id \<Rightarrow> bool" where
  "less_collection_id a b \<longleftrightarrow> collection_str a < collection_str b"

instance
  by standard (auto simp: less_eq_collection_id_def less_collection_id_def intro: collection_id.expand)

end

lemma collection_id_le [simp, code]: "CollectionId a \<le> CollectionId b \<longleftrightarrow> a \<le> b"
  by (simp add: less_eq_collection_id_def)

lemma collection_id_less [simp, code]: "CollectionId a < CollectionId b \<longleftrightarrow> a < b"
  by (simp add: less_collection_id_def)

text \<open>A source of a shared item (\<open>hub.rs\<close>).\<close>

datatype source_id = SourceId (source_str: string)

instantiation source_id :: linorder
begin

definition less_eq_source_id :: "source_id \<Rightarrow> source_id \<Rightarrow> bool" where
  "less_eq_source_id a b \<longleftrightarrow> source_str a \<le> source_str b"

definition less_source_id :: "source_id \<Rightarrow> source_id \<Rightarrow> bool" where
  "less_source_id a b \<longleftrightarrow> source_str a < source_str b"

instance
  by standard (auto simp: less_eq_source_id_def less_source_id_def intro: source_id.expand)

end

lemma source_id_le [simp, code]: "SourceId a \<le> SourceId b \<longleftrightarrow> a \<le> b"
  by (simp add: less_eq_source_id_def)

lemma source_id_less [simp, code]: "SourceId a < SourceId b \<longleftrightarrow> a < b"
  by (simp add: less_source_id_def)

text \<open>The content hash naming an object (\<open>object.rs\<close>).\<close>

datatype hash = Hash (hash_str: string)

instantiation hash :: linorder
begin

definition less_eq_hash :: "hash \<Rightarrow> hash \<Rightarrow> bool" where
  "less_eq_hash a b \<longleftrightarrow> hash_str a \<le> hash_str b"

definition less_hash :: "hash \<Rightarrow> hash \<Rightarrow> bool" where
  "less_hash a b \<longleftrightarrow> hash_str a < hash_str b"

instance
  by standard (auto simp: less_eq_hash_def less_hash_def intro: hash.expand)

end

lemma hash_le [simp, code]: "Hash a \<le> Hash b \<longleftrightarrow> a \<le> b"
  by (simp add: less_eq_hash_def)

lemma hash_less [simp, code]: "Hash a < Hash b \<longleftrightarrow> a < b"
  by (simp add: less_hash_def)

text \<open>The idempotency key of a change (\<open>change.rs\<close>).\<close>

datatype change_key = ChangeKey (key_str: string)

instantiation change_key :: linorder
begin

definition less_eq_change_key :: "change_key \<Rightarrow> change_key \<Rightarrow> bool" where
  "less_eq_change_key a b \<longleftrightarrow> key_str a \<le> key_str b"

definition less_change_key :: "change_key \<Rightarrow> change_key \<Rightarrow> bool" where
  "less_change_key a b \<longleftrightarrow> key_str a < key_str b"

instance
  by standard (auto simp: less_eq_change_key_def less_change_key_def intro: change_key.expand)

end

lemma change_key_le [simp, code]: "ChangeKey a \<le> ChangeKey b \<longleftrightarrow> a \<le> b"
  by (simp add: less_eq_change_key_def)

lemma change_key_less [simp, code]: "ChangeKey a < ChangeKey b \<longleftrightarrow> a < b"
  by (simp add: less_change_key_def)

text \<open>
  The opaque sync token of a collection (\<open>collection.rs\<close>): bytes the engine only
  round-trips. The default is empty.
\<close>

datatype checkpoint = Checkpoint (checkpoint_bytes: "u8 list")

text \<open>
  A stored object (\<open>object.rs\<close>). Sizes are \<open>usize\<close> in the code; the engine never
  computes with them, so they are naturals.
\<close>

record object =
  o_hash :: hash
  o_size :: nat

end
