(* ===== verification/Placement.thy ===== *)
theory Placement
  imports Identity
begin

text \<open>
  The item model (\<open>placement.rs\<close>): an item's presence in one collection, its flag set with
  the element-wise three-way merge, its detail level, its sync status, the base it was last
  synced at and where a pending create's body already lives.
\<close>

section \<open>Summaries and sort keys\<close>

datatype meta = Meta (meta_str: string)

datatype sort_key = SortKey (sort_key_str: string)

text \<open>\<open>ReplicaSortKey::default\<close> is the empty, unknown key.\<close>

definition sort_key_default :: sort_key where
  "sort_key_default = SortKey []"

definition sort_key_is_unknown :: "sort_key \<Rightarrow> bool" where
  "sort_key_is_unknown k \<longleftrightarrow> sort_key_str k = []"

section \<open>Flags\<close>

datatype flags = Unknown | Known "string fset"

fun flags_contains :: "flags \<Rightarrow> string \<Rightarrow> bool" where
  "flags_contains Unknown f = False"
| "flags_contains (Known fs) f = (f |\<in>| fs)"

fun flags_is_unknown :: "flags \<Rightarrow> bool" where
  "flags_is_unknown Unknown = True"
| "flags_is_unknown (Known fs) = False"

fun known :: "flags \<Rightarrow> string fset option" where
  "known Unknown = None"
| "known (Known fs) = Some fs"

definition flags_default :: flags where
  "flags_default = Known {||}"

definition flags_from_iter :: "string list \<Rightarrow> flags" where
  "flags_from_iter fs = Known (fset_of_list fs)"

text \<open>The element-wise three-way merge (\<open>ReplicaFlags::merge\<close>).\<close>

definition flags_merge :: "flags \<Rightarrow> flags \<Rightarrow> flags \<Rightarrow> flags" where
  "flags_merge base local remote =
     (case (known local, known remote) of
        (Some l, Some r) \<Rightarrow>
          (let b = (case known base of None \<Rightarrow> {||} | Some b \<Rightarrow> b);
               kept = l |\<inter>| r;
               local_adds = l |-| b;
               remote_adds = r |-| b
           in Known (kept |\<union>| local_adds |\<union>| remote_adds))
      | _ \<Rightarrow> (case local of Unknown \<Rightarrow> remote | Known l \<Rightarrow> local))"

section \<open>Levels, status, base, placement\<close>

datatype level = LvProbed | LvMeta | LvFull

text \<open>The derived order of the level ladder is the order of its rungs.\<close>

fun level_rank :: "level \<Rightarrow> nat" where
  "level_rank LvProbed = 0"
| "level_rank LvMeta = 1"
| "level_rank LvFull = 2"

instantiation level :: linorder
begin

definition less_eq_level :: "level \<Rightarrow> level \<Rightarrow> bool" where
  "less_eq_level a b \<longleftrightarrow> level_rank a \<le> level_rank b"

definition less_level :: "level \<Rightarrow> level \<Rightarrow> bool" where
  "less_level a b \<longleftrightarrow> level_rank a < level_rank b"

instance
proof
  fix a b :: level
  show "a \<le> b \<Longrightarrow> b \<le> a \<Longrightarrow> a = b"
    by (cases a; cases b) (auto simp: less_eq_level_def)
qed (auto simp: less_eq_level_def less_level_def)

end

datatype status = Clean | Dirty | Tombstone | Conflict | Created

record origin =
  or_collection :: collection_id
  or_handle :: handle

record base =
  b_flags :: flags
  b_revision :: "string option"
  b_object :: "hash option"

record placement =
  p_collection :: collection_id
  p_handle :: handle
  p_link_id :: "link_id option"
  p_object :: "hash option"
  p_level :: level
  p_meta :: "meta option"
  p_sort_key :: sort_key
  p_flags :: flags
  p_status :: status
  p_conflict_revision :: "string option"
  p_conflict_object :: "hash option"
  p_base :: "base option"
  p_origin :: "origin option"

text \<open>The body staged locally but never synced (\<open>ReplicaPlacement::staged_edit\<close>).\<close>

definition staged_edit :: "placement \<Rightarrow> hash option" where
  "staged_edit p =
     (case p_object p of
        None \<Rightarrow> None
      | Some obj \<Rightarrow>
          (let synced = is_some_and (p_base p) (\<lambda>b. b_object b = Some obj)
           in if \<not> synced then Some obj else None))"

text \<open>
  What every placement the engine writes keeps: \<open>Full\<close> means a linked body, and a pending
  create has never been reconciled, so it has no base.
\<close>

definition placement_ok :: "placement \<Rightarrow> bool" where
  "placement_ok p \<longleftrightarrow>
     (p_level p = LvFull \<longrightarrow> p_object p \<noteq> None) \<and> (p_status p = Created \<longrightarrow> p_base p = None)"

section \<open>Facts about flags and levels\<close>

lemma level_le_simps [simp]:
  "LvProbed \<le> l" "l \<le> LvFull" "\<not> LvMeta \<le> LvProbed" "\<not> LvFull \<le> LvMeta" "\<not> LvFull \<le> LvProbed"
  by (cases l; simp add: less_eq_level_def)+

lemma level_less_simps [simp]:
  "LvProbed < LvMeta" "LvProbed < LvFull" "LvMeta < LvFull"
  "\<not> l < LvProbed" "\<not> LvFull < l" "\<not> LvMeta < LvMeta"
  by (cases l; simp add: less_level_def)+

lemma flags_merge_Unknown [simp]:
  "flags_merge base Unknown remote = remote"
  "flags_merge base local Unknown = local"
  by (simp add: flags_merge_def, cases local, simp_all add: flags_merge_def)

lemma flags_contains_merge [simp]:
  "flags_contains (flags_merge base (Known l) (Known r)) f \<longleftrightarrow>
     (if flags_contains base f then f |\<in>| l \<and> f |\<in>| r else f |\<in>| l \<or> f |\<in>| r)"
  by (cases base) (auto simp: flags_merge_def Let_def)

lemma flags_merge_Known [simp]: "flags_merge base (Known l) (Known r) \<noteq> Unknown"
  by (simp add: flags_merge_def Let_def)

lemma flags_eqI:
  "a \<noteq> Unknown \<Longrightarrow> b \<noteq> Unknown \<Longrightarrow> (\<And>f. flags_contains a f = flags_contains b f) \<Longrightarrow> a = b"
  by (cases a; cases b) (auto simp: fset_eq_iff)

lemma flags_merge_commute: "flags_merge base local remote = flags_merge base remote local"
proof (cases "local = Unknown \<or> remote = Unknown")
  case False
  then obtain l r where "local = Known l" "remote = Known r"
    by (metis flags.exhaust)
  then show ?thesis
    by (intro flags_eqI) auto
qed auto

lemma flags_merge_same [simp]: "flags_merge base x x = x"
  by (cases x) (auto intro!: flags_eqI split: if_splits)

lemma flags_merge_base_local [simp]: "flags_merge base base remote = (if remote = Unknown then base else remote)"
  by (cases base; cases remote) (auto intro!: flags_eqI split: if_splits)

text \<open>Folding the merge into one side and merging again settles at once, on any base.\<close>

lemma flags_merge_absorb [simp]:
  "flags_merge base (flags_merge base local remote) remote = flags_merge base local remote"
proof (cases "local = Unknown \<or> remote = Unknown")
  case False
  then obtain l r m where "local = Known l" "remote = Known r" "flags_merge base local remote = Known m"
    by (metis flags.exhaust flags_merge_Known)
  then show ?thesis
    using flags_contains_merge[of base l r] by (intro flags_eqI) auto
qed auto

lemma staged_edit_Some_iff:
  "staged_edit p = Some h \<longleftrightarrow>
     p_object p = Some h \<and> \<not> is_some_and (p_base p) (\<lambda>b. b_object b = Some h)"
  by (auto simp: staged_edit_def Let_def split: option.splits)

text \<open>
  C19: the flag merge is element-wise and loses no intent. A flag the base holds survives
  exactly when neither side removed it, a flag the base lacks is present exactly when a
  side added it; so whichever side changed a flag's presence wins for it. The merge is
  symmetric, a side that knows nothing leaves the other's set, and merging what a side
  already adopted with the same remote changes nothing more, on the stale base too, which
  is what lets a rejected push re-derive the same merge.
\<close>

theorem flags_merge_intent:
  "(flags_contains (flags_merge base (Known l) (Known r)) f \<longleftrightarrow>
      (if flags_contains base f then f |\<in>| l \<and> f |\<in>| r else f |\<in>| l \<or> f |\<in>| r))
   \<and> flags_merge base local remote = flags_merge base remote local
   \<and> flags_merge base Unknown remote = remote
   \<and> flags_merge base (flags_merge base local remote) remote = flags_merge base local remote"
  by (intro conjI flags_merge_commute) simp_all

section \<open>A sample\<close>

text \<open>A linked, synced item without a body, the concrete placement the witnesses start from.\<close>

definition sample_base :: base where
  "sample_base = \<lparr>b_flags = flags_default, b_revision = Some ''1'', b_object = Some (Hash ''x'')\<rparr>"

definition sample_placement :: "string \<Rightarrow> placement" where
  "sample_placement h =
     \<lparr>p_collection = CollectionId ''inbox'', p_handle = Handle h, p_link_id = Some (LinkId h),
      p_object = Some (Hash ''x''), p_level = LvFull, p_meta = None, p_sort_key = sort_key_default,
      p_flags = flags_default, p_status = Clean, p_conflict_revision = None,
      p_conflict_object = None, p_base = Some sample_base, p_origin = None\<rparr>"

lemmas sample_defs = sample_placement_def sample_base_def flags_default_def

end
