(* ===== verification/Change.thy ===== *)
theory Change
  imports Placement
begin

text \<open>
  Outbound changes and inbound writes (\<open>change.rs\<close>): what the engine asks the remote to do,
  the idempotency key each change derives, and what it asks the storage to persist.

  The key is an FNV-1a digest kept at its 64 bits: \<open>^=\<close> and \<open>wrapping_mul\<close> are \<open>XOR\<close> and
  \<open>*\<close> on a 64-bit word. \<open>usize\<close> is 64 bits wide in \<open>to_le_bytes\<close>.
\<close>

unbundle bit_operations_syntax

section \<open>Change kinds\<close>

datatype change_kind =
    Add handle "link_id option" flags "origin option" "hash option"
  | Remove handle "collection_id option" "link_id option" "string option"
  | SetFlags handle flags
  | Update handle hash "string option"

fun kind_handle :: "change_kind \<Rightarrow> handle" where
  "kind_handle (Add h _ _ _ _) = h"
| "kind_handle (Remove h _ _ _) = h"
| "kind_handle (SetFlags h _) = h"
| "kind_handle (Update h _ _) = h"

section \<open>The digest\<close>

definition dg_OFFSET :: u64 where
  "dg_OFFSET = 0xcbf29ce484222325"

definition dg_PRIME :: u64 where
  "dg_PRIME = 0x100000001b3"

definition dg_byte :: "u8 \<Rightarrow> u64 \<Rightarrow> u64" where
  "dg_byte b d = (d XOR ucast b) * dg_PRIME"

definition dg_new :: u64 where
  "dg_new = dg_OFFSET"

text \<open>One field, terminated by a zero byte.\<close>

definition dg_field :: "u8 list \<Rightarrow> u64 \<Rightarrow> u64" where
  "dg_field bs d = fold dg_byte (bs @ [0]) d"

definition dg_option :: "u8 list option \<Rightarrow> u64 \<Rightarrow> u64" where
  "dg_option x d =
     (case x of
        Some bs \<Rightarrow> dg_field bs (dg_field (as_bytes ''1'') d)
      | None \<Rightarrow> dg_field (as_bytes ''0'') d)"

text \<open>\<open>usize::to_le_bytes\<close> on a 64-bit target.\<close>

definition to_le_bytes :: "nat \<Rightarrow> u8 list" where
  "to_le_bytes n = map (\<lambda>i. ucast (drop_bit (8 * i) (word_of_nat n :: u64))) [0..<8]"

definition dg_flags :: "flags \<Rightarrow> u64 \<Rightarrow> u64" where
  "dg_flags fl d =
     (case known fl of
        None \<Rightarrow> dg_field (as_bytes ''unknown'') d
      | Some fs \<Rightarrow>
          fold (\<lambda>f. dg_field (as_bytes f)) (sorted_list_of_fset fs)
            (dg_field (to_le_bytes (fcard fs)) (dg_field (as_bytes ''known'') d)))"

text \<open>\<open>format!("{:016x}", d)\<close>: the hexadecimal digits, zero-padded to sixteen.\<close>

definition hex_digit :: "nat \<Rightarrow> char" where
  "hex_digit n = ''0123456789abcdef'' ! (n mod 16)"

fun hex_digits :: "nat \<Rightarrow> string" where
  "hex_digits n = (if n < 16 then [hex_digit n] else hex_digits (n div 16) @ [hex_digit n])"

declare hex_digits.simps [simp del]

definition pad_left :: "nat \<Rightarrow> char \<Rightarrow> string \<Rightarrow> string" where
  "pad_left w c s = replicate (w - length s) c @ s"

definition dg_finish :: "u64 \<Rightarrow> change_key" where
  "dg_finish d = ChangeKey (pad_left 16 (CHR ''0'') (hex_digits (unat d)))"

section \<open>Keys and changes\<close>

text \<open>\<open>ReplicaChangeKind::key\<close>.\<close>

definition kind_key :: "change_kind \<Rightarrow> collection_id \<Rightarrow> change_key" where
  "kind_key kind coll =
     (let d = dg_field (as_bytes (handle_str (kind_handle kind)))
                (dg_field (as_bytes (collection_str coll)) dg_new)
      in dg_finish
        (case kind of
           Add h link fl orig obj \<Rightarrow>
             (let d = dg_flags fl
                        (dg_option (map_option (\<lambda>l. as_bytes (link_str l)) link)
                          (dg_field (as_bytes ''add'') d));
                  d = (case orig of
                         Some oo \<Rightarrow>
                           dg_field (as_bytes (handle_str (or_handle oo)))
                             (dg_field (as_bytes (collection_str (or_collection oo)))
                               (dg_field (as_bytes ''1'') d))
                       | None \<Rightarrow> dg_field (as_bytes ''0'') d)
              in dg_option (map_option (\<lambda>h. as_bytes (hash_str h)) obj) d)
         | Remove h to link m \<Rightarrow>
             dg_option (map_option (\<lambda>c. as_bytes (collection_str c)) to)
               (dg_field (as_bytes ''remove'') d)
         | SetFlags h fl \<Rightarrow> dg_flags fl (dg_field (as_bytes ''set-flags'') d)
         | Update h obj m \<Rightarrow>
             dg_field (as_bytes (hash_str obj)) (dg_field (as_bytes ''update'') d)))"

record change =
  ch_kind :: change_kind
  ch_key :: change_key

definition change_new :: "collection_id \<Rightarrow> change_kind \<Rightarrow> change" where
  "change_new coll kind = \<lparr>ch_kind = kind, ch_key = kind_key kind coll\<rparr>"

definition change_handle :: "change \<Rightarrow> handle" where
  "change_handle c = kind_handle (ch_kind c)"

section \<open>Storage writes\<close>

datatype drop_reason = Deleted | Superseded

datatype write_op =
    UpsertPlacement placement
  | DropPlacement collection_id handle drop_reason
  | StoreObject object "u8 list option"
  | SetCheckpoint collection_id checkpoint

text \<open>The placement an operation upserts keeps the placement invariant.\<close>

fun op_ok :: "write_op \<Rightarrow> bool" where
  "op_ok (UpsertPlacement p) = placement_ok p"
| "op_ok _ = True"

lemma change_new_simps [simp]:
  "ch_kind (change_new coll kind) = kind"
  "ch_key (change_new coll kind) = kind_key kind coll"
  "change_handle (change_new coll kind) = kind_handle kind"
  by (simp_all add: change_new_def change_handle_def)

section \<open>The byte stream behind a key\<close>

text \<open>
  A key is the digest of one byte stream, the concatenation of the zero-terminated fields.
\<close>

definition enc_field :: "u8 list \<Rightarrow> u8 list" where
  "enc_field bs = bs @ [0]"

definition enc_option :: "u8 list option \<Rightarrow> u8 list" where
  "enc_option x =
     (case x of
        Some bs \<Rightarrow> enc_field (as_bytes ''1'') @ enc_field bs
      | None \<Rightarrow> enc_field (as_bytes ''0''))"

definition enc_flags :: "flags \<Rightarrow> u8 list" where
  "enc_flags fl =
     (case known fl of
        None \<Rightarrow> enc_field (as_bytes ''unknown'')
      | Some fs \<Rightarrow>
          enc_field (as_bytes ''known'') @ enc_field (to_le_bytes (fcard fs))
            @ concat (map (\<lambda>f. enc_field (as_bytes f)) (sorted_list_of_fset fs)))"

definition enc_origin :: "origin option \<Rightarrow> u8 list" where
  "enc_origin x =
     (case x of
        Some oo \<Rightarrow> enc_field (as_bytes ''1'')
          @ enc_field (as_bytes (collection_str (or_collection oo)))
          @ enc_field (as_bytes (handle_str (or_handle oo)))
      | None \<Rightarrow> enc_field (as_bytes ''0''))"

definition enc_target :: "change_kind \<Rightarrow> u8 list" where
  "enc_target kind =
     (case kind of
        Add h link fl orig obj \<Rightarrow>
          enc_field (as_bytes ''add'')
          @ enc_option (map_option (\<lambda>l. as_bytes (link_str l)) link)
          @ enc_flags fl @ enc_origin orig
          @ enc_option (map_option (\<lambda>h. as_bytes (hash_str h)) obj)
      | Remove h to link m \<Rightarrow>
          enc_field (as_bytes ''remove'')
          @ enc_option (map_option (\<lambda>c. as_bytes (collection_str c)) to)
      | SetFlags h fl \<Rightarrow> enc_field (as_bytes ''set-flags'') @ enc_flags fl
      | Update h obj m \<Rightarrow>
          enc_field (as_bytes ''update'') @ enc_field (as_bytes (hash_str obj)))"

definition enc_kind :: "collection_id \<Rightarrow> change_kind \<Rightarrow> u8 list" where
  "enc_kind coll kind =
     enc_field (as_bytes (collection_str coll))
     @ enc_field (as_bytes (handle_str (kind_handle kind))) @ enc_target kind"

definition dg_bytes :: "u8 list \<Rightarrow> u64 \<Rightarrow> u64" where
  "dg_bytes bs d = fold dg_byte bs d"

lemma dg_bytes_append [simp]: "dg_bytes (xs @ ys) d = dg_bytes ys (dg_bytes xs d)"
  by (simp add: dg_bytes_def)

lemma dg_bytes_Cons [simp]: "dg_bytes (b # bs) d = dg_bytes bs (dg_byte b d)"
  by (simp add: dg_bytes_def)

lemma dg_bytes_Nil [simp]: "dg_bytes [] d = d"
  by (simp add: dg_bytes_def)

lemma dg_field_bytes: "dg_field bs d = dg_bytes (enc_field bs) d"
  by (simp add: dg_field_def dg_bytes_def enc_field_def)

lemma dg_option_bytes: "dg_option x d = dg_bytes (enc_option x) d"
  by (simp add: dg_option_def enc_option_def dg_field_bytes split: option.splits)

lemma dg_fields_bytes:
  "fold (\<lambda>f. dg_field (as_bytes f)) fs d = dg_bytes (concat (map (\<lambda>f. enc_field (as_bytes f)) fs)) d"
  by (induction fs arbitrary: d) (simp_all add: dg_field_bytes)

lemma dg_flags_bytes: "dg_flags fl d = dg_bytes (enc_flags fl) d"
  by (simp add: dg_flags_def enc_flags_def dg_field_bytes dg_fields_bytes split: option.splits)

lemma kind_key_bytes: "kind_key kind coll = dg_finish (dg_bytes (enc_kind coll kind) dg_OFFSET)"
  by (cases kind)
     (simp_all add: kind_key_def enc_kind_def enc_target_def enc_origin_def Let_def dg_new_def
        dg_field_bytes dg_option_bytes dg_flags_bytes split: option.splits)

section \<open>The digest is a bijection byte by byte\<close>

lemma dg_PRIME_inverse: "dg_PRIME * 0xce965057aff6957b = 1"
  by (simp add: dg_PRIME_def)

lemma dg_mult_inj: "a * dg_PRIME = b * dg_PRIME \<longleftrightarrow> a = b"
proof
  assume "a * dg_PRIME = b * dg_PRIME"
  then have "a * (dg_PRIME * 0xce965057aff6957b) = b * (dg_PRIME * 0xce965057aff6957b)"
    by (simp only: mult.assoc[symmetric])
  then show "a = b" by (simp add: dg_PRIME_inverse)
qed simp

lemma dg_byte_inj: "dg_byte b d = dg_byte b e \<longleftrightarrow> d = e"
proof
  assume "dg_byte b d = dg_byte b e"
  then have "(d XOR ucast b) XOR ucast b = (e XOR ucast b) XOR (ucast b :: u64)"
    by (simp add: dg_byte_def dg_mult_inj)
  then show "d = e" by (simp add: xor.assoc)
qed simp

lemma dg_byte_differ: "dg_byte a d = dg_byte b d \<longleftrightarrow> a = b"
proof
  assume "dg_byte a d = dg_byte b d"
  then have "d XOR (d XOR ucast a) = d XOR (d XOR (ucast b :: u64))"
    by (simp add: dg_byte_def dg_mult_inj)
  then have "(ucast a :: u64) = ucast b" by (simp add: xor.assoc[symmetric])
  then have *: "bit (ucast a :: u64) n = bit (ucast b :: u64) n" for n by simp
  show "a = b"
  proof (rule bit_word_eqI)
    fix n assume "n < LENGTH(8)"
    with *[of n] show "bit a n = bit b n" by (simp add: bit_simps)
  qed
qed simp

lemma dg_bytes_inj: "dg_bytes bs d = dg_bytes bs e \<longleftrightarrow> d = e"
  by (induction bs arbitrary: d e) (simp_all add: dg_byte_inj)

section \<open>The printed form\<close>

definition hex_alphabet :: string where
  "hex_alphabet = ''0123456789abcdef''"

text \<open>Reading a digit and a numeral back.\<close>

definition digit_val :: "char \<Rightarrow> nat" where
  "digit_val c = (let n = of_char c in if n < 58 then n - 48 else n - 87)"

definition hex_val :: "string \<Rightarrow> nat" where
  "hex_val s = foldl (\<lambda>a c. 16 * a + digit_val c) 0 s"

lemma digit_val_hex_digit [simp]: "digit_val (hex_digit n) = n mod 16"
proof -
  have "\<forall>k \<in> set [0..<16]. digit_val (''0123456789abcdef'' ! k) = k"
    by code_simp
  then show ?thesis by (simp add: hex_digit_def)
qed

lemma hex_digit_alphabet [simp]: "hex_digit n \<in> set hex_alphabet"
  unfolding hex_digit_def hex_alphabet_def by (rule nth_mem) simp

lemma hex_digits_alphabet: "set (hex_digits n) \<subseteq> set hex_alphabet"
proof (induction n rule: hex_digits.induct)
  case (1 n)
  then show ?case by (cases "n < 16") (auto simp: hex_digits.simps[of n])
qed

lemma hex_val_digits [simp]: "hex_val (hex_digits n) = n"
proof (induction n rule: hex_digits.induct)
  case (1 n)
  then show ?case by (cases "n < 16") (auto simp: hex_digits.simps[of n] hex_val_def)
qed

lemma length_hex_digits: "n < 16 ^ w \<Longrightarrow> 0 < w \<Longrightarrow> length (hex_digits n) \<le> w"
proof (induction n arbitrary: w rule: hex_digits.induct)
  case (1 n)
  show ?case
  proof (cases "n < 16")
    case False
    with "1.prems" obtain w' where w: "w = Suc w'" "0 < w'" by (cases w; cases "w - 1") auto
    with "1.prems" have "n div 16 < 16 ^ w'" by (simp add: less_mult_imp_div_less mult.commute)
    with "1.IH" False w show ?thesis by (simp add: hex_digits.simps[of n])
  qed (use "1.prems" in \<open>simp add: hex_digits.simps[of n]\<close>)
qed

lemma hex_val_pad [simp]: "hex_val (pad_left w (CHR ''0'') s) = hex_val s"
proof -
  have "foldl (\<lambda>a c. 16 * a + digit_val c) 0 (replicate k (CHR ''0'')) = 0" for k
    by (induction k) (simp_all add: digit_val_def)
  then show ?thesis by (simp add: hex_val_def pad_left_def)
qed

lemma length_finish: "length (key_str (dg_finish d)) = 16"
proof -
  have "unat d < 16 ^ 16" using unsigned_less[of d, where 'a=nat] by simp
  then have "length (hex_digits (unat d)) \<le> 16" by (rule length_hex_digits) simp
  then show ?thesis by (simp add: dg_finish_def pad_left_def)
qed

lemma dg_finish_inj: "dg_finish d = dg_finish e \<longleftrightarrow> d = e"
proof
  assume "dg_finish d = dg_finish e"
  then have "hex_val (key_str (dg_finish d)) = hex_val (key_str (dg_finish e))" by simp
  then show "d = e" by (simp add: dg_finish_def unsigned_word_eqI)
qed simp

section \<open>Unique decoding of the stream\<close>

lemma enc_field_inj:
  "0 \<notin> set xs \<Longrightarrow> 0 \<notin> set ys \<Longrightarrow>
    enc_field xs @ u = enc_field ys @ v \<longleftrightarrow> xs = ys \<and> u = v"
proof (induction xs arbitrary: ys)
  case Nil
  then show ?case by (cases ys) (auto simp: enc_field_def)
next
  case (Cons x xs)
  then show ?case by (cases ys) (auto simp: enc_field_def)
qed

lemma u8_of_char_eq [simp]: "(of_char c :: u8) = of_char d \<longleftrightarrow> c = d"
proof
  assume "(of_char c :: u8) = of_char d"
  then have "(word_of_nat (of_char c) :: u8) = word_of_nat (of_char d)"
    by (simp add: of_nat_of_char)
  then have "take_bit 8 (of_char c :: nat) = take_bit 8 (of_char d)"
    by (simp add: word_of_nat_eq_iff)
  then show "c = d" by (simp add: take_bit_eq_mod)
qed simp

lemma as_bytes_inj [simp]: "as_bytes s = as_bytes t \<longleftrightarrow> s = t"
proof -
  have "inj (of_char :: char \<Rightarrow> u8)" by (rule injI) simp
  then show ?thesis by (simp add: as_bytes_def inj_map_eq_map)
qed

lemma u8_of_char_0 [simp]: "(of_char c :: u8) = 0 \<longleftrightarrow> c = CHR 0x00"
  using u8_of_char_eq[of c "CHR 0x00"] by simp

definition nul_free :: "string \<Rightarrow> bool" where
  "nul_free s \<longleftrightarrow> CHR 0x00 \<notin> set s"

lemma as_bytes_NUL [simp]: "0 \<in> set (as_bytes s) \<longleftrightarrow> \<not> nul_free s"
proof -
  have "(0 :: u8) = of_char c \<longleftrightarrow> c = CHR 0x00" for c
    by (metis u8_of_char_0)
  then show ?thesis by (auto simp: as_bytes_def nul_free_def)
qed

lemma nul_free_tags [simp]:
  "nul_free ''0''" "nul_free ''1''" "nul_free ''unknown''" "nul_free ''known''"
  "nul_free ''add''" "nul_free ''remove''" "nul_free ''set-flags''" "nul_free ''update''"
  by (simp_all add: nul_free_def)

definition flags_nul_free :: "flags \<Rightarrow> bool" where
  "flags_nul_free fl = (case known fl of None \<Rightarrow> True | Some fs \<Rightarrow> fcard fs < 2 ^ 64 \<and> fBall fs nul_free)"

definition origin_nul_free :: "origin option \<Rightarrow> bool" where
  "origin_nul_free x = is_none_or x (\<lambda>oo. nul_free (collection_str (or_collection oo)) \<and> nul_free (handle_str (or_handle oo)))"

fun kind_nul_free :: "change_kind \<Rightarrow> bool" where
  "kind_nul_free (Add h link fl orig obj) =
     (nul_free (handle_str h) \<and> is_none_or link (\<lambda>l. nul_free (link_str l)) \<and> flags_nul_free fl
      \<and> origin_nul_free orig \<and> is_none_or obj (\<lambda>x. nul_free (hash_str x)))"
| "kind_nul_free (Remove h to link m) =
     (nul_free (handle_str h) \<and> is_none_or to (\<lambda>c. nul_free (collection_str c)))"
| "kind_nul_free (SetFlags h fl) = (nul_free (handle_str h) \<and> flags_nul_free fl)"
| "kind_nul_free (Update h obj m) = (nul_free (handle_str h) \<and> nul_free (hash_str obj))"

text \<open>
  What a key covers: the kind, the handle and the target state. The delivery key of a
  remove and the preconditions are not part of it.
\<close>

fun key_target :: "change_kind \<Rightarrow> change_kind" where
  "key_target (Remove h to link m) = Remove h to None None"
| "key_target (Update h obj m) = Update h obj None"
| "key_target k = k"

lemma enc_option_inj:
  assumes "is_none_or x (\<lambda>b. 0 \<notin> set b)" "is_none_or y (\<lambda>b. 0 \<notin> set b)"
  shows "enc_option x @ u = enc_option y @ v \<longleftrightarrow> x = y \<and> u = v"
  using assms by (cases x; cases y) (auto simp: enc_option_def enc_field_inj)

lemma enc_fields_inj:
  assumes "length fs = length gs" "\<forall>f \<in> set fs. nul_free f" "\<forall>f \<in> set gs. nul_free f"
  shows "concat (map (\<lambda>f. enc_field (as_bytes f)) fs) @ u
       = concat (map (\<lambda>f. enc_field (as_bytes f)) gs) @ v \<longleftrightarrow> fs = gs \<and> u = v"
  using assms by (induction fs gs rule: list_induct2) (auto simp: enc_field_inj)

lemma length_to_le_bytes [simp]: "length (to_le_bytes n) = 8"
  by (simp add: to_le_bytes_def)

lemma to_le_bytes_inj:
  assumes "n < 2 ^ 64" "m < 2 ^ 64" "to_le_bytes n = to_le_bytes m"
  shows "n = m"
proof -
  let ?w = "\<lambda>n. word_of_nat n :: u64"
  have byte: "(ucast (drop_bit (8 * i) (?w n)) :: u8) = ucast (drop_bit (8 * i) (?w m))" if "i < 8" for i
    using arg_cong[OF assms(3), of "\<lambda>l. l ! i"] that by (simp add: to_le_bytes_def)
  have "?w n = ?w m"
  proof (rule bit_word_eqI)
    fix k assume k: "k < LENGTH(64)"
    then have "bit (ucast (drop_bit (8 * (k div 8)) (?w n)) :: u8) (k mod 8)
             = bit (ucast (drop_bit (8 * (k div 8)) (?w m)) :: u8) (k mod 8)"
      using byte[of "k div 8"] by simp
    with k show "bit (?w n) k = bit (?w m) k"
      by (simp add: bit_simps)
  qed
  with assms(1,2) show ?thesis by (simp add: word_of_nat_eq_iff take_bit_nat_eq_self)
qed

lemma length_sorted_list_of_fset [simp]: "length (sorted_list_of_fset S) = fcard S"
  by (simp add: sorted_list_of_fset.rep_eq fcard.rep_eq)

lemma enc_flags_inj:
  assumes "flags_nul_free a" "flags_nul_free b"
  shows "enc_flags a @ u = enc_flags b @ v \<longleftrightarrow> a = b \<and> u = v"
proof (cases "a = Unknown \<or> b = Unknown")
  case False
  then obtain fs gs where ab: "a = Known fs" "b = Known gs" by (metis flags.exhaust)
  let ?s = "sorted_list_of_fset"
  have le: "enc_field (to_le_bytes (fcard fs)) @ x = enc_field (to_le_bytes (fcard gs)) @ y
      \<longleftrightarrow> fcard fs = fcard gs \<and> x = y" for x y
    using assms ab to_le_bytes_inj[of "fcard fs" "fcard gs"]
    by (auto simp: enc_field_def flags_nul_free_def)
  have eq: "?s fs = ?s gs \<longleftrightarrow> fs = gs"
    by (metis sorted_list_of_fset_simps(2))
  have nf: "\<forall>f \<in> set (?s fs). nul_free f" "\<forall>f \<in> set (?s gs). nul_free f"
    using assms ab by (auto simp: flags_nul_free_def)
  show ?thesis
    using ab eq enc_fields_inj[of "?s fs" "?s gs", OF _ nf]
    by (auto simp: enc_flags_def enc_field_inj le)
next
  case True
  then show ?thesis
    by (cases a; cases b) (simp_all add: enc_flags_def enc_field_inj)
qed

lemma enc_origin_inj:
  assumes "origin_nul_free a" "origin_nul_free b"
  shows "enc_origin a @ u = enc_origin b @ v \<longleftrightarrow> a = b \<and> u = v"
proof -
  have "handle_str (or_handle x) = handle_str (or_handle y) \<Longrightarrow>
        collection_str (or_collection x) = collection_str (or_collection y) \<Longrightarrow> x = (y :: origin)" for x y
    by (simp add: handle.expand collection_id.expand)
  with assms show ?thesis
    by (cases a; cases b) (auto simp: enc_origin_def origin_nul_free_def enc_field_inj)
qed

lemma link_option_inj [simp]:
  "map_option (\<lambda>l. as_bytes (link_str l)) a = map_option (\<lambda>l. as_bytes (link_str l)) b \<longleftrightarrow> a = b"
  by (cases a; cases b) (auto intro: link_id.expand)

lemma hash_option_inj [simp]:
  "map_option (\<lambda>l. as_bytes (hash_str l)) a = map_option (\<lambda>l. as_bytes (hash_str l)) b \<longleftrightarrow> a = b"
  by (cases a; cases b) (auto intro: hash.expand)

lemma collection_option_inj [simp]:
  "map_option (\<lambda>l. as_bytes (collection_str l)) a
     = map_option (\<lambda>l. as_bytes (collection_str l)) b \<longleftrightarrow> a = b"
  by (cases a; cases b) (auto intro: collection_id.expand)

lemma is_none_or_map_option [simp]: "is_none_or (map_option f x) P \<longleftrightarrow> is_none_or x (\<lambda>v. P (f v))"
  by (cases x) auto

lemma enc_field_end: "0 \<notin> set xs \<Longrightarrow> 0 \<notin> set ys \<Longrightarrow> enc_field xs = enc_field ys \<longleftrightarrow> xs = ys"
  by (simp add: enc_field_def)

lemmas enc_flags_end = enc_flags_inj [where u = "[]" and v = "[]", simplified]
lemmas enc_option_end = enc_option_inj [where u = "[]" and v = "[]", simplified]

lemma enc_target_inj:
  assumes "kind_nul_free k" "kind_nul_free k'" "kind_handle k = kind_handle k'"
  shows "enc_target k = enc_target k' \<longleftrightarrow> key_target k = key_target k'"
  using assms
  by (cases k; cases k')
     (auto simp: enc_target_def enc_field_inj enc_field_end enc_option_inj enc_option_end
        enc_flags_inj enc_flags_end enc_origin_inj hash.expand)

lemma kind_nul_free_handle: "kind_nul_free k \<Longrightarrow> nul_free (handle_str (kind_handle k))"
  by (cases k) auto

lemma enc_kind_inj:
  assumes "kind_nul_free k" "kind_nul_free k'" "nul_free (collection_str c)" "nul_free (collection_str c')"
  shows "enc_kind c k = enc_kind c' k' \<longleftrightarrow> c = c' \<and> key_target k = key_target k'"
proof -
  have h: "key_target k = key_target k' \<Longrightarrow> kind_handle k = kind_handle k'"
    by (cases k; cases k') auto
  have "enc_kind c k = enc_kind c' k' \<longleftrightarrow>
      c = c' \<and> kind_handle k = kind_handle k' \<and> enc_target k = enc_target k'"
    using assms kind_nul_free_handle
    by (auto simp: enc_kind_def enc_field_inj handle.expand collection_id.expand)
  with enc_target_inj assms(1,2) h show ?thesis by metis
qed

section \<open>What a key promises\<close>

text \<open>
  The key of a change is the digest of one byte stream, and on strings without a NUL
  byte that stream decodes uniquely: two changes have the same stream exactly when they
  agree on the collection, the kind, the handle and the target state. So the terminated
  fields leave no two splits of the same bytes, no absent field for a present one and no
  unknown flag set for an empty one.
\<close>

theorem change_key_stream:
  assumes "kind_nul_free k" "kind_nul_free k'"
    and "nul_free (collection_str c)" "nul_free (collection_str c')"
  shows "ch_key (change_new c k) = dg_finish (fold dg_byte (enc_kind c k) dg_new)
    \<and> (enc_kind c k = enc_kind c' k' \<longleftrightarrow> c = c' \<and> key_target k = key_target k')"
  using enc_kind_inj[OF assms] by (simp add: kind_key_bytes dg_bytes_def dg_new_def)

theorem change_key_stream_witness:
  "enc_kind (CollectionId ''inbox'') (SetFlags (Handle ''1'') Unknown)
     \<noteq> enc_kind (CollectionId ''inbox'') (SetFlags (Handle ''1'') (Known {||}))"
  using change_key_stream[of "SetFlags (Handle ''1'') Unknown" "SetFlags (Handle ''1'') (Known {||})"
      "CollectionId ''inbox''" "CollectionId ''inbox''"]
  by (simp add: flags_nul_free_def nul_free_def fcard.rep_eq)

text \<open>
  Changes whose streams have the same length and differ in one byte never share a key,
  whatever comes before and after that byte: each step of the digest is a bijection of its
  64-bit state, the prime being odd, and the printed form loses nothing.
\<close>

theorem change_key_one_byte:
  assumes "enc_kind c k = xs @ a # zs" and "enc_kind c' k' = xs @ b # zs" and "a \<noteq> b"
  shows "ch_key (change_new c k) \<noteq> ch_key (change_new c' k')"
  using assms by (simp add: kind_key_bytes dg_finish_inj dg_bytes_inj dg_byte_differ)

theorem change_key_one_byte_witness:
  "kind_key (Update (Handle ''1'') (Hash ''a'') None) (CollectionId ''i'')
     \<noteq> kind_key (Update (Handle ''2'') (Hash ''a'') None) (CollectionId ''i'')"
  using change_key_one_byte[of "CollectionId ''i''" "Update (Handle ''1'') (Hash ''a'') None"
      "[105, 0]" 49 "[0, 117, 112, 100, 97, 116, 101, 0, 97, 0]"
      "CollectionId ''i''" "Update (Handle ''2'') (Hash ''a'') None" 50]
  by (simp add: enc_kind_def enc_target_def enc_field_def as_bytes_def)

text \<open>
  A key is sixteen lowercase hexadecimal characters, and a precondition is not part of
  it: two updates, or two removes, differing only in what they were attempted against are
  one operation.
\<close>

theorem change_key_shape:
  "length (key_str (ch_key (change_new c k))) = 16
   \<and> set (key_str (ch_key (change_new c k))) \<subseteq> set ''0123456789abcdef''
   \<and> ch_key (change_new c (Update h obj m)) = ch_key (change_new c (Update h obj m'))
   \<and> ch_key (change_new c (Remove h to l m)) = ch_key (change_new c (Remove h to l' m'))"
proof (intro conjI)
  show "set (key_str (ch_key (change_new c k))) \<subseteq> set ''0123456789abcdef''"
  proof -
    have "set (key_str (dg_finish d)) \<subseteq> insert (CHR ''0'') (set hex_alphabet)" for d
      using hex_digits_alphabet by (auto simp: dg_finish_def pad_left_def)
    then show ?thesis by (auto simp: kind_key_bytes hex_alphabet_def dest!: subsetD)
  qed
qed (simp_all add: kind_key_bytes length_finish enc_kind_def enc_target_def)

end
