(* ===== verification/Coroutine.thy ===== *)
theory Coroutine
  imports Change
begin

text \<open>
  The seams and the coroutine contract: the payloads of the storage seam (\<open>storage.rs\<close>) and
  of the remote seam (\<open>remote.rs\<close>), what a verb yields and is fed back (\<open>coroutine.rs\<close>).

  A verb is a \<open>resume\<close> function from its state and an optional argument to its next state
  and what it yields or completes with; \<open>None\<close> is a panic. The locale \<open>verb\<close> is the
  contract every verb keeps, from which the facts about any run of any verb follow.
\<close>

section \<open>The storage seam\<close>

datatype load_scope = ScopeAll | ScopeHandles "handle list" | ScopeLinks "link_id list"

record loaded =
  ld_placements :: "placement list"
  ld_checkpoint :: "checkpoint option"

section \<open>The remote seam\<close>

datatype tier = TierMeta | TierFull

record remote_item =
  ri_handle :: handle
  ri_flags :: flags
  ri_revision :: "string option"

record remote_snapshot =
  rs_items :: "remote_item list"
  rs_vanished :: "handle list"
  rs_complete :: bool
  rs_checkpoint :: checkpoint

datatype fetched_body = Inline hash "u8 list" | Persisted hash nat

record fetched_item =
  fi_handle :: handle
  fi_link_id :: link_id
  fi_meta :: meta
  fi_sort_key :: sort_key
  fi_body :: "fetched_body option"
  fi_revision :: "string option"

datatype push_outcome = Accepted | Rejected

record push_result =
  pr_handle :: handle
  pr_outcome :: push_outcome
  pr_assigned :: "handle option"
  pr_revision :: "string option"

section \<open>Yields, arguments, results\<close>

datatype yield =
    WantsEnumerate collection_id "checkpoint option"
  | WantsFetch collection_id "handle list" tier
  | WantsPush collection_id "change list"
  | WantsLoad collection_id load_scope
  | WantsLookupObject "link_id list"
  | WantsWrite "write_op list"

datatype arg =
    ArgEnumerate remote_snapshot
  | ArgFetch "fetched_item list"
  | ArgPush "push_result list"
  | ArgLoad loaded
  | ArgLookupObject "(link_id, hash) btree_map"
  | ArgWrite

datatype arg_error = UnexpectedArg | MissingArg

datatype ('y, 'r) cstate = Yielded 'y | Complete 'r

type_synonym ('c, 'e, 't) step = "('c \<times> (yield, 'e + 't) cstate) option"

text \<open>What a resume that matches no transition answers, the last two arms of every verb.\<close>

fun bad_arg :: "arg option \<Rightarrow> arg_error" where
  "bad_arg (Some _) = UnexpectedArg"
| "bad_arg None = MissingArg"

text \<open>
  Feeding a sequence of arguments until the coroutine completes (\<open>feed\<close> of
  \<open>tests/property.rs\<close>): \<open>None\<close> is a panic, \<open>Some None\<close> a sequence that ran out first.
\<close>

fun feed :: "('c \<Rightarrow> arg option \<Rightarrow> ('c, 'e, 't) step) \<Rightarrow> 'c \<Rightarrow> arg option list \<Rightarrow> ('e + 't) option option" where
  "feed resume c [] = Some None"
| "feed resume c (a # as) =
     (case resume c a of
        None \<Rightarrow> None
      | Some (c', Complete r) \<Rightarrow> Some (Some r)
      | Some (c', Yielded y) \<Rightarrow> feed resume c' as)"

text \<open>The states a driver can bring a coroutine to, whatever it feeds back.\<close>

inductive reaches :: "('c \<Rightarrow> arg option \<Rightarrow> ('c, 'e, 't) step) \<Rightarrow> 'c \<Rightarrow> 'c \<Rightarrow> bool" for resume c where
  reaches_refl: "reaches resume c c"
| reaches_step: "reaches resume c c' \<Longrightarrow> resume c' a = Some (c'', r) \<Longrightarrow> reaches resume c c''"

inductive_cases reachesE: "reaches resume c c'"

section \<open>The contract of a verb\<close>

text \<open>
  \<open>inv\<close> is what a verb keeps of its state, \<open>rank\<close> decreases with every yield (in the
  lexicographic order), \<open>finished\<close> is its terminal state and \<open>of_arg\<close> embeds the error of a
  broken contract into the verb's own error type.
\<close>

definition rank_less :: "((nat \<times> nat) \<times> (nat \<times> nat)) set" where
  "rank_less = less_than <*lex*> less_than"

lemma wf_rank_less: "wf rank_less"
  by (simp add: rank_less_def wf_lex_prod)

lemma rank_less_iff [simp]: "((a, b), (c, d)) \<in> rank_less \<longleftrightarrow> a < c \<or> a = c \<and> b < d"
  by (simp add: rank_less_def)

locale verb =
  fixes resume :: "'c \<Rightarrow> arg option \<Rightarrow> ('c, 'e, 't) step"
    and inv :: "'c \<Rightarrow> bool"
    and rank :: "'c \<Rightarrow> nat \<times> nat"
    and finished :: "'c \<Rightarrow> bool"
    and of_arg :: "arg_error \<Rightarrow> 'e"
  assumes no_panic: "inv c \<Longrightarrow> resume c a \<noteq> None"
    and keeps: "inv c \<Longrightarrow> resume c a = Some (c', r) \<Longrightarrow> inv c'"
    and yield_decreases: "inv c \<Longrightarrow> resume c a = Some (c', Yielded y) \<Longrightarrow> (rank c', rank c) \<in> rank_less"
    and success_finishes: "inv c \<Longrightarrow> resume c a = Some (c', Complete (Inr t)) \<Longrightarrow> finished c'"
    and finished_stays: "finished c \<Longrightarrow> resume c a = Some (c, Complete (Inl (of_arg (bad_arg a))))"
begin

lemma reaches_inv: "reaches resume c c' \<Longrightarrow> inv c \<Longrightarrow> inv c'"
  by (induction rule: reaches.induct) (auto dest: keeps)

text \<open>No sequence of arguments, however wrong, makes the verb panic.\<close>

lemma feed_no_panic: "inv c \<Longrightarrow> feed resume c as \<noteq> None"
proof (induction as arbitrary: c)
  case (Cons a as)
  obtain c' r where r: "resume c a = Some (c', r)"
    using no_panic[OF Cons.prems] by fastforce
  with keeps[OF Cons.prems] have "inv c'" by blast
  with Cons.IH r show ?case by (cases r) simp_all
qed simp

lemma reaches_no_panic: "reaches resume c c' \<Longrightarrow> inv c \<Longrightarrow> resume c' a \<noteq> None"
  using reaches_inv no_panic by blast

text \<open>A completed run stays completed: every later resume is an error, whatever it carries.\<close>

lemma completed_stays_completed:
  assumes "inv c" "resume c a = Some (c', Complete (Inr t))" "reaches resume c' c''"
  shows "c'' = c' \<and> resume c'' b = Some (c'', Complete (Inl (of_arg (bad_arg b))))"
proof -
  have fin: "finished c'" using assms(1,2) by (rule success_finishes)
  from assms(3) have "c'' = c'"
  proof (induction rule: reaches.induct)
    case (reaches_step d a d' r)
    with finished_stays[OF fin, of a] show ?case by simp
  qed simp
  with fin show ?thesis by (simp add: finished_stays)
qed

end

text \<open>
  The contract of one step, as one predicate: what an interpretation of \<open>verb\<close> has to show
  of each arm of a \<open>resume\<close>.
\<close>

definition step_ok ::
  "('c \<Rightarrow> bool) \<Rightarrow> ('c \<Rightarrow> nat \<times> nat) \<Rightarrow> ('c \<Rightarrow> bool) \<Rightarrow> 'c \<Rightarrow> ('c, 'e, 't) step \<Rightarrow> bool" where
  "step_ok invar rank finished c st \<longleftrightarrow>
     (case st of
        None \<Rightarrow> False
      | Some (c', r) \<Rightarrow>
          invar c' \<and>
          (case r of
             Yielded y \<Rightarrow> (rank c', rank c) \<in> rank_less
           | Complete (Inl e) \<Rightarrow> True
           | Complete (Inr t) \<Rightarrow> finished c'))"

lemma step_ok_None [simp]: "\<not> step_ok invar rank finished c None"
  by (simp add: step_ok_def)

lemma step_ok_Yielded [simp]:
  "step_ok invar rank finished c (Some (c', Yielded y)) \<longleftrightarrow> invar c' \<and> (rank c', rank c) \<in> rank_less"
  by (simp add: step_ok_def)

lemma step_ok_Err [simp]: "step_ok invar rank finished c (Some (c', Complete (Inl e))) \<longleftrightarrow> invar c'"
  by (simp add: step_ok_def)

lemma step_ok_Ok [simp]: "step_ok invar rank finished c (Some (c', Complete (Inr t))) \<longleftrightarrow> invar c' \<and> finished c'"
  by (simp add: step_ok_def)

lemma verbI:
  assumes step: "\<And>c a. invar c \<Longrightarrow> step_ok invar rank finished c (resume c a)"
    and fin: "\<And>c a. finished c \<Longrightarrow> resume c a = Some (c, Complete (Inl (of_arg (bad_arg a))))"
  shows "verb resume invar rank finished of_arg"
proof
  show "invar c \<Longrightarrow> resume c a \<noteq> None" for c a
    using step[of c a] by (cases "resume c a") simp_all
  show "invar c \<Longrightarrow> resume c a = Some (c', r) \<Longrightarrow> invar c'" for c a c' r
    using step[of c a] by (auto simp: step_ok_def)
  show "invar c \<Longrightarrow> resume c a = Some (c', Yielded y) \<Longrightarrow> (rank c', rank c) \<in> rank_less" for c a c' y
    using step[of c a] by simp
  show "invar c \<Longrightarrow> resume c a = Some (c', Complete (Inr t)) \<Longrightarrow> finished c'" for c a c' t
    using step[of c a] by simp
qed (rule fin)

section \<open>What every verb gives a driver\<close>

text \<open>The reply that matches a yield.\<close>

fun answers :: "yield \<Rightarrow> arg \<Rightarrow> bool" where
  "answers (WantsEnumerate _ _) (ArgEnumerate _) = True"
| "answers (WantsFetch _ _ _) (ArgFetch _) = True"
| "answers (WantsPush _ _) (ArgPush _) = True"
| "answers (WantsLoad _ _) (ArgLoad _) = True"
| "answers (WantsLookupObject _) (ArgLookupObject _) = True"
| "answers (WantsWrite _) ArgWrite = True"
| "answers _ _ = False"

lemma all_answers [simp]:
  "(\<forall>b. answers (WantsEnumerate c ck) b \<longrightarrow> P b) \<longleftrightarrow> (\<forall>sn. P (ArgEnumerate sn))"
  "(\<forall>b. answers (WantsFetch c hs t) b \<longrightarrow> P b) \<longleftrightarrow> (\<forall>is. P (ArgFetch is))"
  "(\<forall>b. answers (WantsPush c cs) b \<longrightarrow> P b) \<longleftrightarrow> (\<forall>rs. P (ArgPush rs))"
  "(\<forall>b. answers (WantsLoad c sc) b \<longrightarrow> P b) \<longleftrightarrow> (\<forall>ld. P (ArgLoad ld))"
  "(\<forall>b. answers (WantsLookupObject ls) b \<longrightarrow> P b) \<longleftrightarrow> (\<forall>kn. P (ArgLookupObject kn))"
  "(\<forall>b. answers (WantsWrite ops) b \<longrightarrow> P b) \<longleftrightarrow> P ArgWrite"
  by (auto elim: answers.elims)

text \<open>The requests of the remote seam.\<close>

fun is_remote :: "yield \<Rightarrow> bool" where
  "is_remote (WantsEnumerate _ _) = True"
| "is_remote (WantsFetch _ _ _) = True"
| "is_remote (WantsPush _ _) = True"
| "is_remote _ = False"

text \<open>
  The contract a driver relies on: a verb that yielded accepts any reply that matches, and an
  accepted argument never ends in an argument error.
\<close>

locale driven_verb = verb resume inv rank finished of_arg
  for resume :: "'k \<Rightarrow> arg option \<Rightarrow> ('k, 'c, 't) step" and inv rank finished
    and of_arg :: "arg_error \<Rightarrow> 'c" +
  fixes ready :: "'k \<Rightarrow> arg option \<Rightarrow> bool"
  assumes yield_ready:
      "inv c \<Longrightarrow> resume c a = Some (c', Yielded y) \<Longrightarrow> answers y b \<Longrightarrow> ready c' (Some b)"
    and ready_no_arg_error:
      "inv c \<Longrightarrow> ready c a \<Longrightarrow> resume c a \<noteq> Some (c', Complete (Inl (of_arg e)))"

text \<open>A verb that asks for nothing of the remote.\<close>

locale offline_verb = driven_verb +
  assumes offline: "inv c \<Longrightarrow> resume c a = Some (c', Yielded y) \<Longrightarrow> \<not> is_remote y"

end
