(* ===== verification/Sync_State.thy ===== *)
theory Sync_State
  imports Coroutine
begin

text \<open>
  The state of the SYNC verb (\<open>sync.rs\<close>): its options, its events and report, the merge in
  progress with the two-pointer join it walks, and the coroutine's own record.
\<close>

section \<open>Options\<close>

record push_rights =
  rights_flags :: bool
  rights_content :: bool
  rights_add :: bool
  rights_remove :: bool

definition push_rights_all :: push_rights where
  "push_rights_all = \<lparr>rights_flags = True, rights_content = True, rights_add = True, rights_remove = True\<rparr>"

definition push_rights_none :: push_rights where
  "push_rights_none = \<lparr>rights_flags = False, rights_content = False, rights_add = False, rights_remove = False\<rparr>"

datatype conflict_policy = Manual | PreferLocal | PreferRemote | KeepBoth

datatype delete_policy = Revert | Keep

record sync_options =
  opt_push :: bool
  opt_rights :: push_rights
  opt_delete :: delete_policy
  opt_conflict :: conflict_policy
  opt_full :: bool

definition sync_options_default :: sync_options where
  "sync_options_default =
     \<lparr>opt_push = True, opt_rights = push_rights_all, opt_delete = Revert,
      opt_conflict = Manual, opt_full = False\<rparr>"

text \<open>The four push gates, \<open>opts.push && opts.rights.<kind>\<close>.\<close>

definition may_push_flags :: "sync_options \<Rightarrow> bool" where
  "may_push_flags opts \<longleftrightarrow> opt_push opts \<and> rights_flags (opt_rights opts)"

definition may_push_content :: "sync_options \<Rightarrow> bool" where
  "may_push_content opts \<longleftrightarrow> opt_push opts \<and> rights_content (opt_rights opts)"

definition may_push_add :: "sync_options \<Rightarrow> bool" where
  "may_push_add opts \<longleftrightarrow> opt_push opts \<and> rights_add (opt_rights opts)"

definition may_push_remove :: "sync_options \<Rightarrow> bool" where
  "may_push_remove opts \<longleftrightarrow> opt_push opts \<and> rights_remove (opt_rights opts)"

section \<open>Events and report\<close>

datatype event =
    Added handle
  | FlagsChanged handle
  | ContentChanged handle
  | Vanished handle
  | Conflicted handle
  | EvCreated handle

record sync_report =
  sr_pulled :: nat
  sr_pushed :: nat
  sr_conflicts :: nat
  sr_rejected :: nat
  sr_refreshed :: nat
  sr_events :: "event list"

definition sync_report_default :: sync_report where
  "sync_report_default =
     \<lparr>sr_pulled = 0, sr_pushed = 0, sr_conflicts = 0, sr_rejected = 0, sr_refreshed = 0, sr_events = []\<rparr>"

section \<open>The join\<close>

record candidate =
  ca_handle :: handle
  ca_local :: "placement option"
  ca_remote :: "remote_item option"

record join =
  jn_local :: "(handle, placement) btree_map"
  jn_remote :: "remote_item list"

definition join_new :: "(handle, placement) btree_map \<Rightarrow> remote_item list \<Rightarrow> join" where
  "join_new local remote = \<lparr>jn_local = local, jn_remote = remote\<rparr>"

text \<open>\<open>Join::next\<close>: pairing the two sides in handle order.\<close>

definition join_next :: "join \<Rightarrow> (candidate \<times> join) option" where
  "join_next j =
     (case (jn_local j, jn_remote j) of
        ([], []) \<Rightarrow> None
      | ((h, p) # ls, []) \<Rightarrow>
          Some (\<lparr>ca_handle = h, ca_local = Some p, ca_remote = None\<rparr>, j\<lparr>jn_local := ls\<rparr>)
      | ([], i # rs) \<Rightarrow>
          Some (\<lparr>ca_handle = ri_handle i, ca_local = None, ca_remote = Some i\<rparr>, j\<lparr>jn_remote := rs\<rparr>)
      | ((h, p) # ls, i # rs) \<Rightarrow>
          if h < ri_handle i then
            Some (\<lparr>ca_handle = h, ca_local = Some p, ca_remote = None\<rparr>, j\<lparr>jn_local := ls\<rparr>)
          else if ri_handle i < h then
            Some (\<lparr>ca_handle = ri_handle i, ca_local = None, ca_remote = Some i\<rparr>, j\<lparr>jn_remote := rs\<rparr>)
          else
            Some (\<lparr>ca_handle = h, ca_local = Some p, ca_remote = Some i\<rparr>,
                  j\<lparr>jn_local := ls, jn_remote := rs\<rparr>))"

definition join_size :: "join \<Rightarrow> nat" where
  "join_size j = length (jn_local j) + length (jn_remote j)"

lemma join_next_size [termination_simp]: "join_next j = Some (c, j') \<Longrightarrow> join_size j' < join_size j"
  by (auto simp: join_next_def join_size_def split: list.splits if_splits)

section \<open>The merge in progress\<close>

record merging =
  mg_join :: join
  mg_vanished :: "handle fset"
  mg_complete :: bool
  mg_checkpoint :: checkpoint

text \<open>\<open>Merge::narrow\<close>: what a delta snapshot makes of a joined handle.\<close>

definition narrow :: "merging \<Rightarrow> candidate \<Rightarrow> candidate option" where
  "narrow m c =
     (if ca_handle c |\<in>| mg_vanished m then Some (c\<lparr>ca_remote := None\<rparr>)
      else if ca_remote c \<noteq> None then Some c
      else (case ca_local c of
              None \<Rightarrow> None
            | Some p \<Rightarrow>
                if p_status p = Clean then None
                else Some (c\<lparr>ca_remote := map_option
                       (\<lambda>b. \<lparr>ri_handle = ca_handle c, ri_flags = b_flags b,
                             ri_revision = option_or (p_conflict_revision p) (b_revision b)\<rparr>)
                       (p_base p)\<rparr>)))"

text \<open>
  The loop of \<open>next_candidate\<close> once a merge is in progress: the next joined handle the
  snapshot makes a candidate.
\<close>

function merging_next :: "merging \<Rightarrow> candidate option \<times> merging" where
  "merging_next m =
     (case join_next (mg_join m) of
        None \<Rightarrow> (None, m)
      | Some (c, j) \<Rightarrow>
          (let m = m\<lparr>mg_join := j\<rparr>
           in if mg_complete m then (Some c, m)
              else (case narrow m c of
                      Some c' \<Rightarrow> (Some c', m)
                    | None \<Rightarrow> merging_next m)))"
  by pat_completeness auto
termination
  by (relation "measure (\<lambda>m. join_size (mg_join m))") (auto dest: join_next_size)

declare merging_next.simps [simp del]

section \<open>The coroutine's record\<close>

datatype sync_state =
  SyStart | SyPendingLoad | SyPendingEnumerate | SyMerging | SyPendingPush | SyPendingWrite | SyDone

record sync =
  sy_collection :: collection_id
  sy_opts :: sync_options
  sy_local :: "(handle, placement) btree_map"
  sy_checkpoint :: "checkpoint option"
  sy_merging :: "merging option"
  sy_writes :: "write_op list"
  sy_pushes :: "change list"
  sy_in_flight :: "handle list"
  sy_next_checkpoint :: "checkpoint option"
  sy_pending_flag_pushes :: "(handle, placement) btree_map"
  sy_pending_content_pushes :: "(handle, placement) btree_map"
  sy_pending_drops :: "handle fset"
  sy_pending_creates :: "(handle, placement) btree_map"
  sy_report :: sync_report
  sy_state :: sync_state

definition PUSH_CHUNK :: nat where
  "PUSH_CHUNK = 64"

definition WRITE_CHUNK :: nat where
  "WRITE_CHUNK = 1024"

definition sync_new :: "collection_id \<Rightarrow> sync_options \<Rightarrow> sync" where
  "sync_new coll opts =
     \<lparr>sy_collection = coll, sy_opts = opts, sy_local = [], sy_checkpoint = None, sy_merging = None,
      sy_writes = [], sy_pushes = [], sy_in_flight = [], sy_next_checkpoint = None,
      sy_pending_flag_pushes = [], sy_pending_content_pushes = [], sy_pending_drops = {||},
      sy_pending_creates = [], sy_report = sync_report_default, sy_state = SyStart\<rparr>"

section \<open>The join as an enumeration\<close>

text \<open>Every candidate of a join, in the order the join yields them.\<close>

function join_all :: "join \<Rightarrow> candidate list" where
  "join_all j = (case join_next j of None \<Rightarrow> [] | Some (c, j') \<Rightarrow> c # join_all j')"
  by pat_completeness auto
termination
  by (relation "measure join_size") (auto dest: join_next_size)

declare join_all.simps [simp del]

text \<open>
  The reference: over the sorted union of the handles of both sides, look each one up on
  each side.
\<close>

definition join_ref :: "join \<Rightarrow> candidate list" where
  "join_ref j =
     map (\<lambda>h. \<lparr>ca_handle = h, ca_local = map_of (jn_local j) h,
               ca_remote = List.find (\<lambda>i. ri_handle i = h) (jn_remote j)\<rparr>)
       (sorted_list_of_set (fst ` set (jn_local j) \<union> ri_handle ` set (jn_remote j)))"

definition join_wf :: "join \<Rightarrow> bool" where
  "join_wf j \<longleftrightarrow> bt_wf (jn_local j) \<and> sorted_wrt (<) (map ri_handle (jn_remote j))"

definition join_handles :: "join \<Rightarrow> handle set" where
  "join_handles j = fst ` set (jn_local j) \<union> ri_handle ` set (jn_remote j)"

definition join_look :: "join \<Rightarrow> handle \<Rightarrow> candidate" where
  "join_look j h =
     \<lparr>ca_handle = h, ca_local = map_of (jn_local j) h,
      ca_remote = List.find (\<lambda>i. ri_handle i = h) (jn_remote j)\<rparr>"

lemma find_remote_None: "h \<notin> ri_handle ` set is \<Longrightarrow> List.find (\<lambda>i. ri_handle i = h) is = None"
  by (auto simp: find_None_iff)

lemma map_of_local_None: "h \<notin> fst ` set m \<Longrightarrow> map_of m h = None"
  by (simp add: map_of_eq_None_iff)

text \<open>One step of the join: the least handle left, looked up on both sides.\<close>

lemma join_next_look:
  assumes "join_wf j" "join_next j = Some (c, j')"
  shows "join_wf j' \<and> c = join_look j (ca_handle c)
    \<and> join_handles j = insert (ca_handle c) (join_handles j')
    \<and> (\<forall>h \<in> join_handles j'. ca_handle c < h)
    \<and> (\<forall>h. h \<noteq> ca_handle c \<longrightarrow> join_look j h = join_look j' h)"
proof (cases "jn_local j"; cases "jn_remote j")
  assume "jn_local j = []" "jn_remote j = []"
  with assms(2) show ?thesis by (simp add: join_next_def)
next
  fix i rs assume "jn_local j = []" "jn_remote j = i # rs"
  with assms show ?thesis
    by (auto simp: join_next_def join_wf_def join_look_def join_handles_def)
next
  fix hp ls assume l: "jn_local j = hp # ls" "jn_remote j = []"
  with assms show ?thesis
    by (cases hp) (auto simp: join_next_def join_wf_def bt_wf_def join_look_def join_handles_def)
next
  fix hp ls i rs assume l: "jn_local j = hp # ls" "jn_remote j = i # rs"
  obtain h p where hp: "hp = (h, p)" by (cases hp) auto
  consider (lt) "h < ri_handle i" | (gt) "ri_handle i < h" | (eq) "h = ri_handle i"
    using less_linear by blast
  then show ?thesis
  proof cases
    case lt
    then have "h \<notin> ri_handle ` set (i # rs)" using assms(1) l by (auto simp: join_wf_def)
    with lt assms l hp find_remote_None[of h "i # rs"] show ?thesis
      by (auto simp: join_next_def join_wf_def bt_wf_def join_look_def join_handles_def
            intro: less_trans[of h "ri_handle i"])
  next
    case gt
    then have "ri_handle i \<notin> fst ` set ((h, p) # ls)"
      using assms(1) l hp by (auto simp: join_wf_def bt_wf_def)
    moreover have "\<not> h < ri_handle i" using gt by simp
    moreover have "\<forall>x \<in> set ls. ri_handle i < fst x"
      using assms(1) l hp gt less_trans[OF gt] by (simp add: join_wf_def bt_wf_def)
    ultimately show ?thesis
      using gt assms l hp map_of_local_None[of "ri_handle i" "(h, p) # ls"]
      by (auto simp: join_next_def join_wf_def bt_wf_def join_look_def join_handles_def
            dest: bspec)
  next
    case eq
    with assms l hp show ?thesis
      by (auto simp: join_next_def join_wf_def bt_wf_def join_look_def join_handles_def dest: bspec)
  qed
qed

lemma join_all_look:
  "join_wf j \<Longrightarrow>
     sorted_wrt (<) (map ca_handle (join_all j)) \<and> ca_handle ` set (join_all j) = join_handles j
     \<and> (\<forall>c \<in> set (join_all j). c = join_look j (ca_handle c))"
proof (induction j rule: join_all.induct)
  case (1 j)
  show ?case
  proof (cases "join_next j")
    case None
    then have "jn_local j = []" "jn_remote j = []"
      by (auto simp: join_next_def split: list.splits prod.splits if_splits)
    with None show ?thesis by (simp add: join_all.simps[of j] join_handles_def)
  next
    case (Some cj)
    then obtain c j' where step: "join_next j = Some (c, j')" by (cases cj) auto
    note look = join_next_look[OF "1.prems" step]
    have "join_wf j'" using look by simp
    note ih = "1.IH"[OF step refl this]
    have "ca = join_look j (ca_handle ca)" if "ca \<in> set (join_all j')" for ca
    proof -
      have "ca_handle ca \<in> join_handles j'" using ih that by blast
      then have "ca_handle ca \<noteq> ca_handle c" using look by (metis less_irrefl)
      with look ih that show ?thesis by metis
    qed
    with look ih show ?thesis
      by (simp add: join_all.simps[of j] step)
  qed
qed

text \<open>
  C20: the two-pointer join is a full outer join in handle order. Walking both sides once,
  in their order, yields every handle either side holds exactly once, in increasing order,
  each paired with the placement and the item a lookup of that handle finds.
\<close>

theorem join_walk_is_outer_join:
  assumes "bt_wf local" "sorted_wrt (<) (map ri_handle items)"
  shows "join_all (join_new local items) = join_ref (join_new local items)"
proof -
  let ?j = "join_new local items"
  have "join_wf ?j" using assms by (simp add: join_wf_def join_new_def)
  note look = join_all_look[OF this]
  have "map ca_handle (join_all ?j) = sorted_list_of_set (join_handles ?j)"
    using look
    by (intro strict_sorted_equal) (auto simp: join_handles_def)
  moreover have "join_all ?j = map (join_look ?j) (map ca_handle (join_all ?j))"
    using look by (simp add: map_idI)
  ultimately show ?thesis
    by (simp add: join_ref_def join_look_def[abs_def] join_handles_def)
qed

theorem join_walk_is_outer_join_witness:
  "join_all (join_new [(Handle ''1'', sample_placement ''1'')]
      [\<lparr>ri_handle = Handle ''1'', ri_flags = Unknown, ri_revision = None\<rparr>,
       \<lparr>ri_handle = Handle ''2'', ri_flags = Unknown, ri_revision = None\<rparr>])
   = join_ref (join_new [(Handle ''1'', sample_placement ''1'')]
      [\<lparr>ri_handle = Handle ''1'', ri_flags = Unknown, ri_revision = None\<rparr>,
       \<lparr>ri_handle = Handle ''2'', ri_flags = Unknown, ri_revision = None\<rparr>])"
  by (rule join_walk_is_outer_join) (simp_all add: bt_wf_def less_char_def)

end
