(* ===== verification/Sync_Merge.thy ===== *)
theory Sync_Merge
  imports Sync_State
begin

text \<open>
  The three-way merge of one candidate (\<open>sync.rs\<close>, \<open>merge\<close> and the methods it calls). Each
  method takes the coroutine's record and returns it updated; \<open>None\<close> is a panic of one of
  the \<open>expect\<close> calls. The arms of \<open>merge\<close> are one definition each, in the code's order.
\<close>

section \<open>Recording\<close>

definition write_push :: "write_op \<Rightarrow> sync \<Rightarrow> sync" where
  [recording]: "write_push op s = s\<lparr>sy_writes := sy_writes s @ [op]\<rparr>"

definition emit :: "event \<Rightarrow> sync \<Rightarrow> sync" where
  [recording]: "emit ev s = s\<lparr>sy_report := (sy_report s)\<lparr>sr_events := sr_events (sy_report s) @ [ev]\<rparr>\<rparr>"

definition count_pulled :: "sync \<Rightarrow> sync" where
  [recording]: "count_pulled s = s\<lparr>sy_report := (sy_report s)\<lparr>sr_pulled := sr_pulled (sy_report s) + 1\<rparr>\<rparr>"

definition sync_drop :: "handle \<Rightarrow> drop_reason \<Rightarrow> sync \<Rightarrow> sync" where
  [recording]: "sync_drop h reason s = write_push (DropPlacement (sy_collection s) h reason) s"

section \<open>Pulling\<close>

definition pulled_placement :: "collection_id \<Rightarrow> remote_item \<Rightarrow> placement" where
  "pulled_placement coll item =
     \<lparr>p_collection = coll, p_handle = ri_handle item, p_link_id = None, p_object = None,
      p_level = LvProbed, p_meta = None, p_sort_key = sort_key_default, p_flags = ri_flags item,
      p_status = Clean, p_conflict_revision = None, p_conflict_object = None,
      p_base = Some \<lparr>b_flags = ri_flags item, b_revision = ri_revision item, b_object = None\<rparr>,
      p_origin = None\<rparr>"

definition pull_add :: "remote_item \<Rightarrow> sync \<Rightarrow> sync" where
  "pull_add item s = write_push (UpsertPlacement (pulled_placement (sy_collection s) item)) s"

definition refreshed_placement :: "placement \<Rightarrow> remote_item \<Rightarrow> placement" where
  "refreshed_placement p item =
     p\<lparr>p_object := None, p_level := LvProbed,
       p_base := map_option (\<lambda>b. b\<lparr>b_revision := ri_revision item, b_object := None\<rparr>) (p_base p)\<rparr>"

definition pull_content :: "placement \<Rightarrow> remote_item \<Rightarrow> sync \<Rightarrow> sync \<times> placement" where
  "pull_content p item s =
     (let updated = refreshed_placement p item;
          s = write_push (UpsertPlacement updated) s;
          s = s\<lparr>sy_report := (sy_report s)\<lparr>sr_refreshed := sr_refreshed (sy_report s) + 1\<rparr>\<rparr>;
          s = emit (ContentChanged (p_handle p)) s
      in (s, updated))"

text \<open>The base of \<open>p\<close> moved to the flags \<open>fl\<close> alone.\<close>

definition flags_base :: "placement \<Rightarrow> flags \<Rightarrow> base" where
  "flags_base p fl =
     \<lparr>b_flags = fl, b_revision = Option.bind (p_base p) b_revision,
      b_object = Option.bind (p_base p) b_object\<rparr>"

definition settled_status :: "placement \<Rightarrow> status" where
  "settled_status p = (if p_status p \<noteq> Conflict then Clean else p_status p)"

definition pulled_flags_placement :: "placement \<Rightarrow> flags \<Rightarrow> placement" where
  "pulled_flags_placement p fl =
     p\<lparr>p_flags := fl, p_status := settled_status p, p_base := Some (flags_base p fl)\<rparr>"

definition pull_flags :: "placement \<Rightarrow> flags \<Rightarrow> sync \<Rightarrow> sync" where
  "pull_flags p fl s = write_push (UpsertPlacement (pulled_flags_placement p fl)) s"

definition rebased_placement :: "placement \<Rightarrow> flags \<Rightarrow> placement" where
  "rebased_placement p fl = p\<lparr>p_status := settled_status p, p_base := Some (flags_base p fl)\<rparr>"

definition rebase :: "placement \<Rightarrow> flags \<Rightarrow> sync \<Rightarrow> sync" where
  "rebase p fl s = write_push (UpsertPlacement (rebased_placement p fl)) s"

section \<open>Settling accepted pushes\<close>

definition content_rebased_placement :: "placement \<Rightarrow> string option \<Rightarrow> placement" where
  "content_rebased_placement p revision =
     (let base_flags = (case p_base p of Some b \<Rightarrow> b_flags b | None \<Rightarrow> flags_default)
      in p\<lparr>p_status := (if p_status p = Tombstone then Tombstone
                         else if p_flags p = base_flags then Clean else Dirty),
           p_base := Some \<lparr>b_flags = base_flags, b_revision = revision, b_object = p_object p\<rparr>\<rparr>)"

definition rebase_content :: "placement \<Rightarrow> string option \<Rightarrow> sync \<Rightarrow> sync" where
  "rebase_content p revision s = write_push (UpsertPlacement (content_rebased_placement p revision)) s"

definition placed_create :: "placement \<Rightarrow> handle \<Rightarrow> string option \<Rightarrow> placement" where
  "placed_create p h revision =
     p\<lparr>p_handle := h, p_status := Clean, p_origin := None,
       p_base := Some \<lparr>b_flags = p_flags p, b_revision = revision, b_object = p_object p\<rparr>\<rparr>"

definition rekey_create :: "placement \<Rightarrow> handle \<Rightarrow> string option \<Rightarrow> sync \<Rightarrow> sync" where
  "rekey_create placeholder h revision s =
     write_push (UpsertPlacement (placed_create placeholder h revision))
       (sync_drop (p_handle placeholder) Superseded s)"

section \<open>Refused deletes\<close>

definition refuse_delete :: "placement \<Rightarrow> sync \<Rightarrow> sync \<times> change_kind option" where
  "refuse_delete p s =
     (case opt_delete (sy_opts s) of
        Revert \<Rightarrow> (write_push (UpsertPlacement (p\<lparr>p_status := Clean\<rparr>)) s, None)
      | Keep \<Rightarrow> (s, None))"

section \<open>The flag axis\<close>

datatype push_flags = Derive | Withhold

definition reconcile_flags ::
  "placement \<Rightarrow> remote_item \<Rightarrow> push_flags \<Rightarrow> sync \<Rightarrow> sync \<times> change_kind option" where
  "reconcile_flags p item allow s =
     (case p_base p of
        None \<Rightarrow>
          (emit (FlagsChanged (p_handle p)) (count_pulled (pull_flags p (ri_flags item) s)), None)
      | Some b \<Rightarrow>
          (let base_flags = b_flags b;
               merged = flags_merge base_flags (p_flags p) (ri_flags item);
               pull = (merged \<noteq> p_flags p);
               push = (merged \<noteq> ri_flags item)
           in if \<not> pull \<and> \<not> push then
                (let content_edit = (p_object p \<noteq> None \<and> b_object b \<noteq> p_object p)
                 in if p_flags p \<noteq> base_flags \<or> (p_status p = Dirty \<and> \<not> content_edit)
                    then (rebase p merged s, None) else (s, None))
              else if pull \<and> \<not> push then
                (emit (FlagsChanged (p_handle p)) (count_pulled (pull_flags p merged s)), None)
              else
                (let updated = p\<lparr>p_flags := merged\<rparr>;
                     s = (if pull
                          then emit (FlagsChanged (p_handle p))
                                 (count_pulled (write_push (UpsertPlacement updated) s))
                          else s)
                 in if allow = Withhold \<or> \<not> may_push_flags (sy_opts s) then (s, None)
                    else (s\<lparr>sy_pending_flag_pushes :=
                               bt_insert (p_handle p) updated (sy_pending_flag_pushes s)\<rparr>,
                          Some (SetFlags (p_handle p) merged)))))"

section \<open>The content axis\<close>

datatype content_outcome = Untouched | Rewritten placement | Push change_kind

definition conflicted_placement :: "placement \<Rightarrow> remote_item \<Rightarrow> placement" where
  "conflicted_placement p item =
     p\<lparr>p_status := Conflict, p_conflict_revision := ri_revision item, p_conflict_object := None\<rparr>"

definition mark_conflict :: "placement \<Rightarrow> remote_item \<Rightarrow> sync \<Rightarrow> sync \<times> content_outcome" where
  "mark_conflict p item s =
     (let conflicted = conflicted_placement p item;
          s = write_push (UpsertPlacement conflicted) s;
          s = s\<lparr>sy_report := (sy_report s)\<lparr>sr_conflicts := sr_conflicts (sy_report s) + 1\<rparr>\<rparr>;
          s = emit (Conflicted (p_handle p)) s
      in (s, Rewritten conflicted))"

definition conflict_dup :: "collection_id \<Rightarrow> placement \<Rightarrow> hash \<Rightarrow> placement" where
  "conflict_dup coll p obj =
     \<lparr>p_collection = coll, p_handle = Handle (handle_str (p_handle p) @ [CHR 0x01] @ hash_str obj),
      p_link_id = Some (LinkId (''keepboth'' @ [CHR 0x01] @ hash_str obj)), p_object = Some obj,
      p_level = LvFull, p_meta = p_meta p, p_sort_key = p_sort_key p, p_flags = p_flags p,
      p_status = Created, p_conflict_revision = None, p_conflict_object = None, p_base = None,
      p_origin = None\<rparr>"

definition stage_conflict_dup :: "placement \<Rightarrow> sync \<Rightarrow> sync option" where
  "stage_conflict_dup p s =
     do {
       obj \<leftarrow> p_object p;
       Some (write_push (UpsertPlacement (conflict_dup (sy_collection s) p obj)) s)
     }"

text \<open>Deriving a content update: the placement is stashed until the remote answers.\<close>

definition push_update ::
  "placement \<Rightarrow> handle \<Rightarrow> string option \<Rightarrow> sync \<Rightarrow> (sync \<times> change_kind) option" where
  "push_update p h if_match s =
     do {
       obj \<leftarrow> p_object p;
       Some (s\<lparr>sy_pending_content_pushes := bt_insert h p (sy_pending_content_pushes s)\<rparr>,
             Update h obj if_match)
     }"

definition resolve_conflict ::
  "placement \<Rightarrow> remote_item \<Rightarrow> sync \<Rightarrow> (sync \<times> content_outcome) option" where
  "resolve_conflict p item s =
     (case opt_conflict (sy_opts s) of
        Manual \<Rightarrow> Some (mark_conflict p item s)
      | PreferRemote \<Rightarrow> (let (s, updated) = pull_content p item s in Some (s, Rewritten updated))
      | PreferLocal \<Rightarrow>
          if \<not> may_push_content (sy_opts s) then Some (mark_conflict p item s)
          else do {
            (s, change) \<leftarrow> push_update p (p_handle p) (ri_revision item) s;
            Some (s, Push change)
          }
      | KeepBoth \<Rightarrow>
          do {
            s \<leftarrow> stage_conflict_dup p s;
            (let (s, updated) = pull_content p item s in Some (s, Rewritten updated))
          })"

definition reconcile_content ::
  "placement \<Rightarrow> remote_item \<Rightarrow> sync \<Rightarrow> (sync \<times> content_outcome) option" where
  "reconcile_content p item s =
     (case p_base p of
        None \<Rightarrow>
          if p_object p \<noteq> None \<and> ri_revision item \<noteq> None then Some (mark_conflict p item s)
          else Some (s, Untouched)
      | Some b \<Rightarrow>
          if p_status p = Conflict then
            if ri_revision item \<noteq> None \<and> ri_revision item \<noteq> p_conflict_revision p then
              (let updated = p\<lparr>p_conflict_revision := ri_revision item, p_conflict_object := None\<rparr>
               in Some (write_push (UpsertPlacement updated) s, Rewritten updated))
            else Some (s, Untouched)
          else
            (let local_changed = (p_status p = Dirty \<and> p_object p \<noteq> None \<and> p_object p \<noteq> b_object b);
                 remote_changed = (ri_revision item \<noteq> None \<and> ri_revision item \<noteq> b_revision b)
             in if \<not> local_changed \<and> \<not> remote_changed then Some (s, Untouched)
                else if \<not> local_changed \<and> remote_changed then
                  (let (s, updated) = pull_content p item s in Some (s, Rewritten updated))
                else if local_changed \<and> \<not> remote_changed then
                  if \<not> may_push_content (sy_opts s) then Some (s, Untouched)
                  else do {
                    (s, change) \<leftarrow> push_update p (p_handle p) (b_revision b) s;
                    Some (s, Push change)
                  }
                else resolve_conflict p item s))"

section \<open>The arms of the merge\<close>

text \<open>Local delete or move, both sides knew it.\<close>

definition merge_deleted ::
  "handle \<Rightarrow> placement \<Rightarrow> remote_item \<Rightarrow> sync \<Rightarrow> (sync \<times> change_kind option) option" where
  "merge_deleted h p item s =
     (let base_revision = Option.bind (p_base p) b_revision
      in if ri_revision item \<noteq> None \<and> ri_revision item \<noteq> base_revision then
           Some (emit (Added h) (count_pulled (pull_add item s)), None)
         else if staged_edit p \<noteq> None \<and> p_origin p \<noteq> None then
           if \<not> may_push_content (sy_opts s) then Some (refuse_delete p s)
           else do {
             (s, change) \<leftarrow> push_update p h base_revision s;
             Some (s, Some change)
           }
         else if \<not> may_push_remove (sy_opts s) then Some (refuse_delete p s)
         else
           Some (s\<lparr>sy_pending_drops := finsert h (sy_pending_drops s)\<rparr>,
                 Some (Remove h (map_option or_collection (p_origin p)) (p_link_id p) base_revision)))"

text \<open>Remote delete, it was in sync and vanished upstream.\<close>

definition vanished_edit :: "placement \<Rightarrow> bool" where
  "vanished_edit p \<longleftrightarrow>
     p_status p \<in> {Dirty, Conflict} \<and> p_object p \<noteq> None
     \<and> is_some_and (p_base p) (\<lambda>b. p_object p \<noteq> b_object b)"

definition resurrected :: "placement \<Rightarrow> placement" where
  "resurrected p = p\<lparr>p_status := Created, p_conflict_revision := None, p_conflict_object := None,
                      p_base := None, p_origin := None\<rparr>"

definition merge_vanished :: "handle \<Rightarrow> placement \<Rightarrow> sync \<Rightarrow> sync \<times> change_kind option" where
  "merge_vanished h p s =
     (if vanished_edit p then
        (let r = resurrected p;
             s = write_push (UpsertPlacement r) s
         in if \<not> may_push_add (sy_opts s) then (s, None)
            else (s\<lparr>sy_pending_creates := bt_insert h r (sy_pending_creates s)\<rparr>,
                  Some (Add h (p_link_id r) (p_flags r) None (p_object r))))
      else (emit (Vanished h) (count_pulled (sync_drop h Deleted s)), None))"

text \<open>Present on both: content, then flags on what the content axis left.\<close>

definition merge_present ::
  "placement \<Rightarrow> remote_item \<Rightarrow> sync \<Rightarrow> (sync \<times> change_kind option) option" where
  "merge_present p item s =
     do {
       (s, outcome) \<leftarrow> reconcile_content p item s;
       (case outcome of
          Push change \<Rightarrow> (let (s, _) = reconcile_flags p item Withhold s in Some (s, Some change))
        | Rewritten rewritten \<Rightarrow> Some (reconcile_flags rewritten item Derive s)
        | Untouched \<Rightarrow> Some (reconcile_flags p item Derive s))
     }"

text \<open>Local create, no base and not upstream.\<close>

definition merge_created :: "handle \<Rightarrow> placement \<Rightarrow> sync \<Rightarrow> sync \<times> change_kind option" where
  "merge_created h p s =
     (if may_push_add (sy_opts s) \<and> p_status p = Created then
        (s\<lparr>sy_pending_creates := bt_insert h p (sy_pending_creates s)\<rparr>,
         Some (Add h (p_link_id p) (p_flags p) (p_origin p) (p_object p)))
      else (s, None))"

definition merge :: "candidate \<Rightarrow> sync \<Rightarrow> (sync \<times> change_kind option) option" where
  "merge c s =
     (let h = ca_handle c;
          local = ca_local c;
          remote_item = ca_remote c;
          based = (case local of Some p \<Rightarrow> p_base p \<noteq> None | None \<Rightarrow> False);
          local_tombstone = (case local of Some p \<Rightarrow> p_status p = Tombstone | None \<Rightarrow> False);
          local_present = (local \<noteq> None \<and> \<not> local_tombstone);
          remote_present = (remote_item \<noteq> None)
      in if \<not> local_present \<and> based \<and> remote_present \<and> local_tombstone then
           do { p \<leftarrow> local; item \<leftarrow> remote_item; merge_deleted h p item s }
         else if \<not> local_present \<and> \<not> remote_present \<and> local_tombstone then
           Some (sync_drop h Deleted s, None)
         else if local_present \<and> based \<and> \<not> remote_present then
           do { p \<leftarrow> local; Some (merge_vanished h p s) }
         else if \<not> local_present \<and> \<not> based \<and> remote_present then
           do { item \<leftarrow> remote_item; Some (emit (Added h) (count_pulled (pull_add item s)), None) }
         else if local_present \<and> remote_present then
           do { p \<leftarrow> local; item \<leftarrow> remote_item; merge_present p item s }
         else if local_present \<and> \<not> based \<and> \<not> remote_present then
           do { p \<leftarrow> local; Some (merge_created h p s) }
         else Some (s, None))"

text \<open>The decision table of the merge, by what each side holds.\<close>

lemma merge_table:
  "merge c s =
     (case (ca_local c, ca_remote c) of
        (None, None) \<Rightarrow> Some (s, None)
      | (None, Some item) \<Rightarrow> Some (emit (Added (ca_handle c)) (count_pulled (pull_add item s)), None)
      | (Some p, None) \<Rightarrow>
          (if p_status p = Tombstone then Some (sync_drop (ca_handle c) Deleted s, None)
           else if p_base p \<noteq> None then Some (merge_vanished (ca_handle c) p s)
           else Some (merge_created (ca_handle c) p s))
      | (Some p, Some item) \<Rightarrow>
          (if p_status p = Tombstone
           then (if p_base p \<noteq> None then merge_deleted (ca_handle c) p item s
                 else Some (emit (Added (ca_handle c)) (count_pulled (pull_add item s)), None))
           else merge_present p item s))"
  by (simp add: merge_def Let_def split: option.split)

end
