(* ===== verification/Sync_Run.thy ===== *)
theory Sync_Run
  imports Sync_Merge
begin

text \<open>
  The SYNC coroutine (\<open>sync.rs\<close>): opening the merge over an enumeration, walking it in
  bounded write batches, pushing the derived changes in chunks, settling the outcomes and
  recording each chunk before the next. It ends with the proof that a run never panics and
  that every yield makes progress.
\<close>

section \<open>Frames\<close>

text \<open>The fields the merge of a candidate never touches.\<close>

definition same_frame :: "sync \<Rightarrow> sync \<Rightarrow> bool" where
  "same_frame s s' \<longleftrightarrow>
     sy_collection s' = sy_collection s \<and> sy_opts s' = sy_opts s \<and> sy_local s' = sy_local s
     \<and> sy_checkpoint s' = sy_checkpoint s \<and> sy_merging s' = sy_merging s
     \<and> sy_pushes s' = sy_pushes s \<and> sy_in_flight s' = sy_in_flight s
     \<and> sy_next_checkpoint s' = sy_next_checkpoint s \<and> sy_state s' = sy_state s"

lemmas pulling_defs =
  pull_add_def pull_content_def pull_flags_def rebase_def rebase_content_def rekey_create_def
  refuse_delete_def mark_conflict_def stage_conflict_dup_def push_update_def

lemma reconcile_flags_frame: "same_frame s (fst (reconcile_flags p item allow s))"
  by (auto simp: same_frame_def reconcile_flags_def Let_def recording pulling_defs
        split: option.splits)

lemma same_frame_trans: "same_frame s s' \<Longrightarrow> same_frame s' s'' \<Longrightarrow> same_frame s s''"
  by (simp add: same_frame_def)

lemma resolve_conflict_total:
  "p_object p \<noteq> None \<Longrightarrow> \<exists>s' out. resolve_conflict p item s = Some (s', out) \<and> same_frame s s'"
  by (auto simp: resolve_conflict_def same_frame_def recording pulling_defs Let_def
        split: conflict_policy.splits)

lemma reconcile_content_total:
  "\<exists>s' out. reconcile_content p item s = Some (s', out) \<and> same_frame s s'"
proof (cases "p_base p")
  case None
  then show ?thesis
    by (auto simp: reconcile_content_def same_frame_def recording pulling_defs Let_def)
next
  case (Some b)
  then show ?thesis
    using resolve_conflict_total[of p item s]
    by (auto simp: reconcile_content_def same_frame_def recording pulling_defs Let_def
          split del: if_split split: if_split)
qed

lemma merge_present_total:
  "\<exists>s' k. merge_present p item s = Some (s', k) \<and> same_frame s s'"
proof -
  obtain s1 out where 1: "reconcile_content p item s = Some (s1, out)" "same_frame s s1"
    using reconcile_content_total by blast
  have "same_frame s (fst (reconcile_flags q item allow s1))" for q allow
    using 1(2) reconcile_flags_frame same_frame_trans by blast
  with 1(1) show ?thesis
    by (cases out) (auto simp: merge_present_def case_prod_unfold intro: prod.collapse[symmetric])
qed

lemma merge_deleted_total:
  "\<exists>s' k. merge_deleted h p item s = Some (s', k) \<and> same_frame s s'"
  by (auto simp: merge_deleted_def Let_def same_frame_def recording pulling_defs staged_edit_Some_iff
        split: delete_policy.splits)

lemma merge_total: "\<exists>s' k. merge c s = Some (s', k) \<and> same_frame s s'"
proof -
  have frames: "same_frame s (fst (merge_vanished h p s))" "same_frame s (fst (merge_created h p s))" for h p
    by (auto simp: same_frame_def merge_vanished_def merge_created_def recording Let_def)
  moreover have "same_frame s (emit (Added h) (count_pulled (pull_add item s)))"
    "same_frame s (sync_drop h Deleted s)" "same_frame s s" for h item
    by (simp_all add: same_frame_def recording pull_add_def)
  ultimately show ?thesis
    using merge_present_total merge_deleted_total
    by (fastforce simp: merge_table split: option.split intro: prod.collapse[symmetric])
qed

section \<open>Batches and chunks\<close>

definition batch :: "sync \<Rightarrow> sync \<times> write_op list" where
  "batch s =
     (let b = sy_writes s; s = s\<lparr>sy_writes := []\<rparr>
      in if sy_pushes s = [] then
           (case sy_next_checkpoint s of
              Some ck \<Rightarrow> (s\<lparr>sy_next_checkpoint := None\<rparr>, b @ [SetCheckpoint (sy_collection s) ck])
            | None \<Rightarrow> (s, b))
         else (s, b))"

definition sync_step :: "sync \<Rightarrow> sync \<times> (yield, arg_error + sync_report) cstate" where
  "sync_step s =
     (if sy_pushes s = [] then
        (let (s, b) = batch (s\<lparr>sy_state := SyPendingWrite\<rparr>) in (s, Yielded (WantsWrite b)))
      else
        (let size = min (length (sy_pushes s)) PUSH_CHUNK;
             changes = take size (sy_pushes s);
             s = s\<lparr>sy_pushes := drop size (sy_pushes s), sy_in_flight := map change_handle changes,
                   sy_state := SyPendingPush\<rparr>
         in (s, Yielded (WantsPush (sy_collection s) changes))))"

section \<open>Opening and walking the merge\<close>

text \<open>\<open>dedup_by\<close> on handles: of a run of equal handles the first item stays.\<close>

fun dedup_handles :: "remote_item list \<Rightarrow> remote_item list" where
  "dedup_handles (i # j # is) =
     (if ri_handle i = ri_handle j then dedup_handles (i # is) else i # dedup_handles (j # is))"
| "dedup_handles is = is"

text \<open>The snapshot's items in handle order, each handle once.\<close>

definition snapshot_items :: "remote_item list \<Rightarrow> remote_item list" where
  "snapshot_items items =
     dedup_handles (if sorted (map ri_handle items) then items else List.sort_key ri_handle items)"

definition open_merge :: "remote_snapshot \<Rightarrow> sync \<Rightarrow> sync" where
  "open_merge snapshot s =
     s\<lparr>sy_local := [],
       sy_merging := Some
         \<lparr>mg_join = join_new (sy_local s) (snapshot_items (rs_items snapshot)),
          mg_vanished = fset_of_list (rs_vanished snapshot),
          mg_complete = rs_complete snapshot,
          mg_checkpoint = rs_checkpoint snapshot\<rparr>\<rparr>"

definition next_candidate :: "sync \<Rightarrow> candidate option \<times> sync" where
  "next_candidate s =
     (case sy_merging s of
        None \<Rightarrow> (None, s)
      | Some m \<Rightarrow> (let (c, m) = merging_next m in (c, s\<lparr>sy_merging := Some m\<rparr>)))"

text \<open>Merging one candidate and queueing the change it derived.\<close>

definition merge_candidate :: "candidate \<Rightarrow> sync \<Rightarrow> sync option" where
  "merge_candidate c s =
     do {
       (s, kind) \<leftarrow> merge c s;
       Some (case kind of
               Some k \<Rightarrow> s\<lparr>sy_pushes := sy_pushes s @ [change_new (sy_collection s) k]\<rparr>
             | None \<Rightarrow> s)
     }"

definition sync_work :: "sync \<Rightarrow> nat" where
  "sync_work s = (case sy_merging s of Some m \<Rightarrow> join_size (mg_join m) | None \<Rightarrow> 0)"

lemma merging_next_work:
  "merging_next m = (Some c, m') \<Longrightarrow> join_size (mg_join m') < join_size (mg_join m)"
proof (induction m rule: merging_next.induct)
  case (1 m)
  show ?case
  proof (cases "join_next (mg_join m)")
    case None
    with "1.prems" show ?thesis by (simp add: merging_next.simps[of m])
  next
    case (Some cj)
    then obtain c0 j where j: "join_next (mg_join m) = Some (c0, j)" by (cases cj) auto
    note less = join_next_size[OF j]
    show ?thesis
    proof (cases "mg_complete m \<or> narrow (m\<lparr>mg_join := j\<rparr>) c0 \<noteq> None")
      case True
      with "1.prems" j less show ?thesis
        by (auto simp: merging_next.simps[of m] Let_def split: if_splits)
    next
      case False
      with "1.prems" j have "merging_next (m\<lparr>mg_join := j\<rparr>) = (Some c, m')"
        by (auto simp: merging_next.simps[of m])
      with "1.IH"[OF j refl refl] False less show ?thesis by fastforce
    qed
  qed
qed

lemma next_candidate_work: "next_candidate s = (Some c, s') \<Longrightarrow> sync_work s' < sync_work s"
  by (auto simp: next_candidate_def sync_work_def dest: merging_next_work
        split: option.splits prod.splits)

lemma merge_candidate_total:
  obtains s' where "merge_candidate c s = Some s'" "sync_work s' = sync_work s"
    "sy_merging s' = sy_merging s" "sy_collection s' = sy_collection s" "sy_opts s' = sy_opts s"
    "length (sy_pushes s') \<le> length (sy_pushes s) + 1"
proof -
  obtain s1 k where "merge c s = Some (s1, k)" "same_frame s s1"
    using merge_total by blast
  with that show ?thesis
    by (cases k) (auto simp: merge_candidate_def same_frame_def sync_work_def)
qed

lemma merge_candidate_work: "merge_candidate c s = Some s' \<Longrightarrow> sync_work s' = sync_work s"
  by (metis merge_candidate_total option.inject)

function merge_step :: "sync \<Rightarrow> (sync, arg_error, sync_report) step" where
  "merge_step s =
     (case next_candidate s of
        (None, s) \<Rightarrow>
          (case sy_merging s of
             None \<Rightarrow> None
           | Some m \<Rightarrow>
               Some (sync_step (s\<lparr>sy_merging := None, sy_next_checkpoint := Some (mg_checkpoint m)\<rparr>)))
      | (Some c, s) \<Rightarrow>
          (case merge_candidate c s of
             None \<Rightarrow> None
           | Some s \<Rightarrow>
               if WRITE_CHUNK \<le> length (sy_writes s) then
                 (let (s, b) = batch (s\<lparr>sy_state := SyMerging\<rparr>) in Some (s, Yielded (WantsWrite b)))
               else merge_step s))"
  by pat_completeness auto
termination
  by (relation "measure sync_work") (auto dest!: merge_candidate_work next_candidate_work[OF sym])

declare merge_step.simps [simp del]

section \<open>Settling the outcomes\<close>

text \<open>Each settles one kind of push, reporting whether this run had derived it.\<close>

definition settle_flags :: "push_result \<Rightarrow> sync \<Rightarrow> sync \<times> bool" where
  "settle_flags r s =
     (case map_of (sy_pending_flag_pushes s) (pr_handle r) of
        Some p \<Rightarrow>
          (emit (FlagsChanged (pr_handle r))
             (rebase p (p_flags p)
               (s\<lparr>sy_pending_flag_pushes := bt_remove (pr_handle r) (sy_pending_flag_pushes s)\<rparr>)), True)
      | None \<Rightarrow> (s, False))"

definition settle_content :: "push_result \<Rightarrow> sync \<Rightarrow> sync \<times> bool" where
  "settle_content r s =
     (case map_of (sy_pending_content_pushes s) (pr_handle r) of
        Some p \<Rightarrow>
          (emit (ContentChanged (pr_handle r))
             (rebase_content p (pr_revision r)
               (s\<lparr>sy_pending_content_pushes := bt_remove (pr_handle r) (sy_pending_content_pushes s)\<rparr>)), True)
      | None \<Rightarrow> (s, False))"

definition settle_drop :: "push_result \<Rightarrow> sync \<Rightarrow> sync \<times> bool" where
  "settle_drop r s =
     (if pr_handle r |\<in>| sy_pending_drops s then
        (emit (Vanished (pr_handle r))
           (sync_drop (pr_handle r) Deleted
             (s\<lparr>sy_pending_drops := sy_pending_drops s |-| {|pr_handle r|}\<rparr>)), True)
      else (s, False))"

definition settle_create :: "push_result \<Rightarrow> sync \<Rightarrow> sync \<times> bool" where
  "settle_create r s =
     (case map_of (sy_pending_creates s) (pr_handle r) of
        Some placeholder \<Rightarrow>
          (let s = s\<lparr>sy_pending_creates := bt_remove (pr_handle r) (sy_pending_creates s)\<rparr>;
               created = (case pr_assigned r of Some h \<Rightarrow> h | None \<Rightarrow> pr_handle r)
           in (emit (EvCreated created)
                (case pr_assigned r of
                   Some assigned \<Rightarrow> rekey_create placeholder assigned (pr_revision r) s
                 | None \<Rightarrow> sync_drop (p_handle placeholder) Superseded s), True))
      | None \<Rightarrow> (s, False))"

definition settle_result :: "push_result \<Rightarrow> sync \<Rightarrow> sync" where
  "settle_result r s =
     (case pr_outcome r of
        Accepted \<Rightarrow>
          (let (s, m1) = settle_flags r s;
               (s, m2) = settle_content r s;
               (s, m3) = settle_drop r s;
               (s, m4) = settle_create r s
           in s\<lparr>sy_report := (sy_report s)
                \<lparr>sr_pushed := sr_pushed (sy_report s) + of_bool (m1 \<or> m2 \<or> m3 \<or> m4)\<rparr>\<rparr>)
      | Rejected \<Rightarrow>
          s\<lparr>sy_report := (sy_report s)\<lparr>sr_rejected := sr_rejected (sy_report s) + 1\<rparr>\<rparr>)"

definition forget_pending :: "handle \<Rightarrow> sync \<Rightarrow> sync" where
  "forget_pending h s =
     s\<lparr>sy_pending_flag_pushes := bt_remove h (sy_pending_flag_pushes s),
       sy_pending_content_pushes := bt_remove h (sy_pending_content_pushes s),
       sy_pending_drops := sy_pending_drops s |-| {|h|},
       sy_pending_creates := bt_remove h (sy_pending_creates s)\<rparr>"

definition settle_chunk :: "push_result list \<Rightarrow> sync \<Rightarrow> sync" where
  "settle_chunk results s =
     (let s = fold settle_result results s
      in fold forget_pending (sy_in_flight s) (s\<lparr>sy_in_flight := []\<rparr>))"

section \<open>The coroutine\<close>

definition sync_resume :: "sync \<Rightarrow> arg option \<Rightarrow> (sync, arg_error, sync_report) step" where
  "sync_resume s a =
     (case (sy_state s, a) of
        (SyStart, None) \<Rightarrow>
          Some (s\<lparr>sy_state := SyPendingLoad\<rparr>, Yielded (WantsLoad (sy_collection s) ScopeAll))
      | (SyPendingLoad, Some (ArgLoad ld)) \<Rightarrow>
          (let s = s\<lparr>sy_local := bt_collect (map (\<lambda>p. (p_handle p, p)) (ld_placements ld)),
                     sy_checkpoint := (if opt_full (sy_opts s) then None else ld_checkpoint ld),
                     sy_state := SyPendingEnumerate\<rparr>
           in Some (s, Yielded (WantsEnumerate (sy_collection s) (sy_checkpoint s))))
      | (SyPendingEnumerate, Some (ArgEnumerate snapshot)) \<Rightarrow> merge_step (open_merge snapshot s)
      | (SyMerging, Some ArgWrite) \<Rightarrow> merge_step s
      | (SyPendingPush, Some (ArgPush results)) \<Rightarrow>
          (let (s, b) = batch ((settle_chunk results s)\<lparr>sy_state := SyPendingWrite\<rparr>)
           in Some (s, Yielded (WantsWrite b)))
      | (SyPendingWrite, Some ArgWrite) \<Rightarrow>
          if sy_pushes s \<noteq> [] then Some (sync_step s)
          else Some (s\<lparr>sy_state := SyDone, sy_report := sync_report_default\<rparr>, Complete (Inr (sy_report s)))
      | (_, Some _) \<Rightarrow> Some (s, Complete (Inl UnexpectedArg))
      | (_, None) \<Rightarrow> Some (s, Complete (Inl MissingArg)))"

section \<open>A run never panics and always makes progress\<close>

text \<open>Settling a chunk leaves the changes still to push alone.\<close>

lemma settle_flags_pushes: "sy_pushes (fst (settle_flags r s)) = sy_pushes s"
  by (simp add: settle_flags_def recording pulling_defs split: option.split)

lemma settle_content_pushes: "sy_pushes (fst (settle_content r s)) = sy_pushes s"
  by (simp add: settle_content_def recording pulling_defs split: option.split)

lemma settle_drop_pushes: "sy_pushes (fst (settle_drop r s)) = sy_pushes s"
  by (simp add: settle_drop_def recording)

lemma settle_create_pushes: "sy_pushes (fst (settle_create r s)) = sy_pushes s"
  by (simp add: settle_create_def recording pulling_defs Let_def split: option.split)

lemma settle_result_pushes: "sy_pushes (settle_result r s) = sy_pushes s"
  by (simp add: settle_result_def Let_def case_prod_unfold settle_flags_pushes settle_content_pushes
        settle_drop_pushes settle_create_pushes split: push_outcome.split)

lemma settle_chunk_pushes [simp]: "sy_pushes (settle_chunk rs s) = sy_pushes s"
proof -
  have "sy_pushes (fold settle_result rs s) = sy_pushes s" for s
    by (induction rs arbitrary: s) (simp_all add: settle_result_pushes)
  moreover have "sy_pushes (fold forget_pending hs s) = sy_pushes s" for hs s
    by (induction hs arbitrary: s) (simp_all add: forget_pending_def)
  ultimately show ?thesis by (simp add: settle_chunk_def Let_def)
qed

definition sync_inv :: "sync \<Rightarrow> bool" where
  "sync_inv s \<longleftrightarrow> (sy_state s = SyMerging \<longrightarrow> sy_merging s \<noteq> None)"

definition sync_ready :: "sync \<Rightarrow> arg option \<Rightarrow> bool" where
  "sync_ready s a \<longleftrightarrow>
     (case (sy_state s, a) of
        (SyStart, None) \<Rightarrow> True
      | (SyPendingLoad, Some (ArgLoad _)) \<Rightarrow> True
      | (SyPendingEnumerate, Some (ArgEnumerate _)) \<Rightarrow> True
      | (SyMerging, Some ArgWrite) \<Rightarrow> True
      | (SyPendingPush, Some (ArgPush _)) \<Rightarrow> True
      | (SyPendingWrite, Some ArgWrite) \<Rightarrow> True
      | _ \<Rightarrow> False)"

text \<open>A yield that any matching reply continues.\<close>

definition awaits :: "sync \<Rightarrow> yield \<Rightarrow> bool" where
  "awaits s y \<longleftrightarrow> (\<forall>b. answers y b \<longrightarrow> sync_ready s (Some b))"

lemma awaits_write [simp]:
  "awaits s (WantsWrite ops) \<longleftrightarrow> sy_state s = SyMerging \<or> sy_state s = SyPendingWrite"
  unfolding awaits_def all_answers by (cases "sy_state s") (simp_all add: sync_ready_def)

lemma awaits_push [simp]: "awaits s (WantsPush c cs) \<longleftrightarrow> sy_state s = SyPendingPush"
  unfolding awaits_def all_answers by (cases "sy_state s") (simp_all add: sync_ready_def)

lemma awaits_load [simp]: "awaits s (WantsLoad c sc) \<longleftrightarrow> sy_state s = SyPendingLoad"
  unfolding awaits_def all_answers by (cases "sy_state s") (simp_all add: sync_ready_def)

lemma awaits_enumerate [simp]: "awaits s (WantsEnumerate c ck) \<longleftrightarrow> sy_state s = SyPendingEnumerate"
  unfolding awaits_def all_answers by (cases "sy_state s") (simp_all add: sync_ready_def)

definition sync_finished :: "sync \<Rightarrow> bool" where
  "sync_finished s \<longleftrightarrow> sy_state s = SyDone"

text \<open>
  The work left: every candidate may become one push, and every chunk takes two yields.
\<close>

definition sync_rank :: "sync \<Rightarrow> nat \<times> nat" where
  "sync_rank s =
     (case sy_state s of
        SyStart \<Rightarrow> (4, 0)
      | SyPendingLoad \<Rightarrow> (3, 0)
      | SyPendingEnumerate \<Rightarrow> (2, 0)
      | SyMerging \<Rightarrow> (1, 3 * sync_work s + 2 * length (sy_pushes s) + 1)
      | SyPendingPush \<Rightarrow> (1, 2 * length (sy_pushes s) + 1)
      | SyPendingWrite \<Rightarrow> (1, 2 * length (sy_pushes s))
      | SyDone \<Rightarrow> (0, 0))"

lemma batch_frame [simp]:
  "sy_state (fst (batch s)) = sy_state s" "sy_merging (fst (batch s)) = sy_merging s"
  "sy_pushes (fst (batch s)) = sy_pushes s" "sync_work (fst (batch s)) = sync_work s"
  "sy_collection (fst (batch s)) = sy_collection s" "sy_opts (fst (batch s)) = sy_opts s"
  by (auto simp: batch_def sync_work_def Let_def split: option.split)

lemma PUSH_CHUNK_pos [simp]: "0 < PUSH_CHUNK"
  by (simp add: PUSH_CHUNK_def)

text \<open>Everything a chunked step leaves for later is smaller than what it had.\<close>

lemma sync_step_ok:
  "\<exists>s' y n. sync_step s = (s', Yielded y) \<and> sync_inv s' \<and> awaits s' y \<and> sync_rank s' = (1, n)
     \<and> n \<le> 2 * length (sy_pushes s) \<and> (sy_pushes s \<noteq> [] \<longrightarrow> n < 2 * length (sy_pushes s))"
proof (cases "sy_pushes s = []")
  case True
  then show ?thesis
    by (simp add: sync_step_def sync_inv_def sync_rank_def case_prod_unfold Let_def)
next
  case False
  then have "0 < length (sy_pushes s)" by simp
  then have "Suc (2 * (length (sy_pushes s) - min (length (sy_pushes s)) PUSH_CHUNK)) < 2 * length (sy_pushes s)"
    using PUSH_CHUNK_pos by linarith
  with False show ?thesis
    by (simp add: sync_step_def sync_inv_def sync_rank_def Let_def)
qed

lemma merge_step_ok:
  "sy_merging s \<noteq> None \<Longrightarrow>
     \<exists>s' y n. merge_step s = Some (s', Yielded y) \<and> sync_inv s' \<and> awaits s' y \<and> sync_rank s' = (1, n)
        \<and> n < 3 * sync_work s + 2 * length (sy_pushes s) + 1"
proof (induction s rule: merge_step.induct)
  case (1 s)
  obtain m where m: "sy_merging s = Some m" using "1.prems" by auto
  obtain c m' where next_m: "merging_next m = (c, m')" by fastforce
  define s1 where "s1 = s\<lparr>sy_merging := Some m'\<rparr>"
  have next_s: "next_candidate s = (c, s1)"
    using m next_m by (simp add: next_candidate_def s1_def)
  show ?case
  proof (cases c)
    case None
    have "merge_step s = Some (sync_step (s1\<lparr>sy_merging := None, sy_next_checkpoint := Some (mg_checkpoint m')\<rparr>))"
      using next_s None by (simp add: merge_step.simps[of s] s1_def)
    then show ?thesis
      using sync_step_ok[of "s1\<lparr>sy_merging := None, sy_next_checkpoint := Some (mg_checkpoint m')\<rparr>"]
      by (fastforce simp: s1_def)
  next
    case (Some c0)
    have less: "sync_work s1 < sync_work s" using next_candidate_work next_s Some by blast
    obtain s2 where s2: "merge_candidate c0 s1 = Some s2" "sync_work s2 = sync_work s1"
      "sy_merging s2 = sy_merging s1" "length (sy_pushes s2) \<le> length (sy_pushes s1) + 1"
      using merge_candidate_total[of c0 s1] by metis
    have merging: "sy_merging s2 \<noteq> None" using s2(3) by (simp add: s1_def)
    have pushes: "sy_pushes s1 = sy_pushes s" by (simp add: s1_def)
    show ?thesis
    proof (cases "WRITE_CHUNK \<le> length (sy_writes s2)")
      case True
      with next_s Some s2(1)
      have "merge_step s = (let (s, b) = batch (s2\<lparr>sy_state := SyMerging\<rparr>) in Some (s, Yielded (WantsWrite b)))"
        by (simp add: merge_step.simps[of s])
      then show ?thesis
        using merging less s2(2,4) pushes
        by (auto simp: case_prod_unfold Let_def sync_inv_def sync_rank_def sync_work_def)
    next
      case False
      with next_s Some s2(1) have "merge_step s = merge_step s2"
        by (simp add: merge_step.simps[of s])
      with "1.IH"[OF next_s[symmetric] Some s2(1) False merging] less s2(2,4) pushes
      show ?thesis by fastforce
    qed
  qed
qed

interpretation syn: verb sync_resume sync_inv sync_rank sync_finished "\<lambda>e. e"
proof (rule verbI)
  show "sync_finished s \<Longrightarrow> sync_resume s a = Some (s, Complete (Inl (bad_arg a)))" for s a
    by (cases a) (auto simp: sync_finished_def sync_resume_def split: arg.splits)
next
  fix s a
  assume inv: "sync_inv s"
  have merge_ok: "step_ok sync_inv sync_rank sync_finished s (merge_step s')"
    if "sy_merging s' \<noteq> None"
      "sync_rank s = (2, 0) \<or> sync_rank s = (1, 3 * sync_work s' + 2 * length (sy_pushes s') + 1)"
    for s'
    using merge_step_ok[OF that(1)] that(2) by auto
  show "step_ok sync_inv sync_rank sync_finished s (sync_resume s a)"
  proof (cases "sy_state s")
    case SyPendingEnumerate
    then show ?thesis
      using inv merge_ok[of "open_merge _ s"]
      by (auto simp: sync_resume_def sync_rank_def open_merge_def split: option.splits arg.splits)
  next
    case SyMerging
    then show ?thesis
      using inv merge_ok[of s]
      by (auto simp: sync_resume_def sync_rank_def sync_inv_def split: option.splits arg.splits)
  next
    case SyPendingPush
    then show ?thesis
      using inv
      by (auto simp: sync_resume_def sync_rank_def sync_inv_def case_prod_unfold Let_def
            split: option.splits arg.splits)
  next
    case SyPendingWrite
    then show ?thesis
      using inv sync_step_ok[of s]
      by (auto simp: sync_resume_def sync_rank_def sync_inv_def sync_finished_def
            split: option.splits arg.splits)
  qed (use inv in \<open>auto simp: sync_resume_def sync_rank_def sync_inv_def Let_def
         split: option.splits arg.splits\<close>)
qed

lemma merge_step_awaits:
  "sy_merging s \<noteq> None \<Longrightarrow> merge_step s = Some (s', r) \<Longrightarrow> \<exists>y. r = Yielded y \<and> awaits s' y"
  using merge_step_ok[of s] by auto

lemma sync_step_awaits: "sync_step s = (s', r) \<Longrightarrow> \<exists>y. r = Yielded y \<and> awaits s' y"
  using sync_step_ok[of s] by auto

lemma open_merge_merging [simp]: "sy_merging (open_merge sn s) \<noteq> None"
  by (simp add: open_merge_def)

interpretation syn_driven:
  driven_verb sync_resume sync_inv sync_rank sync_finished "\<lambda>e. e" sync_ready
proof unfold_locales
  fix s a s' y b
  assume inv: "sync_inv s" and yields: "sync_resume s a = Some (s', Yielded y)" and "answers y b"
  have "awaits s' y"
  proof (cases "sy_state s")
    case SyPendingEnumerate
    with yields show ?thesis
      by (auto simp: sync_resume_def dest!: merge_step_awaits[OF open_merge_merging]
            split: option.splits arg.splits)
  next
    case SyMerging
    with inv have "sy_merging s \<noteq> None" by (simp add: sync_inv_def)
    with SyMerging yields show ?thesis
      by (auto simp: sync_resume_def dest!: merge_step_awaits[rotated] split: option.splits arg.splits)
  next
    case SyPendingWrite
    with yields show ?thesis
      by (auto simp: sync_resume_def dest!: sync_step_awaits split: option.splits arg.splits if_splits)
  qed (use yields in \<open>auto simp: sync_resume_def Let_def case_prod_unfold split: option.splits arg.splits\<close>)
  with \<open>answers y b\<close> show "sync_ready s' (Some b)" by (simp add: awaits_def)
next
  fix s a s' e
  assume inv: "sync_inv s" and ready: "sync_ready s a"
  have "sy_state s = SyMerging \<Longrightarrow> sy_merging s \<noteq> None" using inv by (simp add: sync_inv_def)
  with ready show "sync_resume s a \<noteq> Some (s', Complete (Inl e))"
    using merge_step_awaits[of s s' "Complete (Inl e)"] sync_step_awaits[of s s' "Complete (Inl e)"]
    by (cases "sy_state s")
      (auto dest: merge_step_awaits[OF open_merge_merging] simp: sync_resume_def sync_ready_def Let_def case_prod_unfold split: option.splits arg.splits)
qed

end
