(* ===== verification/Mutate.thy ===== *)
theory Mutate
  imports Coroutine
begin

text \<open>
  The MUTATE verb (\<open>mutate.rs\<close>): one local edit applied offline. It loads the placement the
  mutation reads (for an add, the rows holding its link id), stages the writes and completes.
\<close>

section \<open>Mutations\<close>

datatype mutation =
    MSetFlags handle flags
  | MRemove handle
  | MEdit handle object "u8 list" "meta option" "sort_key option"
  | MCopy handle collection_id handle
  | MMove handle collection_id handle
  | MAdd handle link_id flags object "u8 list" "meta option" sort_key

fun mutation_handle :: "mutation \<Rightarrow> handle option" where
  "mutation_handle (MSetFlags h _) = Some h"
| "mutation_handle (MRemove h) = Some h"
| "mutation_handle (MEdit h _ _ _ _) = Some h"
| "mutation_handle (MCopy h _ _) = Some h"
| "mutation_handle (MMove h _ _) = Some h"
| "mutation_handle (MAdd _ _ _ _ _ _ _) = None"

definition mutation_scope :: "mutation \<Rightarrow> load_scope" where
  "mutation_scope m =
     (case m of
        MAdd _ link _ _ _ _ _ \<Rightarrow> ScopeLinks [link]
      | other \<Rightarrow>
          (case mutation_handle other of
             Some h \<Rightarrow> ScopeHandles [h]
           | None \<Rightarrow> ScopeAll))"

datatype mutate_error = UnknownHandle string | LinkExists string | MutateArg arg_error

datatype mutate_state = MuStart | MuPendingLoad | MuPendingWrite | MuDone

record mutate =
  mu_collection :: collection_id
  mu_mutation :: mutation
  mu_state :: mutate_state

definition mutate_new :: "collection_id \<Rightarrow> mutation \<Rightarrow> mutate" where
  "mutate_new coll m = \<lparr>mu_collection = coll, mu_mutation = m, mu_state = MuStart\<rparr>"

section \<open>Staging the writes\<close>

definition staged_copy :: "placement \<Rightarrow> collection_id \<Rightarrow> handle \<Rightarrow> placement" where
  "staged_copy source target placeholder =
     \<lparr>p_collection = target, p_handle = placeholder, p_link_id = p_link_id source,
      p_object = p_object source, p_level = p_level source, p_meta = p_meta source,
      p_sort_key = p_sort_key source, p_flags = p_flags source, p_status = Created,
      p_conflict_revision = None, p_conflict_object = None, p_base = None,
      p_origin = Some \<lparr>or_collection = p_collection source, or_handle = p_handle source\<rparr>\<rparr>"

text \<open>Settling a conflict: the base becomes the remote state the edit was merged against.\<close>

definition adopt_resolution :: "placement \<Rightarrow> placement" where
  "adopt_resolution source =
     (let base = (case p_base source of
                    Some b \<Rightarrow> b
                  | None \<Rightarrow> \<lparr>b_flags = p_flags source, b_revision = None, b_object = None\<rparr>)
      in source\<lparr>p_conflict_revision := None, p_conflict_object := None,
                p_base := Some (base\<lparr>b_revision := p_conflict_revision source,
                                     b_object := p_conflict_object source\<rparr>)\<rparr>)"

definition edit_placement ::
  "placement \<Rightarrow> object \<Rightarrow> meta option \<Rightarrow> sort_key option \<Rightarrow> placement" where
  "edit_placement source obj meta skey =
     (let source = source\<lparr>p_object := Some (o_hash obj), p_level := LvFull\<rparr>;
          source = (if meta \<noteq> None then source\<lparr>p_meta := meta\<rparr> else source);
          source = (case skey of Some k \<Rightarrow> source\<lparr>p_sort_key := k\<rparr> | None \<Rightarrow> source);
          resolving = (p_status source = Conflict);
          source = (if resolving then adopt_resolution source else source);
          staged = is_none_or (p_base source) (\<lambda>b. b_object b \<noteq> Some (o_hash obj))
      in if p_status source \<noteq> Created \<and> (staged \<or> resolving)
         then source\<lparr>p_status := Dirty\<rparr> else source)"

definition create_writes :: "mutate \<Rightarrow> write_op list" where
  "create_writes self =
     (case mu_mutation self of
        MAdd h link fl obj body meta skey \<Rightarrow>
          (let create =
             \<lparr>p_collection = mu_collection self, p_handle = h, p_link_id = Some link,
              p_object = Some (o_hash obj), p_level = LvFull, p_meta = meta,
              p_sort_key = skey, p_flags = fl, p_status = Created,
              p_conflict_revision = None, p_conflict_object = None, p_base = None,
              p_origin = None\<rparr>
           in [StoreObject obj (Some body), UpsertPlacement create])
      | _ \<Rightarrow> [])"

definition mutate_writes :: "mutate \<Rightarrow> placement \<Rightarrow> write_op list" where
  "mutate_writes self source =
     (case mu_mutation self of
        MSetFlags _ fl \<Rightarrow>
          (let source = source\<lparr>p_flags := fl\<rparr>;
               source = (if p_status source = Clean then source\<lparr>p_status := Dirty\<rparr> else source)
           in [UpsertPlacement source])
      | MRemove _ \<Rightarrow> [UpsertPlacement (source\<lparr>p_status := Tombstone\<rparr>)]
      | MEdit _ obj body meta skey \<Rightarrow>
          [StoreObject obj (Some body), UpsertPlacement (edit_placement source obj meta skey)]
      | MCopy _ target placeholder \<Rightarrow> [UpsertPlacement (staged_copy source target placeholder)]
      | MMove _ target placeholder \<Rightarrow>
          (let create = (if p_link_id source \<noteq> None
                         then [UpsertPlacement (staged_copy source target placeholder)] else []);
               source = source\<lparr>p_status := Tombstone,
                               p_origin := Some \<lparr>or_collection = target, or_handle = p_handle source\<rparr>\<rparr>
           in create @ [UpsertPlacement source])
      | MAdd _ _ _ _ _ _ _ \<Rightarrow> create_writes self)"

section \<open>The coroutine\<close>

definition mutate_resume :: "mutate \<Rightarrow> arg option \<Rightarrow> (mutate, mutate_error, unit) step" where
  "mutate_resume self a =
     (case (mu_state self, a) of
        (MuStart, None) \<Rightarrow>
          Some (self\<lparr>mu_state := MuPendingLoad\<rparr>,
                Yielded (WantsLoad (mu_collection self) (mutation_scope (mu_mutation self))))
      | (MuPendingLoad, Some (ArgLoad loaded)) \<Rightarrow>
          (case mu_mutation self of
             MAdd _ link _ _ _ _ _ \<Rightarrow>
               if list_ex (\<lambda>p. p_status p \<noteq> Tombstone \<and> p_link_id p = Some link) (ld_placements loaded)
               then Some (self, Complete (Inl (LinkExists (link_str link))))
               else Some (self\<lparr>mu_state := MuPendingWrite\<rparr>,
                          Yielded (WantsWrite (create_writes self)))
           | m \<Rightarrow>
               do {
                 h \<leftarrow> mutation_handle m;
                 (case List.find (\<lambda>p. p_handle p = h) (ld_placements loaded) of
                    None \<Rightarrow> Some (self, Complete (Inl (UnknownHandle (handle_str h))))
                  | Some p \<Rightarrow> Some (self\<lparr>mu_state := MuPendingWrite\<rparr>,
                                    Yielded (WantsWrite (mutate_writes self p))))
               })
      | (MuPendingWrite, Some ArgWrite) \<Rightarrow> Some (self\<lparr>mu_state := MuDone\<rparr>, Complete (Inr ()))
      | (_, Some _) \<Rightarrow> Some (self, Complete (Inl (MutateArg UnexpectedArg)))
      | (_, None) \<Rightarrow> Some (self, Complete (Inl (MutateArg MissingArg))))"

definition mutate_finished :: "mutate \<Rightarrow> bool" where
  "mutate_finished self \<longleftrightarrow> mu_state self = MuDone"

definition mutate_rank :: "mutate \<Rightarrow> nat \<times> nat" where
  "mutate_rank self =
     (case mu_state self of MuStart \<Rightarrow> 3 | MuPendingLoad \<Rightarrow> 2 | MuPendingWrite \<Rightarrow> 1 | MuDone \<Rightarrow> 0, 0)"

lemmas mutate_splits =
  mutate_state.splits option.splits arg.splits mutation.splits if_splits

interpretation mut: verb mutate_resume "\<lambda>_. True" mutate_rank mutate_finished MutateArg
proof (rule verbI)
  show "step_ok (\<lambda>_. True) mutate_rank mutate_finished c (mutate_resume c a)" for c a
    by (auto simp: mutate_resume_def mutate_rank_def mutate_finished_def split: mutate_splits)
  show "mutate_finished c \<Longrightarrow> mutate_resume c a = Some (c, Complete (Inl (MutateArg (bad_arg a))))" for c a
    by (cases a) (auto simp: mutate_resume_def mutate_finished_def)
qed

text \<open>The arguments its states accept; it only ever asks the storage.\<close>

definition mutate_ready :: "mutate \<Rightarrow> arg option \<Rightarrow> bool" where
  "mutate_ready self a \<longleftrightarrow>
     (case (mu_state self, a) of
        (MuStart, None) \<Rightarrow> True
      | (MuPendingLoad, Some (ArgLoad _)) \<Rightarrow> True
      | (MuPendingWrite, Some ArgWrite) \<Rightarrow> True
      | _ \<Rightarrow> False)"

interpretation mut_driven:
  offline_verb mutate_resume "\<lambda>_. True" mutate_rank mutate_finished MutateArg mutate_ready
  by unfold_locales
    (auto simp: mutate_resume_def mutate_ready_def elim!: answers.elims split: mutate_splits)

section \<open>What an edit stages\<close>

lemma edit_placement_fields [simp]:
  "p_object (edit_placement p obj meta skey) = Some (o_hash obj)"
  "p_level (edit_placement p obj meta skey) = LvFull"
  "p_handle (edit_placement p obj meta skey) = p_handle p"
  "p_collection (edit_placement p obj meta skey) = p_collection p"
  "p_link_id (edit_placement p obj meta skey) = p_link_id p"
  "p_flags (edit_placement p obj meta skey) = p_flags p"
  "p_origin (edit_placement p obj meta skey) = p_origin p"
  by (auto simp: edit_placement_def adopt_resolution_def Let_def split: option.split)

lemma edit_placement_plain:
  assumes "p_status p \<noteq> Conflict"
  shows "p_base (edit_placement p obj meta skey) = p_base p"
    "p_status (edit_placement p obj meta skey)
       = (if p_status p \<noteq> Created \<and> is_none_or (p_base p) (\<lambda>b. b_object b \<noteq> Some (o_hash obj))
          then Dirty else p_status p)"
    "p_conflict_revision (edit_placement p obj meta skey) = p_conflict_revision p"
    "p_conflict_object (edit_placement p obj meta skey) = p_conflict_object p"
  using assms by (auto simp: edit_placement_def Let_def split: option.split)

lemma edit_placement_resolving:
  assumes "p_status p = Conflict"
  shows "p_status (edit_placement p obj meta skey) = Dirty"
    "p_base (edit_placement p obj meta skey)
       = Some \<lparr>b_flags = (case p_base p of Some b \<Rightarrow> b_flags b | None \<Rightarrow> p_flags p),
               b_revision = p_conflict_revision p, b_object = p_conflict_object p\<rparr>"
    "p_conflict_revision (edit_placement p obj meta skey) = None"
    "p_conflict_object (edit_placement p obj meta skey) = None"
  using assms by (auto simp: edit_placement_def adopt_resolution_def Let_def split: option.split)

text \<open>
  An edit stages its body and settles a conflict. Whatever the placement was, the edit
  leaves its body hydrated and stored, its identity and flags alone, and no conflict
  pending. Outside a conflict the base is untouched, so the next sync still sees what was
  last synced; a pending create stays one; an edit that restores the synced body does not
  dirty the placement. On a conflict the base becomes the remote state the resolution was
  merged against (its revision and its body), and the placement is dirty.
\<close>

theorem mutate_edit_stages:
  "p_object (edit_placement p obj meta skey) = Some (o_hash obj)
   \<and> p_level (edit_placement p obj meta skey) = LvFull
   \<and> p_status (edit_placement p obj meta skey) \<noteq> Conflict
   \<and> (if p_status p = Conflict then
        p_status (edit_placement p obj meta skey) = Dirty
        \<and> Option.bind (p_base (edit_placement p obj meta skey)) b_revision = p_conflict_revision p
        \<and> Option.bind (p_base (edit_placement p obj meta skey)) b_object = p_conflict_object p
        \<and> p_conflict_revision (edit_placement p obj meta skey) = None
      else
        p_base (edit_placement p obj meta skey) = p_base p
        \<and> (if p_status p = Created then p_status (edit_placement p obj meta skey) = Created
           else if Option.bind (p_base p) b_object = Some (o_hash obj)
           then p_status (edit_placement p obj meta skey) = p_status p
           else p_status (edit_placement p obj meta skey) = Dirty))"
  by (cases "p_base p") (simp_all add: edit_placement_plain edit_placement_resolving)

section \<open>What a run writes\<close>

lemma staged_copy_ok: "placement_ok p \<Longrightarrow> placement_ok (staged_copy p target h)"
  by (simp add: placement_ok_def staged_copy_def)

lemma edit_placement_ok: "placement_ok p \<Longrightarrow> placement_ok (edit_placement p obj meta skey)"
  by (cases "p_status p = Conflict")
    (auto simp: placement_ok_def edit_placement_plain edit_placement_resolving split: if_splits)

lemma create_writes_ok: "op \<in> set (create_writes self) \<Longrightarrow> op_ok op"
  by (auto simp: create_writes_def placement_ok_def Let_def split: mutation.splits)

lemma mutate_writes_ok: "placement_ok p \<Longrightarrow> op \<in> set (mutate_writes self p) \<Longrightarrow> op_ok op"
  by (auto simp: mutate_writes_def staged_copy_ok edit_placement_ok create_writes_ok Let_def
        split: mutation.splits if_splits)
    (simp_all add: placement_ok_def)

text \<open>
  What a mutation may write. From a storage whose placements keep the placement
  invariant (a full item holds a body, a pending create has no base), every batch a mutation
  asks to write keeps it, records no checkpoint and drops no row, and upserts the placement
  the mutation targets with its base as it was unless it resolves a conflict: what was last
  synced is what the next sync compares against.
\<close>

theorem mutate_writes_keep_base:
  assumes "\<forall>p \<in> set (ld_placements ld). placement_ok p"
    and "mutate_resume self (Some (ArgLoad ld)) = Some (self', Yielded (WantsWrite ops))"
  shows "\<forall>op \<in> set ops. op_ok op
      \<and> (case op of
           UpsertPlacement q \<Rightarrow>
             p_status q = Created \<and> p_base q = None
             \<or> (\<exists>p \<in> set (ld_placements ld). p_handle q = p_handle p \<and> p_collection q = p_collection p
                  \<and> (p_status p = Conflict \<and> p_status q = Dirty \<or> p_base q = p_base p))
         | StoreObject obj b \<Rightarrow> b \<noteq> None
         | _ \<Rightarrow> False)"
proof (cases "mutation_handle (mu_mutation self)")
  case None
  with assms(2) show ?thesis
    by (auto simp: mutate_resume_def create_writes_def placement_ok_def Let_def split: mutate_splits)
next
  case (Some h)
  from assms(2) Some obtain p where
    find: "List.find (\<lambda>p. p_handle p = h) (ld_placements ld) = Some p"
    and ops: "ops = mutate_writes self p"
    by (auto simp: mutate_resume_def split: mutate_splits)
  have p: "p \<in> set (ld_placements ld)" "p_handle p = h"
    using find by (auto simp: find_Some_iff)
  have ok: "op_ok op" if "op \<in> set ops" for op
    using mutate_writes_ok assms(1) p(1) ops that by blast
  have "case op of
           UpsertPlacement q \<Rightarrow>
             p_status q = Created \<and> p_base q = None
             \<or> p_handle q = p_handle p \<and> p_collection q = p_collection p
                  \<and> (p_status p = Conflict \<and> p_status q = Dirty \<or> p_base q = p_base p)
         | StoreObject obj b \<Rightarrow> b \<noteq> None
         | _ \<Rightarrow> False" if "op \<in> set ops" for op
    using that Some unfolding ops
    by (cases "p_status p = Conflict")
      (auto simp: mutate_writes_def staged_copy_def edit_placement_plain edit_placement_resolving Let_def
        split: mutation.splits if_splits)
  with ok p(1) show ?thesis
    by (fastforce split: write_op.splits)
qed

theorem mutate_writes_keep_base_witness:
  "op_ok (UpsertPlacement ((sample_placement ''1'')\<lparr>p_status := Tombstone\<rparr>))"
proof -
  let ?ld = "\<lparr>ld_placements = [sample_placement ''1''], ld_checkpoint = None\<rparr>"
  let ?m = "mutate_new (CollectionId ''inbox'') (MRemove (Handle ''1''))"
  have "\<forall>p \<in> set (ld_placements ?ld). placement_ok p"
    by (simp add: placement_ok_def sample_defs)
  moreover have "mutate_resume (?m\<lparr>mu_state := MuPendingLoad\<rparr>) (Some (ArgLoad ?ld))
      = Some (?m\<lparr>mu_state := MuPendingWrite\<rparr>,
          Yielded (WantsWrite [UpsertPlacement ((sample_placement ''1'')\<lparr>p_status := Tombstone\<rparr>)]))"
    by (simp add: mutate_resume_def mutate_new_def mutate_writes_def sample_defs)
  ultimately show ?thesis
    using mutate_writes_keep_base by fastforce
qed

text \<open>
  Adding an item refuses a link id the collection already holds. A run that finds a live
  holder of the link id ends with that error and writes nothing; one that finds none, or
  only tombstones of it, stages the body and one pending create under that link id.
\<close>

theorem mutate_add_refuses_held_link:
  "feed mutate_resume (mutate_new coll (MAdd h link fl obj body meta skey)) [None, Some (ArgLoad ld)] =
     (if \<exists>p. p \<in> set (ld_placements ld) \<and> p_link_id p = Some link \<and> p_status p \<noteq> Tombstone
      then Some (Some (Inl (LinkExists (link_str link)))) else Some None)
   \<and> ((\<exists>self. mutate_resume ((mutate_new coll (MAdd h link fl obj body meta skey))\<lparr>mu_state := MuPendingLoad\<rparr>)
           (Some (ArgLoad ld))
         = Some (self, Yielded (WantsWrite
             [StoreObject obj (Some body),
              UpsertPlacement
                \<lparr>p_collection = coll, p_handle = h, p_link_id = Some link, p_object = Some (o_hash obj),
                 p_level = LvFull, p_meta = meta, p_sort_key = skey, p_flags = fl, p_status = Created,
                 p_conflict_revision = None, p_conflict_object = None, p_base = None, p_origin = None\<rparr>])))
      = (\<not> (\<exists>p. p \<in> set (ld_placements ld) \<and> p_link_id p = Some link \<and> p_status p \<noteq> Tombstone)))"
  by (auto simp: mutate_resume_def mutate_new_def create_writes_def list_ex_iff)

end
