(* ===== verification/Sync_Cases.thy ===== *)
theory Sync_Cases
  imports Sync_Run Mutate
begin

text \<open>
  What the three-way merge decides of one candidate, case by case: items in agreement,
  flags changed on both sides, diverged bodies, deletes against edits, refused deletes, and
  how the outcome of a push is settled.
\<close>

section \<open>Items in agreement\<close>

text \<open>
  An item in agreement costs nothing. When the remote lists a clean item with the flags
  and the revision last synced, the merge writes nothing, counts nothing and derives no
  change; and a delta that leaves such an item out, without listing it as vanished, does not
  even make it a candidate.
\<close>

theorem merge_agreement_is_idle:
  assumes "p_status p = Clean" "p_base p = Some b" "p_flags p = b_flags b"
    "ri_flags item = b_flags b" "ri_revision item = None \<or> ri_revision item = b_revision b"
  shows "merge \<lparr>ca_handle = h, ca_local = Some p, ca_remote = Some item\<rparr> s = Some (s, None)
    \<and> (h |\<notin>| mg_vanished m \<longrightarrow> narrow m \<lparr>ca_handle = h, ca_local = Some p, ca_remote = None\<rparr> = None)"
  using assms
  by (auto simp: merge_table merge_present_def reconcile_content_def reconcile_flags_def narrow_def Let_def)

theorem merge_agreement_is_idle_witness:
  "merge \<lparr>ca_handle = Handle ''1'', ca_local = Some (sample_placement ''1''),
      ca_remote = Some \<lparr>ri_handle = Handle ''1'', ri_flags = flags_default, ri_revision = Some ''1''\<rparr>\<rparr>
     (sync_new (CollectionId ''c'') sync_options_default)
   = Some (sync_new (CollectionId ''c'') sync_options_default, None)"
proof -
  have "p_status (sample_placement ''1'') = Clean" "p_base (sample_placement ''1'') = Some sample_base"
    "p_flags (sample_placement ''1'') = b_flags sample_base"
    by (simp_all add: sample_placement_def sample_base_def)
  from merge_agreement_is_idle[OF this, of "\<lparr>ri_handle = Handle ''1'', ri_flags = flags_default, ri_revision = Some ''1''\<rparr>"]
  show ?thesis by (simp add: sample_base_def)
qed

section \<open>Flags\<close>

text \<open>The flag axis of an item whose content neither side changed.\<close>

definition flags_only :: "placement \<Rightarrow> base \<Rightarrow> remote_item \<Rightarrow> bool" where
  "flags_only p b item \<longleftrightarrow>
     p_base p = Some b \<and> p_status p \<in> {Clean, Dirty} \<and> (p_object p = None \<or> p_object p = b_object b)
     \<and> (ri_revision item = None \<or> ri_revision item = b_revision b)"

text \<open>
  C16: flags converge on the element-wise merge. When only flags moved since the last sync,
  the merge of one candidate leaves the merged set in the one batch it writes, if it differs
  from the local one; pushes exactly that set if the remote has another one and pushing
  flags is allowed; and moves the base to it only when the remote already agrees, so that a
  refused or lost push is derived again by the next sync.
\<close>

theorem merge_flags_converge:
  assumes "flags_only p b item"
  defines "merged \<equiv> flags_merge (b_flags b) (p_flags p) (ri_flags item)"
  shows "\<exists>s' k. merge \<lparr>ca_handle = p_handle p, ca_local = Some p, ca_remote = Some item\<rparr> s = Some (s', k)
    \<and> k = (if merged \<noteq> ri_flags item \<and> may_push_flags (sy_opts s) then Some (SetFlags (p_handle p) merged) else None)
    \<and> sy_writes s' = sy_writes s @
        (if merged = ri_flags item
         then (if merged = p_flags p \<and> p_flags p = b_flags b \<and> p_status p = Clean then []
               else [UpsertPlacement (p\<lparr>p_flags := merged, p_status := Clean,
                       p_base := Some (b\<lparr>b_flags := merged\<rparr>)\<rparr>)])
         else if merged = p_flags p then [] else [UpsertPlacement (p\<lparr>p_flags := merged\<rparr>)])"
proof -
  have "reconcile_content p item s = Some (s, Untouched)"
    using assms(1) by (auto simp: flags_only_def reconcile_content_def Let_def)
  then have "merge \<lparr>ca_handle = p_handle p, ca_local = Some p, ca_remote = Some item\<rparr> s
      = Some (reconcile_flags p item Derive s)"
    using assms(1) by (auto simp: merge_table merge_present_def flags_only_def)
  moreover have p: "p_base p = Some b" "p_status p \<in> {Clean, Dirty}" "p_object p = None \<or> p_object p = b_object b"
    using assms(1) by (simp_all add: flags_only_def)
  have rewritten: "pulled_flags_placement p merged = p\<lparr>p_flags := merged, p_status := Clean, p_base := Some (b\<lparr>b_flags := merged\<rparr>)\<rparr>"
    "merged = p_flags p \<Longrightarrow> rebased_placement p merged
       = p\<lparr>p_flags := merged, p_status := Clean, p_base := Some (b\<lparr>b_flags := merged\<rparr>)\<rparr>"
    using p by (auto simp: pulled_flags_placement_def rebased_placement_def flags_base_def settled_status_def)
  consider (settled) "merged = p_flags p" "merged = ri_flags item"
    | (pull) "merged \<noteq> p_flags p" "merged = ri_flags item" | (push) "merged \<noteq> ri_flags item" by blast
  then have "\<exists>s' k. reconcile_flags p item Derive s = (s', k)
    \<and> k = (if merged \<noteq> ri_flags item \<and> may_push_flags (sy_opts s) then Some (SetFlags (p_handle p) merged) else None)
    \<and> sy_writes s' = sy_writes s @
        (if merged = ri_flags item
         then (if merged = p_flags p \<and> p_flags p = b_flags b \<and> p_status p = Clean then []
               else [UpsertPlacement (p\<lparr>p_flags := merged, p_status := Clean,
                       p_base := Some (b\<lparr>b_flags := merged\<rparr>)\<rparr>)])
         else if merged = p_flags p then [] else [UpsertPlacement (p\<lparr>p_flags := merged\<rparr>)])"
  proof cases
    case settled
    with p rewritten(2)[OF settled(1)] show ?thesis
      by (auto simp: reconcile_flags_def merged_def[symmetric] rebase_def write_push_def Let_def)
  next
    case pull
    with p rewritten(1) show ?thesis
      by (simp add: reconcile_flags_def merged_def[symmetric] pull_flags_def recording Let_def)
  next
    case push
    with p show ?thesis
      by (simp add: reconcile_flags_def merged_def[symmetric] recording Let_def)
  qed
  ultimately show ?thesis by auto
qed

theorem merge_flags_converge_witness:
  "\<exists>s' k. merge \<lparr>ca_handle = p_handle (sample_placement ''1''), ca_local = Some (sample_placement ''1''),
      ca_remote = Some \<lparr>ri_handle = Handle ''1'', ri_flags = Known {|''seen''|}, ri_revision = None\<rparr>\<rparr>
     (sync_new (CollectionId ''c'') sync_options_default) = Some (s', k) \<and> k = None"
proof -
  have "flags_only (sample_placement ''1'') sample_base
      \<lparr>ri_handle = Handle ''1'', ri_flags = Known {|''seen''|}, ri_revision = None\<rparr>"
    by (simp add: flags_only_def sample_defs)
  from merge_flags_converge[OF this, of "sync_new (CollectionId ''c'') sync_options_default"]
  show ?thesis by (auto simp: sample_defs)
qed

section \<open>Diverged bodies\<close>

text \<open>Both sides edited the body since the last sync, and agree on the flags.\<close>

definition diverged :: "placement \<Rightarrow> base \<Rightarrow> hash \<Rightarrow> remote_item \<Rightarrow> bool" where
  "diverged p b obj item \<longleftrightarrow>
     p_base p = Some b \<and> p_status p = Dirty \<and> p_object p = Some obj \<and> b_object b \<noteq> Some obj
     \<and> ri_revision item \<noteq> None \<and> ri_revision item \<noteq> b_revision b
     \<and> p_flags p = b_flags b \<and> ri_flags item = b_flags b"

text \<open>
  C14: a diverged body is resolved by policy, and only preferring the remote loses the local
  one. Both sides edited the body since the last sync and agree on the flags. Under the manual
  policy the row is rewritten in conflict, the remote revision recorded, no remote body claimed,
  its own body and base kept, one conflict counted and nothing pushed. Preferring the local
  side writes nothing and pushes the body, conditional on the remote revision just observed,
  or marks the conflict when content may not be pushed. Preferring the remote forgets the
  local body, moves the base to the remote revision and ends clean. Keeping both does the same
  to the row, and before it stages the local body as a pending create of its own, with no base,
  under a handle made of the row's handle and the body's hash and a link id made of the hash.
  Whenever the policy is not to prefer the remote, the local body is in what is written or in
  what is pushed.
\<close>

theorem merge_diverged_by_policy:
  fixes s :: sync
  assumes "diverged p b obj item"
  defines "in_conflict \<equiv> p\<lparr>p_status := Conflict, p_conflict_revision := ri_revision item, p_conflict_object := None\<rparr>"
    and "pulled \<equiv> p\<lparr>p_object := None, p_level := LvProbed,
        p_base := Some (b\<lparr>b_revision := ri_revision item, b_object := None\<rparr>)\<rparr>"
    and "copy \<equiv> \<lparr>p_collection = sy_collection s,
        p_handle = Handle (handle_str (p_handle p) @ [CHR 0x01] @ hash_str obj),
        p_link_id = Some (LinkId (''keepboth'' @ [CHR 0x01] @ hash_str obj)), p_object = Some obj,
        p_level = LvFull, p_meta = p_meta p, p_sort_key = p_sort_key p, p_flags = p_flags p,
        p_status = Created, p_conflict_revision = None, p_conflict_object = None, p_base = None,
        p_origin = None\<rparr>"
  shows "\<exists>s' k ops n. merge \<lparr>ca_handle = p_handle p, ca_local = Some p, ca_remote = Some item\<rparr> s = Some (s', k)
    \<and> sy_writes s' = sy_writes s @ ops
    \<and> sr_conflicts (sy_report s') = sr_conflicts (sy_report s) + n
    \<and> (k, ops, n) =
       (case opt_conflict (sy_opts s) of
         Manual \<Rightarrow> (None, [UpsertPlacement in_conflict], 1)
       | PreferLocal \<Rightarrow>
           if may_push_content (sy_opts s) then (Some (Update (p_handle p) obj (ri_revision item)), [], 0)
           else (None, [UpsertPlacement in_conflict], 1)
       | PreferRemote \<Rightarrow> (None, [UpsertPlacement pulled, UpsertPlacement (pulled\<lparr>p_status := Clean\<rparr>)], 0)
       | KeepBoth \<Rightarrow>
           (None, [UpsertPlacement copy, UpsertPlacement pulled, UpsertPlacement (pulled\<lparr>p_status := Clean\<rparr>)], 0))
    \<and> (opt_conflict (sy_opts s) \<noteq> PreferRemote \<longrightarrow>
         (\<exists>q. UpsertPlacement q \<in> set ops \<and> p_object q = Some obj \<and> p_status q \<in> {Conflict, Created})
         \<or> (\<exists>m. k = Some (Update (p_handle p) obj m)))"
proof -
  have p: "p_base p = Some b" "p_status p = Dirty" "p_object p = Some obj" "b_object b \<noteq> Some obj"
    "p_flags p = b_flags b" "ri_flags item = b_flags b"
    "ri_revision item \<noteq> None" "ri_revision item \<noteq> b_revision b"
    using assms(1) by (simp_all add: diverged_def)
  have content: "reconcile_content p item s = resolve_conflict p item s"
    using p by (simp add: reconcile_content_def)
  have rows: "conflicted_placement p item = in_conflict" "refreshed_placement p item = pulled"
    "conflict_dup (sy_collection s) p obj = copy"
    "rebased_placement pulled (p_flags p) = pulled\<lparr>p_status := Clean\<rparr>"
    using p by (simp_all add: conflicted_placement_def refreshed_placement_def conflict_dup_def rebased_placement_def
          settled_status_def flags_base_def in_conflict_def pulled_def copy_def)
  have marked: "p_base in_conflict = Some b" "p_flags in_conflict = b_flags b" "p_status in_conflict = Conflict"
    "p_object in_conflict = Some obj"
    using p by (simp_all add: in_conflict_def)
  have clean: "p_base pulled = Some (b\<lparr>b_revision := ri_revision item, b_object := None\<rparr>)" "p_flags pulled = b_flags b"
    "p_object pulled = None" "p_status pulled = Dirty" "p_object copy = Some obj" "p_status copy = Created"
    using p by (simp_all add: pulled_def copy_def)
  note steps = merge_table merge_present_def resolve_conflict_def reconcile_flags_def recording Let_def
  show ?thesis
  proof (cases "opt_conflict (sy_opts s)")
    case Manual
    with p content marked show ?thesis by (simp add: steps mark_conflict_def rows)
  next
    case PreferLocal
    with p content marked show ?thesis
      by (cases "may_push_content (sy_opts s)") (simp_all add: steps mark_conflict_def push_update_def rows)
  next
    case PreferRemote
    with p content clean rows(4) show ?thesis
      by (simp add: steps pull_content_def rebase_def rows(2))
  next
    case KeepBoth
    with p content clean rows(4) show ?thesis
      by (auto simp: steps pull_content_def stage_conflict_dup_def rebase_def rows(2,3))
  qed
qed

theorem merge_diverged_by_policy_witness:
  "\<exists>s' k. merge \<lparr>ca_handle = p_handle (sample_placement ''1''),
      ca_local = Some ((sample_placement ''1'')\<lparr>p_status := Dirty, p_object := Some (Hash ''y'')\<rparr>),
      ca_remote = Some \<lparr>ri_handle = Handle ''1'', ri_flags = flags_default, ri_revision = Some ''2''\<rparr>\<rparr>
     (sync_new (CollectionId ''c'') sync_options_default) = Some (s', k) \<and> k = None
     \<and> sy_writes s' = [UpsertPlacement ((sample_placement ''1'')
          \<lparr>p_status := Conflict, p_object := Some (Hash ''y''), p_conflict_revision := Some ''2'', p_conflict_object := None\<rparr>)]"
proof -
  have "diverged ((sample_placement ''1'')\<lparr>p_status := Dirty, p_object := Some (Hash ''y'')\<rparr>) sample_base (Hash ''y'')
      \<lparr>ri_handle = Handle ''1'', ri_flags = flags_default, ri_revision = Some ''2''\<rparr>"
    by (simp add: diverged_def sample_defs)
  from merge_diverged_by_policy[OF this, of "sync_new (CollectionId ''c'') sync_options_default"]
  show ?thesis by (auto simp: sync_new_def sync_options_default_def sample_defs)
qed

section \<open>Deletes against edits\<close>

text \<open>
  C15: an edit beats a delete, whichever side it is on. A synced row the remote no longer has
  is kept when it is dirty or in conflict over a body that is not the one last synced: rewritten
  as a pending create with that body, no base, no conflict and no origin, and pushed as an add
  when adding is allowed. Any other such row is dropped as deleted. A row deleted here that the
  remote changed since comes back as the remote's, clean, at its flags and revision, with no
  body and no link claimed, and no removal is pushed. Otherwise the delete is pushed guarded by
  the revision last synced, as a move when the row says where it went; a moved row that still
  holds an unsynced body has the body pushed first; and what the options refuse pushes nothing
  and puts the row back clean, or leaves it, by the delete policy.
\<close>

theorem merge_edit_beats_delete:
  fixes s :: sync and p :: placement
  assumes "p_base p = Some b"
  defines "unsynced \<equiv> p_object p \<noteq> None \<and> p_object p \<noteq> b_object b"
    and "refused \<equiv> (None, case opt_delete (sy_opts s) of Revert \<Rightarrow> [UpsertPlacement (p\<lparr>p_status := Clean\<rparr>)] | Keep \<Rightarrow> [])"
  shows
  "(p_status p \<noteq> Tombstone \<longrightarrow>
      (\<exists>s' k ops. merge \<lparr>ca_handle = h, ca_local = Some p, ca_remote = None\<rparr> s = Some (s', k)
        \<and> sy_writes s' = sy_writes s @ ops
        \<and> (k, ops) =
          (if p_status p \<in> {Dirty, Conflict} \<and> unsynced
           then (if may_push_add (sy_opts s) then Some (Add h (p_link_id p) (p_flags p) None (p_object p)) else None,
                 [UpsertPlacement (p\<lparr>p_status := Created, p_conflict_revision := None, p_conflict_object := None,
                    p_base := None, p_origin := None\<rparr>)])
           else (None, [DropPlacement (sy_collection s) h Deleted]))))
   \<and> (p_status p = Tombstone \<longrightarrow>
      (\<exists>s' k ops. merge \<lparr>ca_handle = h, ca_local = Some p, ca_remote = Some item\<rparr> s = Some (s', k)
        \<and> sy_writes s' = sy_writes s @ ops
        \<and> (k, ops) =
          (if ri_revision item \<noteq> None \<and> ri_revision item \<noteq> b_revision b
           then (None, [UpsertPlacement
              \<lparr>p_collection = sy_collection s, p_handle = ri_handle item, p_link_id = None, p_object = None,
               p_level = LvProbed, p_meta = None, p_sort_key = sort_key_default, p_flags = ri_flags item,
               p_status = Clean, p_conflict_revision = None, p_conflict_object = None,
               p_base = Some \<lparr>b_flags = ri_flags item, b_revision = ri_revision item, b_object = None\<rparr>,
               p_origin = None\<rparr>])
           else if unsynced \<and> p_origin p \<noteq> None
           then (if may_push_content (sy_opts s) then (Some (Update h (the (p_object p)) (b_revision b)), []) else refused)
           else if may_push_remove (sy_opts s)
           then (Some (Remove h (map_option or_collection (p_origin p)) (p_link_id p) (b_revision b)), [])
           else refused)))"
proof -
  have edit: "staged_edit p = None \<longleftrightarrow> \<not> unsynced" "vanished_edit p \<longleftrightarrow> p_status p \<in> {Dirty, Conflict} \<and> unsynced"
    using assms(1) by (auto simp: staged_edit_def vanished_edit_def unsynced_def Let_def split: option.split)
  have body: "\<exists>obj. p_object p = Some obj" if unsynced using that by (auto simp: unsynced_def)
  have refuse: "refuse_delete p s = (fold write_push (snd refused) s, None)" "fst refused = None"
    by (simp_all add: refuse_delete_def refused_def split: delete_policy.split)
  have writes: "sy_writes (fold write_push ops s) = sy_writes s @ ops" for ops s
    by (induction ops arbitrary: s) (simp_all add: recording)
  have kept: "\<exists>ops. sy_writes (fold write_push (snd refused) s) = sy_writes s @ ops \<and> (None, ops) = refused"
    using writes refuse(2) by (metis prod.collapse)
  show ?thesis
    using assms(1) body kept
    by (auto simp: merge_table merge_vanished_def merge_deleted_def edit resurrected_def pull_add_def pulled_placement_def
          push_update_def refuse recording Let_def)
qed

theorem merge_edit_beats_delete_witness:
  "\<exists>s' k. merge \<lparr>ca_handle = Handle ''1'',
      ca_local = Some ((sample_placement ''1'')\<lparr>p_status := Dirty, p_object := Some (Hash ''y'')\<rparr>), ca_remote = None\<rparr>
     (sync_new (CollectionId ''c'') sync_options_default) = Some (s', k)
     \<and> sy_writes s' = [UpsertPlacement ((sample_placement ''1'')\<lparr>p_status := Created, p_object := Some (Hash ''y''),
          p_conflict_revision := None, p_conflict_object := None, p_base := None, p_origin := None\<rparr>)]"
proof -
  let ?p = "(sample_placement ''1'')\<lparr>p_status := Dirty, p_object := Some (Hash ''y'')\<rparr>"
  have "p_base ?p = Some sample_base" by (simp add: sample_placement_def)
  from merge_edit_beats_delete[OF this, where h = "Handle ''1''" and s = "sync_new (CollectionId ''c'') sync_options_default"]
  show ?thesis by (auto simp: sync_new_def sample_defs)
qed

section \<open>Settling the outcome of a chunk\<close>

text \<open>
  C17: a push the remote did not accept records nothing. Settling a chunk whose outcomes are
  all rejections, or that reports no outcome at all, leaves the writes as they were and
  counts nothing as pushed; the rejections are counted, and nothing of the chunk stays
  pending, so the placements keep their local state and the next run derives them again.
\<close>

theorem settle_rejected_records_nothing:
  assumes "\<forall>r \<in> set results. pr_outcome r = Rejected"
  shows "sy_writes (settle_chunk results s) = sy_writes s
    \<and> sr_pushed (sy_report (settle_chunk results s)) = sr_pushed (sy_report s)
    \<and> sr_rejected (sy_report (settle_chunk results s)) = sr_rejected (sy_report s) + length results
    \<and> sy_in_flight (settle_chunk results s) = []
    \<and> (\<forall>h \<in> set (sy_in_flight s).
          map_of (sy_pending_flag_pushes (settle_chunk results s)) h = None
          \<and> map_of (sy_pending_content_pushes (settle_chunk results s)) h = None
          \<and> h |\<notin>| sy_pending_drops (settle_chunk results s)
          \<and> map_of (sy_pending_creates (settle_chunk results s)) h = None)"
proof -
  have settled: "fold settle_result results s
      = s\<lparr>sy_report := (sy_report s)\<lparr>sr_rejected := sr_rejected (sy_report s) + length results\<rparr>\<rparr>"
    using assms by (induction results arbitrary: s) (simp_all add: settle_result_def)
  have forgets: "sy_writes (fold forget_pending hs s) = sy_writes s
      \<and> sy_report (fold forget_pending hs s) = sy_report s
      \<and> sy_in_flight (fold forget_pending hs s) = sy_in_flight s
      \<and> (\<forall>h. map_of (sy_pending_flag_pushes (fold forget_pending hs s)) h
               = (if h \<in> set hs then None else map_of (sy_pending_flag_pushes s) h)
            \<and> map_of (sy_pending_content_pushes (fold forget_pending hs s)) h
               = (if h \<in> set hs then None else map_of (sy_pending_content_pushes s) h)
            \<and> (h |\<in>| sy_pending_drops (fold forget_pending hs s) \<longleftrightarrow> h \<notin> set hs \<and> h |\<in>| sy_pending_drops s)
            \<and> map_of (sy_pending_creates (fold forget_pending hs s)) h
               = (if h \<in> set hs then None else map_of (sy_pending_creates s) h))" for hs s
    by (induction hs arbitrary: s) (auto simp: forget_pending_def)
  show ?thesis
    using forgets by (simp add: settle_chunk_def settled Let_def)
qed

theorem settle_rejected_records_nothing_witness:
  "sy_writes (settle_chunk [\<lparr>pr_handle = Handle ''1'', pr_outcome = Rejected, pr_assigned = None, pr_revision = None\<rparr>]
     (sync_new (CollectionId ''c'') sync_options_default)) = []"
  using settle_rejected_records_nothing[of
      "[\<lparr>pr_handle = Handle ''1'', pr_outcome = Rejected, pr_assigned = None, pr_revision = None\<rparr>]"
      "sync_new (CollectionId ''c'') sync_options_default"]
  by (simp add: sync_new_def)

text \<open>
  C33: an accepted create takes the handle the remote assigned. The placeholder is dropped as
  superseded, never as deleted, before the same placement is written under the assigned handle:
  clean, with no origin left, and with a base holding its flags, its body and the revision the
  remote reported, so that nothing of it reads as pending; every other field is its own. When
  the remote assigned no handle, only the superseded drop is written. Either way the placeholder
  is no longer pending and the create is counted as pushed.
\<close>

theorem settle_accepted_create:
  assumes "pr_outcome r = Accepted" "map_of (sy_pending_creates s) (pr_handle r) = Some p"
    "map_of (sy_pending_flag_pushes s) (pr_handle r) = None"
    "map_of (sy_pending_content_pushes s) (pr_handle r) = None"
    "pr_handle r |\<notin>| sy_pending_drops s" "p_handle p = pr_handle r"
  shows "sy_writes (settle_result r s) = sy_writes s @
      DropPlacement (sy_collection s) (pr_handle r) Superseded #
      (case pr_assigned r of
         None \<Rightarrow> []
       | Some h \<Rightarrow> [UpsertPlacement (p\<lparr>p_handle := h, p_status := Clean, p_origin := None,
            p_base := Some \<lparr>b_flags = p_flags p, b_revision = pr_revision r, b_object = p_object p\<rparr>\<rparr>)])
    \<and> map_of (sy_pending_creates (settle_result r s)) (pr_handle r) = None
    \<and> sr_pushed (sy_report (settle_result r s)) = sr_pushed (sy_report s) + 1"
proof -
  have "settle_flags r s = (s, False)" "settle_content r s = (s, False)" "settle_drop r s = (s, False)"
    using assms by (simp_all add: settle_flags_def settle_content_def settle_drop_def)
  then show ?thesis
    using assms
    by (auto simp: settle_result_def settle_create_def rekey_create_def placed_create_def
          recording Let_def split: option.split)
qed

theorem settle_accepted_create_witness:
  "sy_writes (settle_result
      \<lparr>pr_handle = Handle ''1'', pr_outcome = Accepted, pr_assigned = Some (Handle ''9''), pr_revision = Some ''4''\<rparr>
      ((sync_new (CollectionId ''c'') sync_options_default)
         \<lparr>sy_pending_creates := [(Handle ''1'', sample_placement ''1'')]\<rparr>))
   = [DropPlacement (CollectionId ''c'') (Handle ''1'') Superseded,
      UpsertPlacement ((sample_placement ''1'')\<lparr>p_handle := Handle ''9'', p_status := Clean, p_origin := None,
        p_base := Some \<lparr>b_flags = flags_default, b_revision = Some ''4'', b_object = Some (Hash ''x'')\<rparr>\<rparr>)]"
proof -
  let ?r = "\<lparr>pr_handle = Handle ''1'', pr_outcome = Accepted, pr_assigned = Some (Handle ''9''), pr_revision = Some ''4''\<rparr>"
  let ?s = "(sync_new (CollectionId ''c'') sync_options_default)
      \<lparr>sy_pending_creates := [(Handle ''1'', sample_placement ''1'')]\<rparr>"
  have "pr_outcome ?r = Accepted" "map_of (sy_pending_creates ?s) (pr_handle ?r) = Some (sample_placement ''1'')"
    "map_of (sy_pending_flag_pushes ?s) (pr_handle ?r) = None"
    "map_of (sy_pending_content_pushes ?s) (pr_handle ?r) = None"
    "pr_handle ?r |\<notin>| sy_pending_drops ?s" "p_handle (sample_placement ''1'') = pr_handle ?r"
    by (simp_all add: sync_new_def sample_placement_def)
  from settle_accepted_create[OF this] show ?thesis by (simp add: sync_new_def sample_defs)
qed

section \<open>Refused deletes\<close>

text \<open>
  C38: reverting a refused delete forgets what else was pending. When removing is not allowed
  and refused deletes are reverted, a row deleted after an edit of its body that was never
  synced comes back clean with the edited body: the next merge against the unchanged remote
  derives no change and writes nothing, so the edit is never pushed, and the next remote
  edit replaces the body without a conflict, whatever the policy.
\<close>

theorem reverted_delete_strands_edit:
  assumes "p_status p = Tombstone" "p_base p = Some b" "p_origin p = None"
    "p_object p = Some obj" "b_object b \<noteq> Some obj"
    "p_flags p = b_flags b" "ri_flags item = b_flags b" "ri_revision item = b_revision b"
    "\<not> may_push_remove (sy_opts s)" "opt_delete (sy_opts s) = Revert"
    "ri_flags item' = b_flags b" "ri_revision item' \<noteq> None" "ri_revision item' \<noteq> b_revision b"
  defines "back \<equiv> p\<lparr>p_status := Clean\<rparr>"
  shows "merge \<lparr>ca_handle = h, ca_local = Some p, ca_remote = Some item\<rparr> s
      = Some (write_push (UpsertPlacement back) s, None)
    \<and> staged_edit back = Some obj
    \<and> merge \<lparr>ca_handle = h, ca_local = Some back, ca_remote = Some item\<rparr> s' = Some (s', None)
    \<and> (\<exists>s''. merge \<lparr>ca_handle = h, ca_local = Some back, ca_remote = Some item'\<rparr> s' = Some (s'', None)
         \<and> sy_writes s'' = sy_writes s' @ [UpsertPlacement (refreshed_placement back item')]
         \<and> p_object (refreshed_placement back item') = None)"
  using assms
  by (simp add: merge_table merge_deleted_def refuse_delete_def merge_present_def reconcile_content_def
        reconcile_flags_def pull_content_def refreshed_placement_def staged_edit_def recording Let_def)

theorem reverted_delete_strands_edit_witness:
  "staged_edit (((sample_placement ''1'')\<lparr>p_status := Tombstone, p_object := Some (Hash ''y'')\<rparr>)\<lparr>p_status := Clean\<rparr>)
     = Some (Hash ''y'')"
proof -
  let ?p = "(sample_placement ''1'')\<lparr>p_status := Tombstone, p_object := Some (Hash ''y'')\<rparr>"
  let ?i = "\<lambda>r. \<lparr>ri_handle = Handle ''1'', ri_flags = flags_default, ri_revision = Some r\<rparr>"
  let ?s = "sync_new (CollectionId ''c'') (sync_options_default\<lparr>opt_push := False\<rparr>)"
  have "p_status ?p = Tombstone" "p_base ?p = Some sample_base" "p_origin ?p = None"
    "p_object ?p = Some (Hash ''y'')" "b_object sample_base \<noteq> Some (Hash ''y'')"
    "p_flags ?p = b_flags sample_base" "ri_flags (?i ''1'') = b_flags sample_base"
    "ri_revision (?i ''1'') = b_revision sample_base"
    "\<not> may_push_remove (sy_opts ?s)" "opt_delete (sy_opts ?s) = Revert"
    "ri_flags (?i ''2'') = b_flags sample_base" "ri_revision (?i ''2'') \<noteq> None"
    "ri_revision (?i ''2'') \<noteq> b_revision sample_base"
    by (simp_all add: sample_placement_def sample_base_def sync_new_def sync_options_default_def may_push_remove_def)
  from reverted_delete_strands_edit[OF this] show ?thesis by blast
qed

lemma staged_edit_update [simp]:
  "staged_edit (p\<lparr>p_status := st\<rparr>) = staged_edit p"
  "staged_edit (p\<lparr>p_status := st, p_origin := orig\<rparr>) = staged_edit p"
  by (simp_all add: staged_edit_def Let_def split: option.split)

text \<open>
  C39: a refused move leaves its destination behind. The source half of a move records where
  the item was headed in its origin; reverted, the row is clean but keeps it, and a plain
  delete of that row later is pushed as a relocation to the old destination.
\<close>

theorem reverted_move_relocates_later:
  assumes "p_status p = Clean" "p_base p = Some b" "staged_edit p = None" "p_link_id p \<noteq> None"
    "ri_revision item = b_revision b"
    "\<not> may_push_remove (sy_opts s)" "opt_delete (sy_opts s) = Revert" "may_push_remove (sy_opts s')"
    "mu_mutation move = MMove (p_handle p) target placeholder" "mu_mutation remove = MRemove (p_handle p)"
  shows "\<exists>moved back deleted.
      last (mutate_writes move p) = UpsertPlacement moved
      \<and> merge \<lparr>ca_handle = p_handle p, ca_local = Some moved, ca_remote = Some item\<rparr> s
          = Some (write_push (UpsertPlacement back) s, None)
      \<and> p_status back = Clean
      \<and> mutate_writes remove back = [UpsertPlacement deleted]
      \<and> map_option snd (merge \<lparr>ca_handle = p_handle p, ca_local = Some deleted, ca_remote = Some item\<rparr> s')
          = Some (Some (Remove (p_handle p) (Some target) (p_link_id p) (b_revision b)))"
proof -
  let ?moved = "p\<lparr>p_status := Tombstone, p_origin := Some \<lparr>or_collection = target, or_handle = p_handle p\<rparr>\<rparr>"
  show ?thesis
    using assms
    by (intro exI[of _ ?moved] exI[of _ "?moved\<lparr>p_status := Clean\<rparr>"] exI[of _ ?moved])
      (simp add: mutate_writes_def merge_table merge_deleted_def refuse_delete_def Let_def)
qed

theorem reverted_move_relocates_later_witness:
  "\<exists>k. k = Remove (Handle ''1'') (Some (CollectionId ''archive'')) (Some (LinkId ''1'')) (Some ''1'')
     \<and> (\<exists>deleted. map_option snd (merge \<lparr>ca_handle = Handle ''1'', ca_local = Some deleted,
            ca_remote = Some \<lparr>ri_handle = Handle ''1'', ri_flags = flags_default, ri_revision = Some ''1''\<rparr>\<rparr>
          (sync_new (CollectionId ''c'') sync_options_default)) = Some (Some k))"
proof -
  let ?p = "sample_placement ''1''"
  let ?i = "\<lparr>ri_handle = Handle ''1'', ri_flags = flags_default, ri_revision = Some ''1''\<rparr>"
  let ?s = "sync_new (CollectionId ''c'') (sync_options_default\<lparr>opt_push := False\<rparr>)"
  let ?s' = "sync_new (CollectionId ''c'') sync_options_default"
  let ?move = "mutate_new (CollectionId ''c'') (MMove (Handle ''1'') (CollectionId ''archive'') (Handle ''t''))"
  let ?remove = "mutate_new (CollectionId ''c'') (MRemove (Handle ''1''))"
  have handle: "p_handle ?p = Handle ''1''" "p_link_id ?p = Some (LinkId ''1'')" "b_revision sample_base = Some ''1''"
    by (simp_all add: sample_placement_def sample_base_def)
  have "p_status ?p = Clean" "p_base ?p = Some sample_base" "staged_edit ?p = None" "p_link_id ?p \<noteq> None"
    "ri_revision ?i = b_revision sample_base"
    "\<not> may_push_remove (sy_opts ?s)" "opt_delete (sy_opts ?s) = Revert" "may_push_remove (sy_opts ?s')"
    "mu_mutation ?move = MMove (p_handle ?p) (CollectionId ''archive'') (Handle ''t'')"
    "mu_mutation ?remove = MRemove (p_handle ?p)"
    by (simp_all add: sample_placement_def sample_base_def staged_edit_def sync_new_def
          sync_options_default_def may_push_remove_def push_rights_all_def mutate_new_def)
  from reverted_move_relocates_later[OF this] show ?thesis unfolding handle by blast
qed

end
