(* ===== verification/Sync_Laws.thy ===== *)
theory Sync_Laws
  imports Sync_Run
begin

text \<open>
  What a SYNC run promises: which changes it derives and within which rights, in which order
  and chunks they are pushed, when the checkpoint is written, and what the three-way merge
  of one candidate decides in each of its cases.
\<close>

section \<open>The changes a merge derives\<close>

text \<open>The push gate of a change's kind.\<close>

fun push_allowed :: "sync_options \<Rightarrow> change_kind \<Rightarrow> bool" where
  "push_allowed opts (SetFlags _ _) = may_push_flags opts"
| "push_allowed opts (Update _ _ _) = may_push_content opts"
| "push_allowed opts (Add _ _ _ _ _) = may_push_add opts"
| "push_allowed opts (Remove _ _ _ _) = may_push_remove opts"

fun is_checkpoint :: "write_op \<Rightarrow> bool" where
  "is_checkpoint (SetCheckpoint _ _) = True"
| "is_checkpoint _ = False"

text \<open>An arm of the merge adds no checkpoint and derives a change of its own handle, in its rights.\<close>

definition arm_ok :: "handle \<Rightarrow> sync \<Rightarrow> sync \<times> change_kind option \<Rightarrow> bool" where
  "arm_ok h s r \<longleftrightarrow>
     (\<forall>op \<in> set (sy_writes (fst r)). is_checkpoint op \<longrightarrow> op \<in> set (sy_writes s))
     \<and> (\<forall>kind. snd r = Some kind \<longrightarrow> push_allowed (sy_opts s) kind \<and> kind_handle kind = h)"

definition content_ok :: "placement \<Rightarrow> sync \<Rightarrow> sync \<times> content_outcome \<Rightarrow> bool" where
  "content_ok p s r \<longleftrightarrow>
     (\<forall>op \<in> set (sy_writes (fst r)). is_checkpoint op \<longrightarrow> op \<in> set (sy_writes s))
     \<and> sy_opts (fst r) = sy_opts s
     \<and> (case snd r of
          Untouched \<Rightarrow> True
        | Rewritten q \<Rightarrow> p_handle q = p_handle p
        | Push kind \<Rightarrow> push_allowed (sy_opts s) kind \<and> kind_handle kind = p_handle p)"

lemma reconcile_flags_arm: "arm_ok (p_handle p) s (reconcile_flags p item allow s)"
  by (auto simp: arm_ok_def reconcile_flags_def Let_def recording pulling_defs
        split: option.splits if_splits)

lemma resolve_conflict_arm:
  "resolve_conflict p item s = Some r \<Longrightarrow> content_ok p s r"
  by (auto simp: content_ok_def resolve_conflict_def Let_def recording pulling_defs
        conflicted_placement_def refreshed_placement_def
        split: conflict_policy.splits if_splits option.splits Option.bind_splits)

lemma reconcile_content_arm: "reconcile_content p item s = Some r \<Longrightarrow> content_ok p s r"
  using resolve_conflict_arm[of p item s r]
  by (auto simp: content_ok_def reconcile_content_def Let_def recording pulling_defs
        conflicted_placement_def refreshed_placement_def
        split: option.splits if_splits Option.bind_splits)

lemma merge_present_arm: "merge_present p item s = Some r \<Longrightarrow> arm_ok (p_handle p) s r"
proof -
  assume run: "merge_present p item s = Some r"
  then obtain s1 out where c: "reconcile_content p item s = Some (s1, out)"
    by (auto simp: merge_present_def split: Option.bind_splits)
  note ok = reconcile_content_arm[OF c]
  show ?thesis
  proof (cases out)
    case Untouched
    with run c ok reconcile_flags_arm[of p s1 item Derive] show ?thesis
      by (auto simp: merge_present_def arm_ok_def content_ok_def)
  next
    case (Rewritten q)
    with run c ok reconcile_flags_arm[of q s1 item Derive] show ?thesis
      by (auto simp: merge_present_def arm_ok_def content_ok_def)
  next
    case (Push kind)
    with run c ok reconcile_flags_arm[of p s1 item Withhold] show ?thesis
      by (auto simp: merge_present_def arm_ok_def content_ok_def Let_def case_prod_unfold)
  qed
qed

lemma merge_deleted_arm: "merge_deleted h p item s = Some r \<Longrightarrow> arm_ok h s r"
  by (auto simp: arm_ok_def merge_deleted_def Let_def recording pulling_defs
        split: if_splits delete_policy.splits Option.bind_splits)

lemma merge_vanished_arm: "arm_ok h s (merge_vanished h p s)"
  by (auto simp: arm_ok_def merge_vanished_def Let_def recording)

lemma merge_created_arm: "arm_ok h s (merge_created h p s)"
  by (auto simp: arm_ok_def merge_created_def)

lemma merge_arm:
  assumes "merge c s = Some r" "\<And>p. ca_local c = Some p \<Longrightarrow> p_handle p = ca_handle c"
  shows "arm_ok (ca_handle c) s r"
proof -
  have "arm_ok (ca_handle c) s (emit (Added h) (count_pulled (pull_add item s)), None)"
    "arm_ok (ca_handle c) s (sync_drop h Deleted s, None)" "arm_ok (ca_handle c) s (s, None)" for h item
    by (auto simp: arm_ok_def recording pull_add_def)
  then show ?thesis
    using assms merge_vanished_arm merge_created_arm
    by (auto simp: merge_table dest: merge_present_arm merge_deleted_arm split: option.splits if_splits)
qed

section \<open>The run's invariant\<close>

text \<open>The handles a merge in progress has still to visit.\<close>

definition todo_handles :: "sync \<Rightarrow> handle set" where
  "todo_handles s = (case sy_merging s of None \<Rightarrow> {} | Some m \<Rightarrow> join_handles (mg_join m))"

definition local_keyed :: "(handle, placement) btree_map \<Rightarrow> bool" where
  "local_keyed m \<longleftrightarrow> bt_wf m \<and> (\<forall>e \<in> set m. p_handle (snd e) = fst e)"

lemma local_keyed_Cons:
  "local_keyed ((h, p) # m) \<longleftrightarrow> p_handle p = h \<and> local_keyed m \<and> (\<forall>e \<in> set m. h < fst e)"
  by (auto simp: local_keyed_def bt_wf_def)

text \<open>
  No checkpoint waits among the writes, and none is due while a merge is open; every change
  queued is in the run's rights and keyed by the engine; the queue is in strictly increasing
  handle order, below every handle still to visit.
\<close>

definition run_inv :: "sync \<Rightarrow> bool" where
  "run_inv s \<longleftrightarrow>
     (\<forall>op \<in> set (sy_writes s). \<not> is_checkpoint op)
     \<and> (sy_merging s \<noteq> None \<longrightarrow> sy_next_checkpoint s = None)
     \<and> (\<forall>ch \<in> set (sy_pushes s). push_allowed (sy_opts s) (ch_kind ch)
            \<and> ch = change_new (sy_collection s) (ch_kind ch)
            \<and> (\<forall>h \<in> todo_handles s. change_handle ch < h))
     \<and> sorted_wrt (<) (map change_handle (sy_pushes s))
     \<and> local_keyed (sy_local s)
     \<and> (\<forall>m. sy_merging s = Some m \<longrightarrow> join_wf (mg_join m) \<and> local_keyed (jn_local (mg_join m)))"

lemma run_inv_same:
  "run_inv s \<Longrightarrow> sy_writes s' = sy_writes s \<Longrightarrow> sy_merging s' = sy_merging s \<Longrightarrow>
     sy_next_checkpoint s' = sy_next_checkpoint s \<Longrightarrow> sy_pushes s' = sy_pushes s \<Longrightarrow>
     sy_opts s' = sy_opts s \<Longrightarrow> sy_collection s' = sy_collection s \<Longrightarrow> sy_local s' = sy_local s \<Longrightarrow>
     run_inv s'"
  by (simp add: run_inv_def todo_handles_def)

lemma run_inv_new: "run_inv (sync_new coll opts)"
  by (simp add: run_inv_def sync_new_def local_keyed_def todo_handles_def)

lemma join_next_keyed:
  "join_next j = Some (c, j') \<Longrightarrow> local_keyed (jn_local j) \<Longrightarrow>
     local_keyed (jn_local j') \<and> (\<forall>p. ca_local c = Some p \<longrightarrow> p_handle p = ca_handle c)"
  by (auto simp: join_next_def local_keyed_Cons split: list.splits if_splits)

lemma narrow_keeps: "narrow m c = Some c' \<Longrightarrow> ca_handle c' = ca_handle c \<and> ca_local c' = ca_local c"
  by (auto simp: narrow_def split: if_splits option.splits)

lemma merging_next_keeps:
  "merging_next m = (r, m') \<Longrightarrow> join_wf (mg_join m) \<Longrightarrow> local_keyed (jn_local (mg_join m)) \<Longrightarrow>
     join_wf (mg_join m') \<and> local_keyed (jn_local (mg_join m'))
     \<and> mg_checkpoint m' = mg_checkpoint m
     \<and> join_handles (mg_join m') \<subseteq> join_handles (mg_join m)
     \<and> (\<forall>c. r = Some c \<longrightarrow> ca_handle c \<in> join_handles (mg_join m)
           \<and> (\<forall>h \<in> join_handles (mg_join m'). ca_handle c < h)
           \<and> (\<forall>p. ca_local c = Some p \<longrightarrow> p_handle p = ca_handle c))"
proof (induction m arbitrary: r m' rule: merging_next.induct)
  case (1 m)
  show ?case
  proof (cases "join_next (mg_join m)")
    case None
    with "1.prems" show ?thesis by (simp add: merging_next.simps[of m])
  next
    case (Some cj)
    then obtain c j where j: "join_next (mg_join m) = Some (c, j)" by (cases cj) auto
    note look = join_next_look[OF "1.prems"(2) j] and key = join_next_keyed[OF j "1.prems"(3)]
    let ?m = "m\<lparr>mg_join := j\<rparr>"
    have found: ?thesis if "r = Some c'" "m' = ?m" "ca_handle c' = ca_handle c" "ca_local c' = ca_local c" for c'
      using look key that by (simp add: subset_insertI)
    show ?thesis
    proof (cases "mg_complete m")
      case True
      with "1.prems"(1) j have "r = Some c \<and> m' = ?m" by (simp add: merging_next.simps[of m])
      then show ?thesis by (intro found[of c]) simp_all
    next
      case incomplete: False
      show ?thesis
      proof (cases "narrow ?m c")
        case (Some c')
        with incomplete "1.prems"(1) j have "r = Some c' \<and> m' = ?m" by (simp add: merging_next.simps[of m])
        with narrow_keeps[OF Some] show ?thesis by (intro found[of c']) simp_all
      next
        case None
        with incomplete "1.prems"(1) j have skip: "merging_next ?m = (r, m')"
          by (simp add: merging_next.simps[of m])
        have "join_wf (mg_join ?m)" "local_keyed (jn_local (mg_join ?m))" using look key by simp_all
        note ih = "1.IH"[OF j refl refl _ None skip this]
        have "join_handles j \<subseteq> join_handles (mg_join m)" using look by (simp add: subset_insertI)
        with ih incomplete show ?thesis by (simp add: subset_iff)
      qed
    qed
  qed
qed

lemma local_keyed_collect: "local_keyed (bt_collect (map (\<lambda>p. (p_handle p, p)) ps))"
proof -
  have "p_handle v = k" if "(k, v) \<in> set (bt_collect (map (\<lambda>p. (p_handle p, p)) ps))" for k v
  proof -
    have "map_of (rev (map (\<lambda>p. (p_handle p, p)) ps)) k = Some v"
      using that unfolding bt.mem_entries[OF bt_wf_collect] bt_get_collect .
    then show ?thesis by (auto dest!: map_of_SomeD)
  qed
  then show ?thesis by (auto simp: local_keyed_def)
qed

section \<open>The snapshot in handle order\<close>

lemma find_filter: "List.find P xs = (case filter P xs of [] \<Rightarrow> None | x # _ \<Rightarrow> Some x)"
  by (induction xs) auto

lemma find_sort_key: "List.find (\<lambda>i. f i = h) (List.sort_key f xs) = List.find (\<lambda>i. f i = h) xs"
  by (simp add: find_filter sort_key_stable)

lemma dedup_handles_sorted:
  "sorted (map ri_handle is) \<Longrightarrow>
     sorted_wrt (<) (map ri_handle (dedup_handles is))
     \<and> set (dedup_handles is) \<subseteq> set is
     \<and> List.find (\<lambda>i. ri_handle i = h) (dedup_handles is) = List.find (\<lambda>i. ri_handle i = h) is"
proof (induction "is" rule: dedup_handles.induct)
  case (1 i j "is")
  show ?case
  proof (cases "ri_handle i = ri_handle j")
    case True
    with "1.prems" have "sorted (map ri_handle (i # is))" by simp
    with True "1.IH"(1) show ?thesis by auto
  next
    case False
    with "1.prems" have "sorted (map ri_handle (j # is))" "ri_handle i < ri_handle j" by auto
    then have "\<forall>x \<in> set (j # is). ri_handle i < ri_handle x" by auto
    with False \<open>sorted (map ri_handle (j # is))\<close> "1.IH"(2) show ?thesis by auto
  qed
qed simp_all

text \<open>
  The merge sees the snapshot in handle order, whatever order it arrived in. The items
  the join walks are strictly increasing by handle, none is invented, and looking a handle up
  among them finds the first item the remote listed under it.
\<close>

theorem snapshot_items_canonical:
  "sorted_wrt (<) (map ri_handle (snapshot_items items))
   \<and> set (snapshot_items items) \<subseteq> set items
   \<and> List.find (\<lambda>i. ri_handle i = h) (snapshot_items items) = List.find (\<lambda>i. ri_handle i = h) items"
  using dedup_handles_sorted[of items h] dedup_handles_sorted[of "List.sort_key ri_handle items" h]
  by (simp add: snapshot_items_def find_sort_key)

lemma snapshot_items_sorted: "sorted_wrt (<) (map ri_handle (snapshot_items items))"
  by (simp add: snapshot_items_canonical)

lemma find_snapshot:
  "List.find (\<lambda>i. ri_handle i = h) (snapshot_items items) = List.find (\<lambda>i. ri_handle i = h) items"
  by (simp add: snapshot_items_canonical)

lemma handles_find: "h \<in> ri_handle ` set is \<longleftrightarrow> List.find (\<lambda>i. ri_handle i = h) is \<noteq> None"
  by (auto simp: find_None_iff)

lemma snapshot_handles: "ri_handle ` set (snapshot_items items) = ri_handle ` set items"
  by (rule set_eqI) (simp only: handles_find find_snapshot)

section \<open>The invariant is kept\<close>

lemma batch_ops:
  assumes "\<forall>op \<in> set (sy_writes s). \<not> is_checkpoint op"
  shows "sy_writes (fst (batch s)) = []"
    "sy_next_checkpoint (fst (batch s)) = (if sy_pushes s = [] then None else sy_next_checkpoint s)"
    "sy_local (fst (batch s)) = sy_local s"
    "\<forall>op \<in> set (snd (batch s)). is_checkpoint op \<longrightarrow>
       sy_pushes s = [] \<and> op = last (snd (batch s))
       \<and> (\<exists>ck. sy_next_checkpoint s = Some ck \<and> op = SetCheckpoint (sy_collection s) ck)"
  using assms by (auto simp: batch_def Let_def split: option.splits)

lemma run_inv_batch:
  assumes "run_inv s" shows "run_inv (fst (batch s))"
  using assms batch_ops(1-3)[of s]
  by (simp add: run_inv_def todo_handles_def)

text \<open>What a yield promises: no chunk over the bound, and a checkpoint only to close the run.\<close>

definition yield_ok :: "sync \<Rightarrow> yield \<Rightarrow> bool" where
  "yield_ok s y \<longleftrightarrow>
     (case y of
        WantsPush c chs \<Rightarrow>
          c = sy_collection s \<and> chs \<noteq> [] \<and> length chs \<le> PUSH_CHUNK
          \<and> sorted_wrt (<) (map change_handle chs)
          \<and> (\<forall>ch \<in> set chs. push_allowed (sy_opts s) (ch_kind ch) \<and> ch_key ch = kind_key (ch_kind ch) c
               \<and> (\<forall>ch' \<in> set (sy_pushes s). change_handle ch < change_handle ch'))
      | WantsWrite ops \<Rightarrow>
          (\<forall>op \<in> set ops. is_checkpoint op \<longrightarrow>
             op = last ops \<and> sy_state s = SyPendingWrite \<and> sy_pushes s = [] \<and> sy_merging s = None)
      | WantsLoad c sc \<Rightarrow> c = sy_collection s \<and> sc = ScopeAll
      | WantsEnumerate c ck \<Rightarrow> c = sy_collection s \<and> (opt_full (sy_opts s) \<longrightarrow> ck = None)
      | _ \<Rightarrow> False)"

lemma sync_step_inv:
  assumes "run_inv s" "sy_merging s = None" "sync_step s = (s', r)"
  shows "run_inv s' \<and> (\<exists>y. r = Yielded y \<and> yield_ok s' y)
    \<and> sy_opts s' = sy_opts s \<and> sy_collection s' = sy_collection s"
proof (cases "sy_pushes s = []")
  case True
  let ?s = "s\<lparr>sy_state := SyPendingWrite\<rparr>"
  have inv: "run_inv ?s" using assms(1) by (simp add: run_inv_def todo_handles_def)
  then have clean: "\<forall>op \<in> set (sy_writes ?s). \<not> is_checkpoint op" by (simp add: run_inv_def)
  have "s' = fst (batch ?s)" "r = Yielded (WantsWrite (snd (batch ?s)))"
    using assms(3) True by (auto simp: sync_step_def Let_def case_prod_unfold)
  with run_inv_batch[OF inv] batch_ops(4)[OF clean] assms(2) True show ?thesis
    by (auto simp: yield_ok_def)
next
  case False
  let ?n = "min (length (sy_pushes s)) PUSH_CHUNK"
  have r: "s' = s\<lparr>sy_pushes := drop ?n (sy_pushes s),
        sy_in_flight := map change_handle (take ?n (sy_pushes s)), sy_state := SyPendingPush\<rparr>"
    "r = Yielded (WantsPush (sy_collection s) (take ?n (sy_pushes s)))"
    using assms(3) False by (simp_all add: sync_step_def Let_def)
  have split: "sy_pushes s = take ?n (sy_pushes s) @ drop ?n (sy_pushes s)" by simp
  have "sorted_wrt (<) (map change_handle (take ?n (sy_pushes s) @ drop ?n (sy_pushes s)))"
    using assms(1) by (simp add: run_inv_def)
  then have ordered: "sorted_wrt (<) (map change_handle (take ?n (sy_pushes s)))"
    "sorted_wrt (<) (map change_handle (drop ?n (sy_pushes s)))"
    "\<forall>a \<in> set (take ?n (sy_pushes s)). \<forall>b \<in> set (drop ?n (sy_pushes s)). change_handle a < change_handle b"
    by (simp_all add: sorted_wrt_append del: append_take_drop_id)
  have mem: "ch \<in> set (sy_pushes s)" if "ch \<in> set (drop ?n (sy_pushes s)) \<or> ch \<in> set (take ?n (sy_pushes s))" for ch
    using that in_set_dropD in_set_takeD by metis
  have "take ?n (sy_pushes s) \<noteq> []" using False by simp
  moreover have "length (take ?n (sy_pushes s)) \<le> PUSH_CHUNK" by simp
  moreover have "run_inv s'"
    using assms(1,2) ordered(2) mem unfolding r run_inv_def by (simp add: todo_handles_def)
  moreover have "\<forall>ch \<in> set (take ?n (sy_pushes s)). push_allowed (sy_opts s) (ch_kind ch)
      \<and> ch_key ch = kind_key (ch_kind ch) (sy_collection s)"
    using assms(1) mem unfolding run_inv_def by (metis change_new_simps(2))
  ultimately show ?thesis
    using ordered by (simp add: r yield_ok_def)
qed

lemma run_inv_merged:
  assumes inv: "run_inv s" and m: "sy_merging s = Some m" and c: "merging_next m = (Some c, m')"
    and run: "merge_candidate c (s\<lparr>sy_merging := Some m'\<rparr>) = Some s'"
  shows "run_inv s' \<and> sy_opts s' = sy_opts s \<and> sy_collection s' = sy_collection s \<and> sy_merging s' = Some m'"
proof -
  let ?s = "s\<lparr>sy_merging := Some m'\<rparr>"
  have wf: "join_wf (mg_join m)" "local_keyed (jn_local (mg_join m))"
    using inv m by (simp_all add: run_inv_def)
  note keeps = merging_next_keeps[OF c wf]
  obtain s1 k where merged: "merge c ?s = Some (s1, k)" and
    s': "s' = (case k of Some k \<Rightarrow> s1\<lparr>sy_pushes := sy_pushes s1 @ [change_new (sy_collection s1) k]\<rparr> | None \<Rightarrow> s1)"
    using run by (auto simp: merge_candidate_def split: Option.bind_splits)
  have frame: "same_frame ?s s1" using merge_total[of c ?s] merged by auto
  have arm: "arm_ok (ca_handle c) ?s (s1, k)" using merge_arm[OF merged] keeps by blast
  have same: "sy_pushes s1 = sy_pushes s" "sy_opts s1 = sy_opts s" "sy_collection s1 = sy_collection s"
    "sy_merging s1 = Some m'" "sy_local s1 = sy_local s" "sy_state s1 = sy_state s"
    "sy_next_checkpoint s1 = sy_next_checkpoint s"
    using frame by (simp_all add: same_frame_def)
  have clean: "\<forall>op \<in> set (sy_writes s1). \<not> is_checkpoint op"
    using arm inv by (auto simp: arm_ok_def run_inv_def)
  have state: "sy_next_checkpoint s = None" "sy_merging s \<noteq> None"
    using inv m by (auto simp: run_inv_def)
  have old: "change_handle ch < ca_handle c \<and> (\<forall>h \<in> join_handles (mg_join m'). change_handle ch < h)
      \<and> push_allowed (sy_opts s) (ch_kind ch) \<and> ch = change_new (sy_collection s) (ch_kind ch)"
    if "ch \<in> set (sy_pushes s)" for ch
    using inv m that keeps unfolding run_inv_def todo_handles_def by auto
  have base: "sorted_wrt (<) (map change_handle (sy_pushes s))" "local_keyed (sy_local s)"
    using inv by (simp_all add: run_inv_def)
  have inv1: "run_inv s1"
    unfolding run_inv_def todo_handles_def same using clean state old base keeps by simp
  show ?thesis
  proof (cases k)
    case None
    with inv1 same s' show ?thesis by simp
  next
    case (Some kind)
    then have kind: "push_allowed (sy_opts s) kind" "kind_handle kind = ca_handle c"
      using arm by (simp_all add: arm_ok_def)
    have s'': "s' = s1\<lparr>sy_pushes := sy_pushes s @ [change_new (sy_collection s) kind]\<rparr>"
      using s' Some same by simp
    have "sorted_wrt (<) (map change_handle (sy_pushes s @ [change_new (sy_collection s) kind]))"
      using base old kind by (simp add: sorted_wrt_append)
    then have "run_inv s'"
      unfolding s'' run_inv_def todo_handles_def using clean state old base(2) keeps kind same by simp
    with same s'' show ?thesis by simp
  qed
qed

lemma merge_step_inv:
  "run_inv s \<Longrightarrow> sy_merging s \<noteq> None \<Longrightarrow> merge_step s = Some (s', r) \<Longrightarrow>
     run_inv s' \<and> (\<exists>y. r = Yielded y \<and> yield_ok s' y)
     \<and> sy_opts s' = sy_opts s \<and> sy_collection s' = sy_collection s"
proof (induction s arbitrary: s' r rule: merge_step.induct)
  case (1 s)
  obtain m where m: "sy_merging s = Some m" using "1.prems"(2) by auto
  obtain c m' where next_m: "merging_next m = (c, m')" by fastforce
  define s1 where "s1 = s\<lparr>sy_merging := Some m'\<rparr>"
  have next_s: "next_candidate s = (c, s1)"
    using m next_m by (simp add: next_candidate_def s1_def)
  have wf: "join_wf (mg_join m)" "local_keyed (jn_local (mg_join m))"
    using "1.prems"(1) m by (simp_all add: run_inv_def)
  show ?case
  proof (cases c)
    case None
    let ?s = "s1\<lparr>sy_merging := None, sy_next_checkpoint := Some (mg_checkpoint m')\<rparr>"
    have step: "sync_step ?s = (s', r)"
      using next_s None "1.prems"(3) by (simp add: merge_step.simps[of s] s1_def)
    have "run_inv ?s"
      using "1.prems"(1) m by (simp add: run_inv_def todo_handles_def s1_def)
    from sync_step_inv[OF this _ step] show ?thesis by (simp add: s1_def)
  next
    case (Some c0)
    obtain s2 where s2: "merge_candidate c0 s1 = Some s2"
      using merge_candidate_total[of c0 s1] by metis
    have kept: "run_inv s2" "sy_opts s2 = sy_opts s" "sy_collection s2 = sy_collection s" "sy_merging s2 = Some m'"
      using run_inv_merged[OF "1.prems"(1) m _ s2[unfolded s1_def]] next_m Some by simp_all
    show ?thesis
    proof (cases "WRITE_CHUNK \<le> length (sy_writes s2)")
      case True
      let ?s = "s2\<lparr>sy_state := SyMerging\<rparr>"
      have inv: "run_inv ?s" using kept(1) by (simp add: run_inv_def todo_handles_def)
      then have clean: "\<forall>op \<in> set (sy_writes ?s). \<not> is_checkpoint op" "sy_next_checkpoint ?s = None"
        using kept(4) by (simp_all add: run_inv_def)
      have "s' = fst (batch ?s)" "r = Yielded (WantsWrite (snd (batch ?s)))"
        using "1.prems"(3) next_s Some s2 True
        by (simp_all add: merge_step.simps[of s] case_prod_unfold Let_def)
      with run_inv_batch[OF inv] batch_ops(4)[OF clean(1)] clean(2) kept show ?thesis
        by (auto simp: yield_ok_def)
    next
      case False
      with next_s Some s2 "1.prems"(3) have "merge_step s2 = Some (s', r)"
        by (simp add: merge_step.simps[of s])
      with "1.IH"[OF next_s[symmetric] Some s2 False kept(1)] kept show ?thesis by simp
    qed
  qed
qed

text \<open>Settling a chunk only upserts and drops.\<close>

lemma settle_frames:
  "same_frame s (fst (settle_flags r s))" "same_frame s (fst (settle_content r s))"
  "same_frame s (fst (settle_drop r s))" "same_frame s (fst (settle_create r s))"
  by (simp add: same_frame_def settle_flags_def recording pulling_defs split: option.split,
      simp add: same_frame_def settle_content_def recording pulling_defs split: option.split,
      simp add: same_frame_def settle_drop_def recording,
      simp add: same_frame_def settle_create_def recording pulling_defs Let_def split: option.split)

lemma settle_result_frame: "same_frame s (settle_result r s)"
proof (cases "pr_outcome r")
  case Accepted
  let ?s1 = "fst (settle_flags r s)"
  let ?s2 = "fst (settle_content r ?s1)"
  let ?s3 = "fst (settle_drop r ?s2)"
  have "same_frame s (fst (settle_create r ?s3))"
    by (rule same_frame_trans[OF settle_frames(1) same_frame_trans[OF settle_frames(2)
          same_frame_trans[OF settle_frames(3,4)]]])
  with Accepted show ?thesis
    by (simp add: settle_result_def Let_def case_prod_unfold same_frame_def)
qed (simp add: settle_result_def same_frame_def)

lemma settle_writes:
  "\<forall>op \<in> set (sy_writes (fst (settle_flags r s))). op \<in> set (sy_writes s) \<or> \<not> is_checkpoint op"
  "\<forall>op \<in> set (sy_writes (fst (settle_content r s))). op \<in> set (sy_writes s) \<or> \<not> is_checkpoint op"
  "\<forall>op \<in> set (sy_writes (fst (settle_drop r s))). op \<in> set (sy_writes s) \<or> \<not> is_checkpoint op"
  "\<forall>op \<in> set (sy_writes (fst (settle_create r s))). op \<in> set (sy_writes s) \<or> \<not> is_checkpoint op"
  by (auto simp: settle_flags_def settle_content_def settle_drop_def settle_create_def
        recording pulling_defs Let_def split: option.splits)

lemma settle_result_clean:
  assumes "\<forall>op \<in> set (sy_writes s). \<not> is_checkpoint op"
  shows "\<forall>op \<in> set (sy_writes (settle_result r s)). \<not> is_checkpoint op"
proof (cases "pr_outcome r")
  case Accepted
  let ?s1 = "fst (settle_flags r s)"
  let ?s2 = "fst (settle_content r ?s1)"
  let ?s3 = "fst (settle_drop r ?s2)"
  have "\<forall>op \<in> set (sy_writes (fst (settle_create r ?s3))). \<not> is_checkpoint op"
    using assms settle_writes by blast
  with Accepted show ?thesis by (simp add: settle_result_def Let_def case_prod_unfold)
qed (use assms in \<open>simp add: settle_result_def\<close>)

lemma settle_result_inv: "run_inv s \<Longrightarrow> run_inv (settle_result r s)"
  using settle_result_clean[of s r] settle_result_frame[of s r]
  by (simp add: run_inv_def todo_handles_def same_frame_def)

lemma settle_results_inv:
  "run_inv s \<Longrightarrow> run_inv (fold settle_result rs s) \<and> same_frame s (fold settle_result rs s)"
proof (induction rs arbitrary: s)
  case (Cons r rs)
  from Cons.IH[OF settle_result_inv[OF Cons.prems]] settle_result_frame[of s r] show ?case
    by (auto intro: same_frame_trans)
qed (simp add: same_frame_def)

lemma forget_pendings_inv:
  "run_inv s \<Longrightarrow> run_inv (fold forget_pending hs s) \<and> sy_opts (fold forget_pending hs s) = sy_opts s
     \<and> sy_collection (fold forget_pending hs s) = sy_collection s
     \<and> sy_merging (fold forget_pending hs s) = sy_merging s"
proof (induction hs arbitrary: s)
  case (Cons h hs)
  have "run_inv (forget_pending h s)"
    using Cons.prems by (rule run_inv_same) (simp_all add: forget_pending_def)
  from Cons.IH[OF this] show ?case by (simp add: forget_pending_def)
qed simp

lemma settle_chunk_inv:
  assumes "run_inv s"
  shows "run_inv (settle_chunk rs s) \<and> sy_opts (settle_chunk rs s) = sy_opts s
    \<and> sy_collection (settle_chunk rs s) = sy_collection s \<and> sy_merging (settle_chunk rs s) = sy_merging s"
proof -
  note results = settle_results_inv[OF assms, of rs]
  have "run_inv ((fold settle_result rs s)\<lparr>sy_in_flight := []\<rparr>)"
    by (rule run_inv_same) (use results in simp_all)
  from forget_pendings_inv[OF this, of "sy_in_flight (fold settle_result rs s)"] results show ?thesis
    by (simp add: settle_chunk_def Let_def same_frame_def)
qed

section \<open>Every step of every run\<close>

text \<open>Where the merge stands in each state.\<close>

definition phase_ok :: "sync \<Rightarrow> bool" where
  "phase_ok s \<longleftrightarrow>
     (case sy_state s of
        SyMerging \<Rightarrow> sy_merging s \<noteq> None
      | SyPendingPush \<Rightarrow> sy_merging s = None
      | SyPendingWrite \<Rightarrow> sy_merging s = None
      | SyDone \<Rightarrow> sy_merging s = None
      | _ \<Rightarrow> sy_merging s = None \<and> sy_pushes s = [] \<and> sy_next_checkpoint s = None)"

lemma sync_step_phase: "sy_merging s = None \<Longrightarrow> sync_step s = (s', r) \<Longrightarrow> phase_ok s'"
  by (auto simp: sync_step_def phase_ok_def Let_def case_prod_unfold split: if_splits)

lemma merge_step_phase:
  "sy_merging s \<noteq> None \<Longrightarrow> merge_step s = Some (s', r) \<Longrightarrow> phase_ok s'"
proof (induction s arbitrary: s' r rule: merge_step.induct)
  case (1 s)
  obtain m where m: "sy_merging s = Some m" using "1.prems"(1) by auto
  obtain c m' where next_m: "merging_next m = (c, m')" by fastforce
  define s1 where "s1 = s\<lparr>sy_merging := Some m'\<rparr>"
  have next_s: "next_candidate s = (c, s1)" using m next_m by (simp add: next_candidate_def s1_def)
  show ?case
  proof (cases c)
    case None
    then have "sync_step (s1\<lparr>sy_merging := None, sy_next_checkpoint := Some (mg_checkpoint m')\<rparr>) = (s', r)"
      using next_s "1.prems"(2) by (simp add: merge_step.simps[of s] s1_def)
    from sync_step_phase[OF _ this] show ?thesis by simp
  next
    case (Some c0)
    obtain s2 where s2: "merge_candidate c0 s1 = Some s2" "sy_merging s2 = sy_merging s1"
      using merge_candidate_total[of c0 s1] by metis
    show ?thesis
    proof (cases "WRITE_CHUNK \<le> length (sy_writes s2)")
      case True
      with next_s Some s2 "1.prems"(2) have "s' = fst (batch (s2\<lparr>sy_state := SyMerging\<rparr>))"
        by (simp add: merge_step.simps[of s] case_prod_unfold Let_def)
      with s2(2) show ?thesis by (simp add: phase_ok_def s1_def)
    next
      case False
      with next_s Some s2 "1.prems"(2) have "merge_step s2 = Some (s', r)"
        by (simp add: merge_step.simps[of s])
      with "1.IH"[OF next_s[symmetric] Some s2(1) False] s2(2) show ?thesis by (simp add: s1_def)
    qed
  qed
qed

lemma open_merge_inv:
  assumes "run_inv s" "sy_state s = SyPendingEnumerate" "phase_ok s"
  shows "run_inv (open_merge sn s) \<and> sy_opts (open_merge sn s) = sy_opts s
    \<and> sy_collection (open_merge sn s) = sy_collection s"
  using assms snapshot_items_sorted
  by (simp add: run_inv_def phase_ok_def open_merge_def todo_handles_def join_wf_def join_new_def local_keyed_def)

definition run_step_ok :: "sync \<Rightarrow> sync \<Rightarrow> (yield, arg_error + sync_report) cstate \<Rightarrow> bool" where
  "run_step_ok s s' r \<longleftrightarrow>
     run_inv s' \<and> phase_ok s' \<and> sy_opts s' = sy_opts s \<and> sy_collection s' = sy_collection s
     \<and> (\<forall>y. r = Yielded y \<longrightarrow> yield_ok s' y)"

lemma sync_resume_step:
  assumes inv: "run_inv s" and ph: "phase_ok s" and run: "sync_resume s a = Some (s', r)"
  shows "run_step_ok s s' r"
proof -
  have stay: "run_step_ok s s (Complete (Inl e))" for e
    using inv ph by (simp add: run_step_ok_def)
  show ?thesis
  proof (cases "sy_state s")
    case SyStart
    have "run_inv (s\<lparr>sy_state := SyPendingLoad\<rparr>)" by (rule run_inv_same[OF inv]) simp_all
    with SyStart run ph stay show ?thesis
      by (auto simp: sync_resume_def run_step_ok_def yield_ok_def phase_ok_def split: option.splits)
  next
    case SyPendingLoad
    with run stay inv ph show ?thesis
      by (auto simp: sync_resume_def run_step_ok_def yield_ok_def phase_ok_def run_inv_def
            todo_handles_def local_keyed_collect Let_def split: option.splits arg.splits)
  next
    case SyPendingEnumerate
    have step: "run_step_ok s s' r" if "merge_step (open_merge sn s) = Some (s', r)" for sn
      using merge_step_inv[OF _ open_merge_merging that] merge_step_phase[OF open_merge_merging that]
        open_merge_inv[OF inv SyPendingEnumerate ph, of sn]
      by (auto simp: run_step_ok_def)
    from SyPendingEnumerate run stay step show ?thesis
      by (auto simp: sync_resume_def split: option.splits arg.splits)
  next
    case SyMerging
    then have merging: "sy_merging s \<noteq> None" using ph by (simp add: phase_ok_def)
    have step: "run_step_ok s s' r" if "merge_step s = Some (s', r)"
      using merge_step_inv[OF inv merging that] merge_step_phase[OF merging that]
      by (auto simp: run_step_ok_def)
    from SyMerging run stay step show ?thesis
      by (auto simp: sync_resume_def split: option.splits arg.splits)
  next
    case SyPendingPush
    have step: "run_step_ok s (fst (batch c)) (Yielded (WantsWrite (snd (batch c))))"
      if c: "c = (settle_chunk rs s)\<lparr>sy_state := SyPendingWrite\<rparr>" for rs c
    proof -
      note settled = settle_chunk_inv[OF inv, of rs]
      have inv_c: "run_inv c" unfolding c by (rule run_inv_same[OF conjunct1[OF settled]]) simp_all
      then have "\<forall>op \<in> set (sy_writes c). \<not> is_checkpoint op" by (simp add: run_inv_def)
      with batch_ops(4)[OF this] run_inv_batch[OF inv_c] settled SyPendingPush ph show ?thesis
        by (auto simp: c run_step_ok_def yield_ok_def phase_ok_def)
    qed
    from SyPendingPush run stay step show ?thesis
      by (auto simp: sync_resume_def Let_def case_prod_unfold split: option.splits arg.splits)
  next
    case SyPendingWrite
    then have merging: "sy_merging s = None" using ph by (simp add: phase_ok_def)
    have step: "run_step_ok s s' r" if "sync_step s = (s', r)"
      using sync_step_inv[OF inv merging that] sync_step_phase[OF merging that]
      by (auto simp: run_step_ok_def)
    have finished: "run_inv (s\<lparr>sy_state := SyDone, sy_report := sync_report_default\<rparr>)"
      by (rule run_inv_same[OF inv]) simp_all
    from SyPendingWrite run stay step finished merging show ?thesis
      by (auto simp: sync_resume_def run_step_ok_def phase_ok_def split: option.splits arg.splits if_splits)
  next
    case SyDone
    with run stay show ?thesis by (auto simp: sync_resume_def split: option.splits)
  qed
qed

lemma sync_reaches:
  "reaches sync_resume (sync_new coll opts) s \<Longrightarrow>
     run_inv s \<and> phase_ok s \<and> sy_opts s = opts \<and> sy_collection s = coll"
proof (induction rule: reaches.induct)
  case reaches_refl
  show ?case by (simp add: run_inv_new) (simp add: phase_ok_def sync_new_def)
next
  case (reaches_step s a s' r)
  then show ?case using sync_resume_step[of s a s' r] by (simp add: run_step_ok_def)
qed

lemma sync_yields_ok:
  assumes "reaches sync_resume (sync_new coll opts) s" "sync_resume s a = Some (s', Yielded y)"
  shows "yield_ok s' y \<and> sy_opts s' = opts \<and> sy_collection s' = coll \<and> phase_ok s'"
  using sync_reaches[OF assms(1)] sync_resume_step[OF _ _ assms(2)] by (simp add: run_step_ok_def)

text \<open>A run whose collection holds one pending create and whose remote is empty.\<close>

definition sample_create :: placement where
  "sample_create = (sample_placement ''1'')\<lparr>p_status := Created, p_base := None\<rparr>"

definition sample_run :: "arg option list" where
  "sample_run =
     [None, Some (ArgLoad \<lparr>ld_placements = [sample_create], ld_checkpoint = None\<rparr>),
      Some (ArgEnumerate \<lparr>rs_items = [], rs_vanished = [], rs_complete = True, rs_checkpoint = Checkpoint [1]\<rparr>)]"

text \<open>The state a list of arguments leads to, and what the last of them yielded.\<close>

fun drive :: "sync \<Rightarrow> arg option list \<Rightarrow> (sync \<times> (yield, arg_error + sync_report) cstate) option" where
  "drive s [] = None"
| "drive s [a] = sync_resume s a"
| "drive s (a # as) = (case sync_resume s a of Some (s', _) \<Rightarrow> drive s' as | None \<Rightarrow> None)"

lemma drive_reaches:
  "drive s as = Some (s', r) \<Longrightarrow> reaches sync_resume s0 s \<Longrightarrow>
     \<exists>s1. reaches sync_resume s0 s1 \<and> sync_resume s1 (last as) = Some (s', r)"
proof (induction s as rule: drive.induct)
  case (3 s a b as)
  then obtain s2 x where step: "sync_resume s a = Some (s2, x)" "drive s2 (b # as) = Some (s', r)"
    by (auto split: option.splits)
  with "3.IH"[of "(s2, x)" s2 x] reaches_step[OF "3.prems"(2)] show ?case by simp
qed auto

abbreviation sample_sync :: sync where
  "sample_sync \<equiv> sync_new (CollectionId ''inbox'') sync_options_default"

lemma sample_drive:
  "\<exists>s'. drive sample_sync sample_run = Some (s', Yielded (WantsPush (CollectionId ''inbox'')
     [change_new (CollectionId ''inbox'')
        (Add (Handle ''1'') (Some (LinkId ''1'')) flags_default None (Some (Hash ''x'')))]))"
  by (simp add: sample_run_def sample_create_def sample_defs sync_resume_def sync_new_def
        bt_collect_def sync_options_default_def open_merge_def snapshot_items_def join_new_def
        merge_step.simps next_candidate_def merging_next.simps join_next_def merge_candidate_def
        merge_table merge_created_def may_push_add_def push_rights_all_def WRITE_CHUNK_def
        sync_step_def PUSH_CHUNK_def Let_def)

lemma sample_drive_push:
  "\<exists>s'. drive sample_sync (sample_run @ [Some (ArgPush [])])
     = Some (s', Yielded (WantsWrite [SetCheckpoint (CollectionId ''inbox'') (Checkpoint [1])]))"
  by (simp add: sample_run_def sample_create_def sample_defs sync_resume_def sync_new_def
        bt_collect_def sync_options_default_def open_merge_def snapshot_items_def join_new_def
        merge_step.simps next_candidate_def merging_next.simps join_next_def merge_candidate_def
        merge_table merge_created_def may_push_add_def push_rights_all_def WRITE_CHUNK_def
        sync_step_def PUSH_CHUNK_def settle_chunk_def forget_pending_def batch_def Let_def)

text \<open>
  C12: what a run pushes. In every run, whatever the driver feeds it, a chunk names the run's
  collection, is never empty and never over the bound, and holds changes in strictly
  increasing handle order, all below the ones left for later chunks: one change per handle,
  each pushed once. Every change is of a kind the options allow (so a run that may not push
  pushes nothing) and carries the key derived from it.
\<close>

theorem sync_pushes_within_rights:
  assumes "reaches sync_resume (sync_new coll opts) s"
    "sync_resume s a = Some (s', Yielded (WantsPush c chs))"
  shows "c = coll \<and> chs \<noteq> [] \<and> length chs \<le> PUSH_CHUNK \<and> opt_push opts
    \<and> sorted_wrt (<) (map change_handle chs)
    \<and> (\<forall>ch \<in> set chs. push_allowed opts (ch_kind ch) \<and> ch_key ch = kind_key (ch_kind ch) coll
         \<and> (\<forall>ch' \<in> set (sy_pushes s'). change_handle ch < change_handle ch'))"
proof -
  have ok: "yield_ok s' (WantsPush c chs)" "sy_opts s' = opts" "sy_collection s' = coll"
    using sync_yields_ok[OF assms] by simp_all
  then obtain ch where "ch \<in> set chs" "push_allowed opts (ch_kind ch)"
    by (cases chs) (auto simp: yield_ok_def)
  then have "opt_push opts"
    by (cases "ch_kind ch") (simp_all add: may_push_flags_def may_push_content_def may_push_add_def may_push_remove_def)
  with ok show ?thesis by (simp add: yield_ok_def)
qed

theorem sync_pushes_within_rights_witness:
  "push_allowed sync_options_default
     (Add (Handle ''1'') (Some (LinkId ''1'')) flags_default None (Some (Hash ''x'')))"
proof -
  obtain s' where d: "drive sample_sync sample_run = Some (s', Yielded (WantsPush (CollectionId ''inbox'')
      [change_new (CollectionId ''inbox'')
        (Add (Handle ''1'') (Some (LinkId ''1'')) flags_default None (Some (Hash ''x'')))]))"
    using sample_drive by blast
  from drive_reaches[OF d reaches_refl] obtain s1 where
    s1: "reaches sync_resume sample_sync s1" "sync_resume s1 (last sample_run) = Some (s',
      Yielded (WantsPush (CollectionId ''inbox'') [change_new (CollectionId ''inbox'')
        (Add (Handle ''1'') (Some (LinkId ''1'')) flags_default None (Some (Hash ''x'')))]))"
    by blast
  from sync_pushes_within_rights[OF s1] show ?thesis by simp
qed

text \<open>
  C9: the checkpoint closes the run. In every run, a batch that records a checkpoint holds it
  last, there is no merge in progress and no change left to push when it is written, and the
  run completes once it is: a run interrupted before has recorded no cursor that claims its
  unrecorded pushes were seen.
\<close>

theorem sync_checkpoint_closes_run:
  assumes "reaches sync_resume (sync_new coll opts) s"
    "sync_resume s a = Some (s', Yielded (WantsWrite ops))" "SetCheckpoint c ck \<in> set ops"
  shows "last ops = SetCheckpoint c ck \<and> sy_merging s' = None \<and> sy_pushes s' = []
    \<and> (\<exists>s''. sync_resume s' (Some ArgWrite) = Some (s'', Complete (Inr (sy_report s'))))"
proof -
  have "\<forall>op \<in> set ops. is_checkpoint op \<longrightarrow>
      op = last ops \<and> sy_state s' = SyPendingWrite \<and> sy_pushes s' = [] \<and> sy_merging s' = None"
    using sync_yields_ok[OF assms(1,2)] by (simp add: yield_ok_def)
  from bspec[OF this assms(3)] have "SetCheckpoint c ck = last ops" "sy_state s' = SyPendingWrite"
    "sy_pushes s' = []" "sy_merging s' = None"
    by simp_all
  then show ?thesis by (simp add: sync_resume_def)
qed

theorem sync_checkpoint_closes_run_witness:
  "\<exists>s' s''. sync_resume s' (Some ArgWrite) = Some (s'', Complete (Inr (sy_report s')))"
proof -
  obtain s' where d: "drive sample_sync (sample_run @ [Some (ArgPush [])])
      = Some (s', Yielded (WantsWrite [SetCheckpoint (CollectionId ''inbox'') (Checkpoint [1])]))"
    using sample_drive_push by blast
  from drive_reaches[OF d reaches_refl] obtain s1 where
    s1: "reaches sync_resume sample_sync s1" "sync_resume s1 (last (sample_run @ [Some (ArgPush [])]))
      = Some (s', Yielded (WantsWrite [SetCheckpoint (CollectionId ''inbox'') (Checkpoint [1])]))"
    by blast
  from sync_checkpoint_closes_run[OF s1, of "CollectionId ''inbox''" "Checkpoint [1]"] show ?thesis
    by auto
qed

text \<open>
  C36: a run that succeeded stays completed. Once a sync has answered its report, nothing brings
  it back: every later resume leaves it as it is and answers an argument error, never a report.
  With an argument the error is the documented one, that the argument is unexpected. With none
  the code diverges from its documentation, which promises the same error for every resume
  after completion: the code answers that an argument is missing.
\<close>

theorem sync_completed_stays_completed:
  assumes "reaches sync_resume (sync_new coll opts) s"
    "sync_resume s a = Some (s', Complete (Inr report))" "reaches sync_resume s' s''"
  shows "s'' = s'
    \<and> sync_resume s'' (Some x) = Some (s'', Complete (Inl UnexpectedArg))
    \<and> sync_resume s'' None = Some (s'', Complete (Inl MissingArg))"
proof -
  have "sync_inv s"
    using syn.reaches_inv[OF assms(1)] by (simp add: sync_new_def sync_inv_def)
  from syn.completed_stays_completed[OF this assms(2,3)]
  have "s'' = s' \<and> sync_resume s'' b = Some (s'', Complete (Inl (bad_arg b)))" for b .
  from this[of "Some x"] this[of None] show ?thesis by auto
qed

lemma sample_drive_done:
  "\<exists>s'. drive sample_sync (sample_run @ [Some (ArgPush []), Some ArgWrite])
     = Some (s', Complete (Inr sync_report_default))"
  by (simp add: sample_run_def sample_create_def sample_defs sync_resume_def sync_new_def
        bt_collect_def sync_options_default_def open_merge_def snapshot_items_def join_new_def
        merge_step.simps next_candidate_def merging_next.simps join_next_def merge_candidate_def
        merge_table merge_created_def may_push_add_def push_rights_all_def WRITE_CHUNK_def
        sync_step_def PUSH_CHUNK_def settle_chunk_def forget_pending_def batch_def Let_def)

theorem sync_completed_stays_completed_witness:
  "\<exists>s'. sync_resume s' (Some ArgWrite) = Some (s', Complete (Inl UnexpectedArg))"
proof -
  obtain s' where d: "drive sample_sync (sample_run @ [Some (ArgPush []), Some ArgWrite])
      = Some (s', Complete (Inr sync_report_default))"
    using sample_drive_done by blast
  from drive_reaches[OF d reaches_refl] obtain s1 where
    s1: "reaches sync_resume sample_sync s1"
      "sync_resume s1 (last (sample_run @ [Some (ArgPush []), Some ArgWrite]))
        = Some (s', Complete (Inr sync_report_default))"
    by blast
  from sync_completed_stays_completed[OF s1 reaches_refl, of ArgWrite] show ?thesis by blast
qed

end
