(* ===== verification/Sync_Bounds.thy ===== *)
theory Sync_Bounds
  imports Sync_Laws
begin

text \<open>
  How large the requests of a SYNC run get: how many writes one candidate or one outcome may
  add, and from there the size of every batch and every push chunk of a run.
\<close>

section \<open>The writes of one candidate\<close>

abbreviation pending :: "sync \<Rightarrow> nat" where
  "pending s \<equiv> length (sy_writes s)"

lemma reconcile_flags_writes: "pending (fst (reconcile_flags p item allow s)) \<le> pending s + 1"
  by (auto simp: reconcile_flags_def Let_def recording pulling_defs split: option.split)

lemma resolve_conflict_writes: "resolve_conflict p item s = Some r \<Longrightarrow> pending (fst r) \<le> pending s + 2"
  by (auto simp: resolve_conflict_def Let_def recording pulling_defs
        split: conflict_policy.splits if_splits Option.bind_splits)

lemma reconcile_content_writes: "reconcile_content p item s = Some r \<Longrightarrow> pending (fst r) \<le> pending s + 2"
  using resolve_conflict_writes[of p item s r]
  by (auto simp: reconcile_content_def Let_def recording pulling_defs
        split: option.splits if_splits Option.bind_splits)

lemma merge_present_writes:
  assumes "merge_present p item s = Some r" shows "pending (fst r) \<le> pending s + 3"
proof -
  obtain s1 out where c: "reconcile_content p item s = Some (s1, out)"
    using assms by (auto simp: merge_present_def split: Option.bind_splits)
  then have "pending s1 \<le> pending s + 2" using reconcile_content_writes by fastforce
  then have two: "pending (fst (reconcile_flags q item allow s1)) \<le> pending s + 3" for q allow
    using reconcile_flags_writes[of q item allow s1] by simp
  show ?thesis using assms c two by (cases out) (auto simp: merge_present_def case_prod_unfold Let_def)
qed

lemma merge_writes: "merge c s = Some r \<Longrightarrow> pending (fst r) \<le> pending s + 3"
  by (auto simp: merge_table merge_deleted_def merge_vanished_def merge_created_def Let_def recording pulling_defs
        dest: merge_present_writes split: option.splits if_splits delete_policy.splits Option.bind_splits)

lemma merge_candidate_writes: "merge_candidate c s = Some s' \<Longrightarrow> pending s' \<le> pending s + 3"
  by (auto simp: merge_candidate_def dest!: merge_writes split: Option.bind_splits option.splits)

section \<open>The writes of one outcome\<close>

lemma settle_sizes:
  "pending (fst (settle_flags r s)) \<le> pending s + 1"
  "pending (fst (settle_content r s)) \<le> pending s + 1"
  "pending (fst (settle_drop r s)) \<le> pending s + 1"
  "pending (fst (settle_create r s)) \<le> pending s + 2"
  by (auto simp: settle_flags_def settle_content_def settle_drop_def settle_create_def Let_def
        recording pulling_defs split: option.split)

lemma settle_result_writes: "pending (settle_result r s) \<le> pending s + 5"
proof -
  define s1 where "s1 = fst (settle_flags r s)"
  define s2 where "s2 = fst (settle_content r s1)"
  define s3 where "s3 = fst (settle_drop r s2)"
  have "pending (fst (settle_create r s3)) \<le> pending s + 5"
    using settle_sizes(4)[of r s3] settle_sizes(3)[of r s2] settle_sizes(2)[of r s1] settle_sizes(1)[of r s]
    by (simp add: s3_def s2_def s1_def)
  then show ?thesis
    by (cases "pr_outcome r") (simp_all add: settle_result_def Let_def case_prod_unfold s3_def s2_def s1_def)
qed

lemma settle_chunk_writes: "pending (settle_chunk results s) \<le> pending s + 5 * length results"
proof -
  have fold: "pending (fold settle_result results s) \<le> pending s + 5 * length results"
  proof (induction results arbitrary: s)
    case (Cons r results)
    show ?case using Cons[of "settle_result r s"] settle_result_writes[of r s] by simp
  qed simp
  have "sy_writes (fold forget_pending hs s) = sy_writes s" for hs s
    by (induction hs arbitrary: s) (simp_all add: forget_pending_def)
  with fold show ?thesis by (simp add: settle_chunk_def Let_def)
qed

section \<open>The size of a request\<close>

lemma batch_size:
  "pending (fst (batch s)) = 0" "length (snd (batch s)) \<le> pending s + 1"
  "sy_pushes s \<noteq> [] \<or> sy_next_checkpoint s = None \<Longrightarrow> length (snd (batch s)) = pending s"
  by (auto simp: batch_def Let_def split: option.split)

text \<open>What a yield may carry, \<open>n\<close> outcomes having just been settled.\<close>

definition sized :: "nat \<Rightarrow> sync \<Rightarrow> yield \<Rightarrow> bool" where
  "sized n s y \<longleftrightarrow>
     pending s < WRITE_CHUNK
     \<and> (case y of
          WantsWrite ops \<Rightarrow>
            (if sy_state s = SyMerging then WRITE_CHUNK \<le> length ops \<and> length ops \<le> WRITE_CHUNK + 2
             else length ops \<le> WRITE_CHUNK + 5 * n)
        | WantsPush c chs \<Rightarrow> chs \<noteq> [] \<and> length chs \<le> PUSH_CHUNK
        | _ \<Rightarrow> True)"

lemma sized_mono: "sized 0 s y \<Longrightarrow> sized n s y"
  by (cases y) (simp_all add: sized_def split: if_split_asm)

lemma sized_small: "sized n s y \<Longrightarrow> pending s < WRITE_CHUNK"
  by (simp add: sized_def)

lemma WRITE_CHUNK_pos [simp]: "0 < WRITE_CHUNK"
  by (simp add: WRITE_CHUNK_def)

lemma sync_step_sized:
  assumes "pending s < WRITE_CHUNK" shows "\<exists>s' y. sync_step s = (s', Yielded y) \<and> sized 0 s' y"
proof (cases "sy_pushes s = []")
  case True
  with assms batch_size(1,2)[of "s\<lparr>sy_state := SyPendingWrite\<rparr>"] show ?thesis
    by (simp add: sync_step_def sized_def case_prod_unfold Let_def)
next
  case False
  with assms show ?thesis by (simp add: sync_step_def sized_def Let_def)
qed

lemma merge_step_sized:
  "pending s < WRITE_CHUNK \<Longrightarrow> sy_merging s \<noteq> None \<Longrightarrow> sy_next_checkpoint s = None \<Longrightarrow>
     \<exists>s' y. merge_step s = Some (s', Yielded y) \<and> sized 0 s' y"
proof (induction s rule: merge_step.induct)
  case (1 s)
  obtain m where m: "sy_merging s = Some m" using "1.prems" by auto
  obtain c m' where next_m: "merging_next m = (c, m')" by fastforce
  define s1 where "s1 = s\<lparr>sy_merging := Some m'\<rparr>"
  have next_s: "next_candidate s = (c, s1)" using m next_m by (simp add: next_candidate_def s1_def)
  show ?case
  proof (cases c)
    case None
    have "merge_step s = Some (sync_step (s1\<lparr>sy_merging := None, sy_next_checkpoint := Some (mg_checkpoint m')\<rparr>))"
      using next_s None by (simp add: merge_step.simps[of s] s1_def)
    with sync_step_sized[of "s1\<lparr>sy_merging := None, sy_next_checkpoint := Some (mg_checkpoint m')\<rparr>"] "1.prems"(1)
    show ?thesis by (simp add: s1_def)
  next
    case (Some c0)
    obtain s' k where "merge c0 s1 = Some (s', k)" "same_frame s1 s'" using merge_total by blast
    then obtain s2 where s2: "merge_candidate c0 s1 = Some s2" "sy_merging s2 = Some m'" "sy_next_checkpoint s2 = None"
      using "1.prems"(3) by (cases k) (auto simp: merge_candidate_def same_frame_def s1_def)
    have grown: "pending s2 \<le> pending s + 3" using merge_candidate_writes[OF s2(1)] by (simp add: s1_def)
    show ?thesis
    proof (cases "WRITE_CHUNK \<le> pending s2")
      case True
      with next_s Some s2(1)
      have "merge_step s = (let (s, b) = batch (s2\<lparr>sy_state := SyMerging\<rparr>) in Some (s, Yielded (WantsWrite b)))"
        by (simp add: merge_step.simps[of s])
      then show ?thesis
        using True grown "1.prems"(1) s2(3) batch_size(1,3)[of "s2\<lparr>sy_state := SyMerging\<rparr>"]
        by (simp add: sized_def case_prod_unfold Let_def)
    next
      case False
      with next_s Some s2(1) have "merge_step s = merge_step s2" by (simp add: merge_step.simps[of s])
      with "1.IH"[OF next_s[symmetric] Some s2(1) False] False s2 show ?thesis by simp
    qed
  qed
qed

text \<open>The outcomes an argument brings.\<close>

fun settled_count :: "arg option \<Rightarrow> nat" where
  "settled_count (Some (ArgPush results)) = length results"
| "settled_count _ = 0"

lemma sync_resume_sized:
  assumes inv: "run_inv s" "phase_ok s" and small: "pending s < WRITE_CHUNK"
    and run: "sync_resume s a = Some (s', r)"
  shows "pending s' < WRITE_CHUNK \<and> (\<forall>y. r = Yielded y \<longrightarrow> sized (settled_count a) s' y)"
proof -
  have merged: "pending s' < WRITE_CHUNK \<and> (\<forall>y. r = Yielded y \<longrightarrow> sized n s' y)"
    if "merge_step s1 = Some (s', r)" "pending s1 < WRITE_CHUNK" "sy_merging s1 \<noteq> None" "sy_next_checkpoint s1 = None"
    for s1 n
  proof -
    from that obtain y where "r = Yielded y" "sized 0 s' y" using merge_step_sized[of s1] by auto
    then show ?thesis using sized_mono sized_small by blast
  qed
  show ?thesis
  proof (cases "sy_state s")
    case SyPendingLoad
    with run small show ?thesis
      by (auto simp: sync_resume_def sized_def Let_def split: option.splits arg.splits)
  next
    case SyPendingEnumerate
    with inv have "sy_next_checkpoint s = None" by (simp add: phase_ok_def)
    then have "sy_next_checkpoint (open_merge sn s) = None" "pending (open_merge sn s) < WRITE_CHUNK" for sn
      using small by (simp_all add: open_merge_def)
    with SyPendingEnumerate run small merged[of "open_merge _ s"] show ?thesis
      by (auto simp: sync_resume_def split: option.splits arg.splits)
  next
    case SyMerging
    with inv have "sy_merging s \<noteq> None" "sy_next_checkpoint s = None" by (auto simp: phase_ok_def run_inv_def)
    with SyMerging run small merged[of s] show ?thesis
      by (auto simp: sync_resume_def split: option.splits arg.splits)
  next
    case SyPendingPush
    have "pending (fst (batch c)) < WRITE_CHUNK \<and> sized (length rs) (fst (batch c)) (WantsWrite (snd (batch c)))"
      if c: "c = (settle_chunk rs s)\<lparr>sy_state := SyPendingWrite\<rparr>" for rs c
      using settle_chunk_writes[of rs s] small batch_size(1,2)[of c] unfolding c by (simp add: sized_def)
    with SyPendingPush run small show ?thesis
      by (auto simp: sync_resume_def Let_def case_prod_unfold split: option.splits arg.splits)
  next
    case SyPendingWrite
    obtain s1 y where "sync_step s = (s1, Yielded y)" "sized 0 s1 y" using sync_step_sized[OF small] by blast
    with SyPendingWrite run small sized_small show ?thesis
      by (auto simp: sync_resume_def split: option.splits arg.splits if_splits)
  qed (use run small in \<open>auto simp: sync_resume_def sized_def split: option.splits\<close>)
qed

lemma reaches_small:
  "reaches sync_resume (sync_new coll opts) s \<Longrightarrow> pending s < WRITE_CHUNK"
proof (induction rule: reaches.induct)
  case (reaches_step s a s' r)
  then show ?case using sync_resume_sized[OF _ _ _ reaches_step.hyps(2)] sync_reaches by blast
qed (simp add: sync_new_def)

text \<open>
  C13: every request of a sync is bounded, whatever the remote and the storage answer. A batch
  cut in the middle of the merge holds at least 1024 operations and at most two more (a
  candidate writes three at most: the kept copy, the pulled body, the merged flags); every
  other batch holds at most 1024, plus five for each outcome just settled; a push holds
  between one and 64 changes; and fewer than 1024 operations are ever held back when the run
  hands control to its driver, so a sync of any collection runs in bounded memory for its
  writes.
\<close>

theorem sync_requests_bounded:
  assumes "reaches sync_resume (sync_new coll opts) s" "sync_resume s a = Some (s', Yielded y)"
  shows "length (sy_writes s') < 1024
    \<and> (case y of
         WantsWrite ops \<Rightarrow>
           (if sy_state s' = SyMerging then 1024 \<le> length ops \<and> length ops \<le> 1026
            else length ops \<le> 1024 + 5 * settled_count a)
       | WantsPush c chs \<Rightarrow> 1 \<le> length chs \<and> length chs \<le> 64
       | _ \<Rightarrow> True)"
proof -
  have "sized (settled_count a) s' y"
    using sync_resume_sized[OF _ _ reaches_small[OF assms(1)] assms(2)] sync_reaches[OF assms(1)] by blast
  then show ?thesis
    by (cases y) (simp_all add: sized_def WRITE_CHUNK_def PUSH_CHUNK_def Suc_le_eq split: if_split_asm)
qed

theorem sync_requests_bounded_witness:
  "\<exists>s' c chs. drive sample_sync sample_run = Some (s', Yielded (WantsPush c chs)) \<and> length chs \<le> 64"
proof -
  obtain s' c chs where run: "drive sample_sync sample_run = Some (s', Yielded (WantsPush c chs))"
    using sample_drive by blast
  obtain s where "reaches sync_resume sample_sync s"
    "sync_resume s (last sample_run) = Some (s', Yielded (WantsPush c chs))"
    using drive_reaches[OF run reaches_refl] by blast
  from sync_requests_bounded[OF this] run show ?thesis by auto
qed

end
