(* ===== verification/Open_Verb.thy ===== *)
theory Open_Verb
  imports Coroutine
begin

text \<open>
  The OPEN verb (\<open>open.rs\<close>): one load of the whole collection, handed straight back.
\<close>

datatype open_state = OpStart | OpPendingLoad | OpDone

record open_verb =
  ov_collection :: collection_id
  ov_state :: open_state

definition open_new :: "collection_id \<Rightarrow> open_verb" where
  "open_new coll = \<lparr>ov_collection = coll, ov_state = OpStart\<rparr>"

definition open_resume :: "open_verb \<Rightarrow> arg option \<Rightarrow> (open_verb, arg_error, loaded) step" where
  "open_resume self a =
     (case (ov_state self, a) of
        (OpStart, None) \<Rightarrow>
          Some (self\<lparr>ov_state := OpPendingLoad\<rparr>,
                Yielded (WantsLoad (ov_collection self) ScopeAll))
      | (OpPendingLoad, Some (ArgLoad loaded)) \<Rightarrow>
          Some (self\<lparr>ov_state := OpDone\<rparr>, Complete (Inr loaded))
      | (_, Some _) \<Rightarrow> Some (self, Complete (Inl UnexpectedArg))
      | (_, None) \<Rightarrow> Some (self, Complete (Inl MissingArg)))"

definition open_finished :: "open_verb \<Rightarrow> bool" where
  "open_finished self \<longleftrightarrow> ov_state self = OpDone"

fun open_rank :: "open_verb \<Rightarrow> nat \<times> nat" where
  "open_rank self = (case ov_state self of OpStart \<Rightarrow> 2 | OpPendingLoad \<Rightarrow> 1 | OpDone \<Rightarrow> 0, 0)"

interpretation opn: verb open_resume "\<lambda>_. True" open_rank open_finished "\<lambda>e. e"
proof (rule verbI)
  show "step_ok (\<lambda>_. True) open_rank open_finished c (open_resume c a)" for c a
    by (auto simp: open_resume_def open_finished_def split: open_state.splits option.splits arg.splits)
  show "open_finished c \<Longrightarrow> open_resume c a = Some (c, Complete (Inl (bad_arg a)))" for c a
    by (cases a) (auto simp: open_resume_def open_finished_def)
qed

text \<open>The arguments its states accept; it only ever asks the storage.\<close>

definition open_ready :: "open_verb \<Rightarrow> arg option \<Rightarrow> bool" where
  "open_ready self a \<longleftrightarrow>
     (case (ov_state self, a) of
        (OpStart, None) \<Rightarrow> True
      | (OpPendingLoad, Some (ArgLoad _)) \<Rightarrow> True
      | _ \<Rightarrow> False)"

interpretation opn_driven:
  offline_verb open_resume "\<lambda>_. True" open_rank open_finished "\<lambda>e. e" open_ready
  by unfold_locales
    (auto simp: open_resume_def open_ready_def elim!: answers.elims
       split: open_state.splits option.splits arg.splits)

end
