(* ===== verification/Upgrade.thy ===== *)
theory Upgrade
  imports Coroutine
begin

text \<open>
  The UPGRADE verb (\<open>upgrade.rs\<close>): raising placements to a higher detail level. It loads the
  targeted placements, links bodies the object store already holds, fetches the rest,
  checks fresh identities against the collection and writes, minting a key for the second
  copy of an identity.
\<close>

section \<open>State\<close>

record upgrade_report =
  ur_upgraded :: nat
  ur_fetched :: nat
  ur_deduped :: nat

definition upgrade_report_default :: upgrade_report where
  "upgrade_report_default = \<lparr>ur_upgraded = 0, ur_fetched = 0, ur_deduped = 0\<rparr>"

datatype upgrade_state =
  UpStart | UpPendingLoad | UpPendingLookup | UpPendingFetch | UpPendingLinkCheck | UpPendingWrite | UpDone

record upgrade =
  up_collection :: collection_id
  up_handles :: "handle list"
  up_tier :: tier
  up_placements :: "(handle, placement) btree_map"
  up_fetched :: "fetched_item list"
  up_ops :: "write_op list"
  up_report :: upgrade_report
  up_state :: upgrade_state

definition upgrade_new :: "collection_id \<Rightarrow> handle list \<Rightarrow> tier \<Rightarrow> upgrade" where
  "upgrade_new coll handles tier =
     \<lparr>up_collection = coll, up_handles = handles, up_tier = tier, up_placements = [],
      up_fetched = [], up_ops = [], up_report = upgrade_report_default, up_state = UpStart\<rparr>"

section \<open>Helpers\<close>

definition mint :: "link_id \<Rightarrow> handle \<Rightarrow> link_id" where
  "mint hint h = LinkId (''dup:'' @ link_str hint @ ''#'' @ handle_str h)"

fun stored_body :: "fetched_body \<Rightarrow> object \<times> u8 list option" where
  "stored_body (Inline hash bytes) = (\<lparr>o_hash = hash, o_size = length bytes\<rparr>, Some bytes)"
| "stored_body (Persisted hash sz) = (\<lparr>o_hash = hash, o_size = sz\<rparr>, None)"

definition is_conflicted :: "placement \<Rightarrow> bool" where
  "is_conflicted p \<longleftrightarrow> p_status p = Conflict"

definition is_mutable :: "placement \<Rightarrow> bool" where
  "is_mutable p \<longleftrightarrow> is_some_and (p_base p) (\<lambda>b. b_revision b \<noteq> None)"

definition needs_upgrade :: "tier \<Rightarrow> placement \<Rightarrow> bool" where
  "needs_upgrade tier p =
     (case tier of
        TierMeta \<Rightarrow> p_level p < LvMeta \<or> p_meta p = None
      | TierFull \<Rightarrow>
          (if is_conflicted p then p_conflict_object p = None
           else p_level p < LvFull \<or> p_object p = None))"

definition pending_handles :: "upgrade \<Rightarrow> handle list" where
  "pending_handles self =
     filter (\<lambda>h. case map_of (up_placements self) h of
                   Some p \<Rightarrow> needs_upgrade (up_tier self) p
                 | None \<Rightarrow> False)
       (up_handles self)"

section \<open>Linking bodies the store already holds\<close>

definition link_hit :: "(link_id, hash) btree_map \<Rightarrow> placement \<Rightarrow> hash option" where
  "link_hit kn p =
     (case p_link_id p of
        Some link \<Rightarrow> if \<not> is_mutable p \<and> \<not> is_conflicted p then map_of kn link else None
      | None \<Rightarrow> None)"

definition link_stored :: "placement \<Rightarrow> hash \<Rightarrow> placement" where
  "link_stored p hash =
     p\<lparr>p_base := map_option (\<lambda>b. b\<lparr>b_object := Some hash\<rparr>) (p_base p),
       p_object := Some hash, p_level := LvFull\<rparr>"

definition lookup_one ::
  "(link_id, hash) btree_map \<Rightarrow> handle \<Rightarrow> upgrade \<times> handle list \<Rightarrow> upgrade \<times> handle list" where
  "lookup_one kn h st =
     (case st of (self, to_fetch) \<Rightarrow>
        (case map_of (up_placements self) h of
           None \<Rightarrow> (self, to_fetch)
         | Some p \<Rightarrow>
             (case link_hit kn p of
                Some hash \<Rightarrow>
                  (self\<lparr>up_ops := up_ops self @ [UpsertPlacement (link_stored p hash)],
                        up_report := (up_report self)
                          \<lparr>ur_upgraded := ur_upgraded (up_report self) + 1,
                           ur_deduped := ur_deduped (up_report self) + 1\<rparr>\<rparr>, to_fetch)
              | None \<Rightarrow> (self, to_fetch @ [h]))))"

section \<open>Applying the fetched items\<close>

type_synonym claims = "(link_id, handle) btree_map"

definition claimed_links :: "placement list \<Rightarrow> claims" where
  "claimed_links ps =
     bt_collect (List.map_filter (\<lambda>p. map_option (\<lambda>l. (l, p_handle p)) (p_link_id p)) ps)"

text \<open>The link a not-yet-linked placement takes: the hint, or a minted key when it is claimed.\<close>

definition take_link :: "claims \<Rightarrow> fetched_item \<Rightarrow> link_id" where
  "take_link claimed item =
     (if map_of claimed (fi_link_id item) \<noteq> None then mint (fi_link_id item) (fi_handle item)
      else fi_link_id item)"

definition count_fetched :: "upgrade_report \<Rightarrow> upgrade_report" where
  "count_fetched r = r\<lparr>ur_fetched := ur_fetched r + 1, ur_upgraded := ur_upgraded r + 1\<rparr>"

text \<open>One iteration of the loop of \<open>write_fetched\<close>.\<close>

definition fetch_one :: "fetched_item \<Rightarrow> claims \<times> upgrade \<Rightarrow> claims \<times> upgrade" where
  "fetch_one item st =
     (case st of (claimed, self) \<Rightarrow>
        (case map_of (up_placements self) (fi_handle item) of
           None \<Rightarrow> (claimed, self)
         | Some p \<Rightarrow>
             if up_tier self = TierFull \<and> is_conflicted p then
               (case fi_body item of
                  None \<Rightarrow> (claimed, self)
                | Some body \<Rightarrow>
                    (let (object, bytes) = stored_body body
                     in (claimed,
                         self\<lparr>up_ops := up_ops self
                                @ [StoreObject object bytes,
                                   UpsertPlacement (p\<lparr>p_conflict_object := Some (o_hash object)\<rparr>)],
                              up_report := count_fetched (up_report self)\<rparr>)))
             else
               (let (claimed, patched) =
                      (if p_link_id p = None
                       then (bt_insert (take_link claimed item) (fi_handle item) claimed,
                             p\<lparr>p_link_id := Some (take_link claimed item)\<rparr>)
                       else (claimed, p));
                    patched = patched\<lparr>p_meta := Some (fi_meta item), p_sort_key := fi_sort_key item\<rparr>
                in (case (up_tier self, fi_body item) of
                      (TierFull, Some body) \<Rightarrow>
                        (let (object, bytes) = stored_body body;
                             hash = o_hash object;
                             patched = patched\<lparr>p_base := map_option
                                         (\<lambda>b. b\<lparr>b_revision := fi_revision item, b_object := Some hash\<rparr>)
                                         (p_base patched),
                                       p_object := Some hash, p_level := LvFull\<rparr>
                         in (claimed,
                             self\<lparr>up_ops := up_ops self
                                    @ [StoreObject object bytes, UpsertPlacement patched],
                                  up_report := count_fetched (up_report self)\<rparr>))
                    | _ \<Rightarrow>
                        (claimed,
                         self\<lparr>up_ops := up_ops self @ [UpsertPlacement (patched\<lparr>p_level := LvMeta\<rparr>)],
                              up_report := count_fetched (up_report self)\<rparr>)))))"

definition write_fetched :: "upgrade \<Rightarrow> upgrade \<times> (yield, arg_error + upgrade_report) cstate" where
  "write_fetched self =
     (let claimed = claimed_links (bt_values (up_placements self));
          fetched = List.sort_key fi_handle (up_fetched self);
          self = snd (fold fetch_one fetched (claimed, self\<lparr>up_fetched := []\<rparr>))
      in (self\<lparr>up_state := UpPendingWrite, up_ops := []\<rparr>, Yielded (WantsWrite (up_ops self))))"

section \<open>The coroutine\<close>

text \<open>The arm of a loaded collection: what is pending, and whether the store may hold it.\<close>

definition upgrade_loaded :: "upgrade \<Rightarrow> loaded \<Rightarrow> upgrade \<times> (yield, arg_error + upgrade_report) cstate" where
  "upgrade_loaded self ld =
     (let self = self\<lparr>up_placements := bt_collect (map (\<lambda>p. (p_handle p, p)) (ld_placements ld))\<rparr>;
          pending = pending_handles self
      in if pending = [] then (self\<lparr>up_state := UpDone\<rparr>, Complete (Inr (up_report self)))
         else (case up_tier self of
             TierMeta \<Rightarrow>
               (self\<lparr>up_state := UpPendingFetch\<rparr>,
                Yielded (WantsFetch (up_collection self) pending TierMeta))
           | TierFull \<Rightarrow>
               (let links = List.map_filter p_link_id
                      (filter (\<lambda>p. \<not> is_mutable p \<and> \<not> is_conflicted p)
                        (List.map_filter (map_of (up_placements self)) pending))
                in if links = []
                   then (self\<lparr>up_state := UpPendingFetch\<rparr>,
                         Yielded (WantsFetch (up_collection self) pending TierFull))
                   else (self\<lparr>up_state := UpPendingLookup\<rparr>, Yielded (WantsLookupObject links)))))"

definition upgrade_looked_up ::
  "upgrade \<Rightarrow> (link_id, hash) btree_map \<Rightarrow> upgrade \<times> (yield, arg_error + upgrade_report) cstate" where
  "upgrade_looked_up self kn =
     (let (self, to_fetch) = fold (lookup_one kn) (pending_handles self) (self, [])
      in if to_fetch = []
         then (self\<lparr>up_state := UpPendingWrite, up_ops := []\<rparr>, Yielded (WantsWrite (up_ops self)))
         else (self\<lparr>up_state := UpPendingFetch\<rparr>,
               Yielded (WantsFetch (up_collection self) to_fetch TierFull)))"

definition fresh_links :: "upgrade \<Rightarrow> fetched_item list \<Rightarrow> link_id list" where
  "fresh_links self items =
     map fi_link_id
       (filter (\<lambda>item. is_some_and (map_of (up_placements self) (fi_handle item))
                                   (\<lambda>p. p_link_id p = None)) items)"

definition upgrade_fetched ::
  "upgrade \<Rightarrow> fetched_item list \<Rightarrow> upgrade \<times> (yield, arg_error + upgrade_report) cstate" where
  "upgrade_fetched self items =
     (let fresh = fresh_links self items;
          self = self\<lparr>up_fetched := items\<rparr>
      in if fresh = [] then write_fetched self
         else (self\<lparr>up_state := UpPendingLinkCheck\<rparr>,
               Yielded (WantsLoad (up_collection self) (ScopeLinks fresh))))"

definition upgrade_checked :: "upgrade \<Rightarrow> loaded \<Rightarrow> upgrade \<times> (yield, arg_error + upgrade_report) cstate" where
  "upgrade_checked self ld =
     write_fetched (self\<lparr>up_placements :=
       fold (\<lambda>p. bt_or_insert (p_handle p) p) (ld_placements ld) (up_placements self)\<rparr>)"

definition upgrade_resume :: "upgrade \<Rightarrow> arg option \<Rightarrow> (upgrade, arg_error, upgrade_report) step" where
  "upgrade_resume self a =
     (case (up_state self, a) of
        (UpStart, None) \<Rightarrow>
          Some (self\<lparr>up_state := UpPendingLoad\<rparr>,
                Yielded (WantsLoad (up_collection self) (ScopeHandles (up_handles self))))
      | (UpPendingLoad, Some (ArgLoad ld)) \<Rightarrow> Some (upgrade_loaded self ld)
      | (UpPendingLookup, Some (ArgLookupObject kn)) \<Rightarrow> Some (upgrade_looked_up self kn)
      | (UpPendingFetch, Some (ArgFetch items)) \<Rightarrow> Some (upgrade_fetched self items)
      | (UpPendingLinkCheck, Some (ArgLoad ld)) \<Rightarrow> Some (upgrade_checked self ld)
      | (UpPendingWrite, Some ArgWrite) \<Rightarrow>
          Some (self\<lparr>up_state := UpDone\<rparr>, Complete (Inr (up_report self)))
      | (_, Some _) \<Rightarrow> Some (self, Complete (Inl UnexpectedArg))
      | (_, None) \<Rightarrow> Some (self, Complete (Inl MissingArg)))"

definition upgrade_finished :: "upgrade \<Rightarrow> bool" where
  "upgrade_finished self \<longleftrightarrow> up_state self = UpDone"

definition upgrade_rank :: "upgrade \<Rightarrow> nat \<times> nat" where
  "upgrade_rank self =
     (case up_state self of UpStart \<Rightarrow> 6 | UpPendingLoad \<Rightarrow> 5 | UpPendingLookup \<Rightarrow> 4
      | UpPendingFetch \<Rightarrow> 3 | UpPendingLinkCheck \<Rightarrow> 2 | UpPendingWrite \<Rightarrow> 1 | UpDone \<Rightarrow> 0, 0)"

lemmas upgrade_arms =
  upgrade_loaded_def upgrade_looked_up_def upgrade_fetched_def upgrade_checked_def write_fetched_def

lemmas upgrade_splits =
  upgrade_state.splits option.splits arg.splits tier.splits if_splits prod.splits

interpretation upg: verb upgrade_resume "\<lambda>_. True" upgrade_rank upgrade_finished "\<lambda>e. e"
proof (rule verbI)
  show "step_ok (\<lambda>_. True) upgrade_rank upgrade_finished c (upgrade_resume c a)" for c a
    by (auto simp: upgrade_resume_def upgrade_arms upgrade_rank_def upgrade_finished_def Let_def
          split: upgrade_splits)
  show "upgrade_finished c \<Longrightarrow> upgrade_resume c a = Some (c, Complete (Inl (bad_arg a)))" for c a
    by (cases a) (auto simp: upgrade_resume_def upgrade_finished_def)
qed

definition upgrade_ready :: "upgrade \<Rightarrow> arg option \<Rightarrow> bool" where
  "upgrade_ready self a \<longleftrightarrow>
     (case (up_state self, a) of
        (UpStart, None) \<Rightarrow> True
      | (UpPendingLoad, Some (ArgLoad _)) \<Rightarrow> True
      | (UpPendingLookup, Some (ArgLookupObject _)) \<Rightarrow> True
      | (UpPendingFetch, Some (ArgFetch _)) \<Rightarrow> True
      | (UpPendingLinkCheck, Some (ArgLoad _)) \<Rightarrow> True
      | (UpPendingWrite, Some ArgWrite) \<Rightarrow> True
      | _ \<Rightarrow> False)"

interpretation upg_driven:
  driven_verb upgrade_resume "\<lambda>_. True" upgrade_rank upgrade_finished "\<lambda>e. e" upgrade_ready
  by unfold_locales
    (auto simp: upgrade_resume_def upgrade_ready_def upgrade_arms Let_def elim!: answers.elims
       split: upgrade_splits)

section \<open>A pull, in any order\<close>

text \<open>
  C32: what an upgrade writes does not depend on the order a fetch answers in. Any two
  answers holding the same items, each handle once, give the same batch, the same report
  and the same next state; in particular which copy of a duplicate keeps the bare link id.
\<close>

theorem upgrade_fetch_order_irrelevant:
  assumes "mset items = mset items'" "distinct (map fi_handle items)"
  shows "write_fetched (self\<lparr>up_fetched := items\<rparr>) = write_fetched (self\<lparr>up_fetched := items'\<rparr>)"
proof -
  have "inj_on fi_handle (set items)" using assms(2) by (simp add: distinct_map)
  then have "List.sort_key fi_handle items = List.sort_key fi_handle items'"
    using assms(1) by (intro sort_key_inj_key_eq) simp_all
  then show ?thesis by (simp add: write_fetched_def)
qed

theorem upgrade_fetch_order_irrelevant_witness:
  "write_fetched ((upgrade_new (CollectionId ''c'') [] TierMeta)\<lparr>up_fetched :=
      [\<lparr>fi_handle = Handle ''2'', fi_link_id = LinkId ''m'', fi_meta = Meta [], fi_sort_key = sort_key_default,
        fi_body = None, fi_revision = None\<rparr>,
       \<lparr>fi_handle = Handle ''1'', fi_link_id = LinkId ''m'', fi_meta = Meta [], fi_sort_key = sort_key_default,
        fi_body = None, fi_revision = None\<rparr>]\<rparr>)
   = write_fetched ((upgrade_new (CollectionId ''c'') [] TierMeta)\<lparr>up_fetched :=
      [\<lparr>fi_handle = Handle ''1'', fi_link_id = LinkId ''m'', fi_meta = Meta [], fi_sort_key = sort_key_default,
        fi_body = None, fi_revision = None\<rparr>,
       \<lparr>fi_handle = Handle ''2'', fi_link_id = LinkId ''m'', fi_meta = Meta [], fi_sort_key = sort_key_default,
        fi_body = None, fi_revision = None\<rparr>]\<rparr>)"
  by (rule upgrade_fetch_order_irrelevant) simp_all

section \<open>What a fetched item writes\<close>

text \<open>The operations one fetched item adds to the batch.\<close>

definition fetch_ops :: "claims \<Rightarrow> upgrade \<Rightarrow> fetched_item \<Rightarrow> write_op list" where
  "fetch_ops claimed self item = drop (length (up_ops self)) (up_ops (snd (fetch_one item (claimed, self))))"

text \<open>
  C40: a summary upgrade can cost a staged edit. A full, dirty placement with no summary is
  picked up by an upgrade to the summary tier, which writes it back one level down, otherwise
  with its edited body and its base as they were; it then reads as lacking a body, so an
  upgrade to the full tier fetches it and replaces the edited body with the remote one, in the
  placement and in its base, whose revision moves along. Nothing is left that reads as an edit.
\<close>

theorem upgrade_meta_lowers_level:
  assumes "p_status p = Dirty" "p_level p = LvFull" "p_meta p = None" "p_link_id p \<noteq> None" "p_base p = Some b"
    "fi_body item = Some (Persisted y sz)"
    "map_of (up_placements self) (fi_handle item) = Some p" "up_tier self = TierMeta"
  shows "needs_upgrade TierMeta p
    \<and> (\<exists>q. fetch_ops claimed self item = [UpsertPlacement q]
          \<and> q = p\<lparr>p_meta := Some (fi_meta item), p_sort_key := fi_sort_key item, p_level := LvMeta\<rparr>
          \<and> needs_upgrade TierFull q
          \<and> (\<exists>r. fetch_ops claimed (self\<lparr>up_tier := TierFull, up_placements := [(fi_handle item, q)]\<rparr>) item
                 = [StoreObject \<lparr>o_hash = y, o_size = sz\<rparr> None, UpsertPlacement r]
               \<and> p_object r = Some y
               \<and> p_base r = Some (b\<lparr>b_revision := fi_revision item, b_object := Some y\<rparr>)
               \<and> staged_edit r = None))"
  using assms
  by (auto simp: needs_upgrade_def fetch_ops_def fetch_one_def is_conflicted_def staged_edit_def Let_def)

theorem upgrade_meta_lowers_level_witness:
  "\<exists>q. fetch_ops [] ((upgrade_new (CollectionId ''c'') [] TierMeta)
        \<lparr>up_placements := [(Handle ''1'', (sample_placement ''1'')\<lparr>p_status := Dirty\<rparr>)]\<rparr>)
     \<lparr>fi_handle = Handle ''1'', fi_link_id = LinkId ''m'', fi_meta = Meta [], fi_sort_key = sort_key_default,
      fi_body = Some (Persisted (Hash ''y'') 3), fi_revision = None\<rparr> = [UpsertPlacement q] \<and> p_level q = LvMeta"
proof -
  let ?p = "(sample_placement ''1'')\<lparr>p_status := Dirty\<rparr>"
  let ?self = "(upgrade_new (CollectionId ''c'') [] TierMeta)\<lparr>up_placements := [(Handle ''1'', ?p)]\<rparr>"
  have "p_status ?p = Dirty" "p_level ?p = LvFull" "p_meta ?p = None" "p_link_id ?p \<noteq> None" "p_base ?p = Some sample_base"
    by (simp_all add: sample_placement_def)
  moreover have "up_tier ?self = TierMeta" "map_of (up_placements ?self) (Handle ''1'') = Some ?p"
    by (simp_all add: upgrade_new_def)
  ultimately show ?thesis
    using upgrade_meta_lowers_level[of ?p sample_base
        "\<lparr>fi_handle = Handle ''1'', fi_link_id = LinkId ''m'', fi_meta = Meta [], fi_sort_key = sort_key_default,
          fi_body = Some (Persisted (Hash ''y'') 3), fi_revision = None\<rparr>" "Hash ''y''" 3 ?self "[]"]
    by auto
qed

section \<open>Link ids are claimed once\<close>

lemma mint_inj:
  assumes "CHR ''#'' \<notin> set (handle_str h)" "CHR ''#'' \<notin> set (handle_str h')" "mint a h = mint b h'"
  shows "a = b \<and> h = h'"
proof -
  have split: "xs = xs' \<and> ys = ys'"
    if "xs @ CHR ''#'' # ys = xs' @ CHR ''#'' # ys'" "CHR ''#'' \<notin> set ys" "CHR ''#'' \<notin> set ys'"
    for xs xs' ys ys' :: string
    using that by (auto simp: append_eq_append_conv2 append_eq_Cons_conv Cons_eq_append_conv)
  show ?thesis
    using assms split[of "link_str a" "handle_str h" "link_str b" "handle_str h'"]
    by (auto simp: mint_def intro: link_id.expand handle.expand)
qed

definition keyed :: "upgrade \<Rightarrow> bool" where
  "keyed self \<longleftrightarrow> (\<forall>(h, p) \<in> set (up_placements self). p_handle p = h)"

definition unlinked :: "upgrade \<Rightarrow> handle \<Rightarrow> bool" where
  "unlinked self h \<longleftrightarrow> (\<exists>p. map_of (up_placements self) h = Some p \<and> p_link_id p = None)"

text \<open>No key the batch could mint is a link id already in play, and no handle holds a \<open>#\<close>.\<close>

definition mint_safe :: "upgrade \<Rightarrow> fetched_item list \<Rightarrow> bool" where
  "mint_safe self items \<longleftrightarrow>
     (\<forall>i \<in> set items. CHR ''#'' \<notin> set (handle_str (fi_handle i))
        \<and> (\<forall>j \<in> set items. mint (fi_link_id i) (fi_handle i) \<noteq> fi_link_id j)
        \<and> (\<forall>p \<in> snd ` set (up_placements self). p_link_id p \<noteq> Some (mint (fi_link_id i) (fi_handle i))))"

lemma claimed_links_get:
  assumes "map_of (claimed_links ps) l = Some h"
  shows "\<exists>p \<in> set ps. p_link_id p = Some l \<and> p_handle p = h"
proof -
  have "(l, h) \<in> set (List.map_filter (\<lambda>p. map_option (\<lambda>l. (l, p_handle p)) (p_link_id p)) ps)"
    using assms by (auto simp: claimed_links_def bt_get_collect dest: map_of_SomeD)
  then show ?thesis by (auto simp: List.map_filter_def)
qed

lemma claimed_links_mem: "p \<in> set ps \<Longrightarrow> p_link_id p = Some l \<Longrightarrow> map_of (claimed_links ps) l \<noteq> None"
proof -
  assume "p \<in> set ps" "p_link_id p = Some l"
  then have "(l, p_handle p) \<in> set (List.map_filter (\<lambda>p. map_option (\<lambda>l. (l, p_handle p)) (p_link_id p)) ps)"
    by (force simp: List.map_filter_def)
  then show "map_of (claimed_links ps) l \<noteq> None"
    unfolding claimed_links_def bt_get_collect map_of_eq_None_iff by force
qed

text \<open>
  The fetched items whose row takes a link id, and the one each takes: the hint it came with,
  unless a row of the collection holds it or a copy at a lower handle takes it; the key minted
  of the hint and the handle otherwise.
\<close>

definition linking :: "upgrade \<Rightarrow> fetched_item \<Rightarrow> bool" where
  "linking self item \<longleftrightarrow> unlinked self (fi_handle item)
     \<and> \<not> (up_tier self = TierFull \<and> is_some_and (map_of (up_placements self) (fi_handle item)) is_conflicted)"

definition hint_taken :: "upgrade \<Rightarrow> fetched_item list \<Rightarrow> fetched_item \<Rightarrow> bool" where
  "hint_taken self items item \<longleftrightarrow>
     (\<exists>p \<in> set (bt_values (up_placements self)). p_link_id p = Some (fi_link_id item))
     \<or> (\<exists>j \<in> set items. linking self j \<and> fi_link_id j = fi_link_id item \<and> fi_handle j < fi_handle item)"

text \<open>Which hints are claimed once some of the items are applied.\<close>

lemma fetch_one_link:
  assumes "keyed self" "unlinked self (fi_handle item)"
  shows "if linking self item
    then fst (fetch_one item (claimed, self)) = bt_insert (take_link claimed item) (fi_handle item) claimed
      \<and> (\<exists>ops q. up_ops (snd (fetch_one item (claimed, self))) = up_ops self @ ops @ [UpsertPlacement q]
           \<and> (\<forall>q'. UpsertPlacement q' \<notin> set ops)
           \<and> p_handle q = fi_handle item \<and> p_link_id q = Some (take_link claimed item))
    else fst (fetch_one item (claimed, self)) = claimed
      \<and> (\<exists>ops. up_ops (snd (fetch_one item (claimed, self))) = up_ops self @ ops
           \<and> (\<forall>q. UpsertPlacement q \<in> set ops \<longrightarrow> p_link_id q = None))"
proof -
  obtain p where p: "map_of (up_placements self) (fi_handle item) = Some p" "p_link_id p = None"
    using assms(2) by (auto simp: unlinked_def)
  then have "p_handle p = fi_handle item" using assms(1) by (auto simp: keyed_def dest: map_of_SomeD)
  with p show ?thesis
    by (auto simp: linking_def unlinked_def fetch_one_def Let_def case_prod_unfold split: option.splits tier.splits)
qed

lemma fetch_one_linked:
  assumes "keyed self" "\<not> unlinked self (fi_handle item)"
  shows "fst (fetch_one item (claimed, self)) = claimed
    \<and> (\<exists>ops. up_ops (snd (fetch_one item (claimed, self))) = up_ops self @ ops
         \<and> (\<forall>q. UpsertPlacement q \<in> set ops \<longrightarrow> p_handle q = fi_handle item))"
proof (cases "map_of (up_placements self) (fi_handle item)")
  case (Some p)
  then have "p_handle p = fi_handle item" using assms(1) by (auto simp: keyed_def dest: map_of_SomeD)
  with Some assms(2) show ?thesis
    by (auto simp: unlinked_def fetch_one_def Let_def case_prod_unfold split: option.splits tier.splits)
qed (simp add: fetch_one_def)

lemma fetch_one_placements [simp]: "up_placements (snd (fetch_one item st)) = up_placements (snd st)"
  "up_tier (snd (fetch_one item st)) = up_tier (snd st)"
  by (cases st; auto simp: fetch_one_def Let_def case_prod_unfold split: option.split tier.split)+

lemma fold_fetch_one_placements [simp]:
  "up_placements (snd (fold fetch_one is st)) = up_placements (snd st)" "up_tier (snd (fold fetch_one is st)) = up_tier (snd st)"
  by (induction "is" arbitrary: st) simp_all

lemma same_linking:
  "up_placements self = up_placements self0 \<Longrightarrow> unlinked self = unlinked self0"
  "up_placements self = up_placements self0 \<Longrightarrow> keyed self = keyed self0"
  "up_placements self = up_placements self0 \<Longrightarrow> up_tier self = up_tier self0 \<Longrightarrow> linking self = linking self0"
  by (simp_all add: unlinked_def linking_def keyed_def fun_eq_iff)

definition link_key :: "upgrade \<Rightarrow> fetched_item list \<Rightarrow> fetched_item \<Rightarrow> link_id" where
  "link_key self items item =
     (if hint_taken self items item then mint (fi_link_id item) (fi_handle item) else fi_link_id item)"

text \<open>What the loop has claimed and written once it applied the items of a list sorted by handle.\<close>

definition keys_given :: "upgrade \<Rightarrow> fetched_item list \<Rightarrow> fetched_item list \<Rightarrow> claims \<Rightarrow> write_op list \<Rightarrow> bool" where
  "keys_given self items done claimed ops \<longleftrightarrow>
     (\<forall>m \<in> fi_link_id ` set items. map_of claimed m \<noteq> None \<longleftrightarrow>
        (\<exists>p \<in> set (bt_values (up_placements self)). p_link_id p = Some m)
        \<or> (\<exists>j \<in> set done. linking self j \<and> fi_link_id j = m))
     \<and> (\<forall>i \<in> set done. linking self i \<longrightarrow>
          (\<exists>q. UpsertPlacement q \<in> set ops \<and> p_handle q = fi_handle i \<and> p_link_id q = Some (link_key self done i)))
     \<and> (\<forall>q l. UpsertPlacement q \<in> set ops \<longrightarrow> unlinked self (p_handle q) \<longrightarrow> p_link_id q = Some l \<longrightarrow>
          (\<exists>i \<in> set done. fi_handle i = p_handle q \<and> linking self i \<and> l = link_key self done i))"

lemma link_key_snoc:
  assumes "\<forall>j \<in> set done. fi_handle j < fi_handle x"
  shows "i \<in> set done \<Longrightarrow> link_key self (done @ [x]) i = link_key self done i"
    and "hint_taken self (done @ [x]) x \<longleftrightarrow>
      (\<exists>p \<in> set (bt_values (up_placements self)). p_link_id p = Some (fi_link_id x))
      \<or> (\<exists>j \<in> set done. linking self j \<and> fi_link_id j = fi_link_id x)"
proof -
  have "hint_taken self (done @ [x]) i \<longleftrightarrow> hint_taken self done i" if "i \<in> set done"
  proof -
    have "\<not> fi_handle x < fi_handle i" using assms that less_asym by blast
    then show ?thesis by (simp add: hint_taken_def)
  qed
  then show "i \<in> set done \<Longrightarrow> link_key self (done @ [x]) i = link_key self done i"
    by (simp add: link_key_def)
  show "hint_taken self (done @ [x]) x \<longleftrightarrow>
      (\<exists>p \<in> set (bt_values (up_placements self)). p_link_id p = Some (fi_link_id x))
      \<or> (\<exists>j \<in> set done. linking self j \<and> fi_link_id j = fi_link_id x)"
    using assms by (auto simp: hint_taken_def)
qed

lemma keys_given_step:
  assumes "keyed self0" "mint_safe self0 items" "x \<in> set items" "\<forall>j \<in> set done. fi_handle j < fi_handle x"
    "up_placements self = up_placements self0" "up_tier self = up_tier self0"
    "keys_given self0 items done claimed (up_ops self)"
  shows "keys_given self0 items (done @ [x]) (fst (fetch_one x (claimed, self))) (up_ops (snd (fetch_one x (claimed, self))))"
proof -
  have keyed: "keyed self" using assms(1) same_linking(2)[OF assms(5)] by simp
  note same = same_linking(1)[OF assms(5)] same_linking(3)[OF assms(5,6)]
  note key = link_key_snoc[OF assms(4)]
  have minted: "mint (fi_link_id x) (fi_handle x) \<notin> fi_link_id ` set items"
    using assms(2,3) by (auto simp: mint_safe_def)
  have claims: "map_of claimed (fi_link_id x) \<noteq> None \<longleftrightarrow> hint_taken self0 (done @ [x]) x"
    using assms(3,7) key(2) by (simp add: keys_given_def)
  then have take: "take_link claimed x = link_key self0 (done @ [x]) x"
    by (simp add: take_link_def link_key_def)
  consider (links) "linking self0 x" | (conflict) "unlinked self0 (fi_handle x)" "\<not> linking self0 x"
    | (linked) "\<not> unlinked self0 (fi_handle x)" by blast
  then show ?thesis
  proof cases
    case links
    then have unl: "unlinked self (fi_handle x)" by (simp add: linking_def same)
    obtain ops q where step: "fst (fetch_one x (claimed, self)) = bt_insert (take_link claimed x) (fi_handle x) claimed"
      "up_ops (snd (fetch_one x (claimed, self))) = up_ops self @ ops @ [UpsertPlacement q]"
      "\<forall>q'. UpsertPlacement q' \<notin> set ops" "p_handle q = fi_handle x" "p_link_id q = Some (take_link claimed x)"
      using fetch_one_link[OF keyed unl, of claimed] links same(2) by auto
    have "map_of (bt_insert (take_link claimed x) (fi_handle x) claimed) m \<noteq> None \<longleftrightarrow> map_of claimed m \<noteq> None \<or> m = fi_link_id x"
      if "m \<in> fi_link_id ` set items" for m
    proof -
      have "m \<noteq> mint (fi_link_id x) (fi_handle x)" using minted that by blast
      then show ?thesis by (auto simp: take_link_def)
    qed
    with assms(7) links step key(1) take show ?thesis
      by (auto simp: keys_given_def)
  next
    case conflict
    then obtain ops where step: "fst (fetch_one x (claimed, self)) = claimed"
      "up_ops (snd (fetch_one x (claimed, self))) = up_ops self @ ops" "\<forall>q. UpsertPlacement q \<in> set ops \<longrightarrow> p_link_id q = None"
      using fetch_one_link[OF keyed, of x claimed] same by auto
    with assms(7) conflict key(1) show ?thesis
      by (fastforce simp: keys_given_def)
  next
    case linked
    then obtain ops where step: "fst (fetch_one x (claimed, self)) = claimed"
      "up_ops (snd (fetch_one x (claimed, self))) = up_ops self @ ops" "\<forall>q. UpsertPlacement q \<in> set ops \<longrightarrow> p_handle q = fi_handle x"
      using fetch_one_linked[OF keyed, of x claimed] same by auto
    moreover have "\<not> linking self0 x" using linked by (simp add: linking_def)
    ultimately show ?thesis
      using assms(7) linked key(1) by (fastforce simp: keys_given_def)
  qed
qed

lemma keys_given_fold:
  assumes "keyed self0" "mint_safe self0 items" "\<forall>q. UpsertPlacement q \<in> set (up_ops self0) \<longrightarrow> \<not> unlinked self0 (p_handle q)"
  defines "claimed0 \<equiv> claimed_links (bt_values (up_placements self0))"
  shows "set is \<subseteq> set items \<Longrightarrow> sorted (map fi_handle is) \<Longrightarrow> distinct (map fi_handle is) \<Longrightarrow>
    keys_given self0 items is (fst (fold fetch_one is (claimed0, self0))) (up_ops (snd (fold fetch_one is (claimed0, self0))))"
proof (induction "is" rule: rev_induct)
  case Nil
  have "map_of claimed0 m \<noteq> None \<longleftrightarrow> (\<exists>p \<in> set (bt_values (up_placements self0)). p_link_id p = Some m)" for m
    using claimed_links_get claimed_links_mem unfolding claimed0_def by (metis not_None_eq)
  with assms(3) show ?case by (simp add: keys_given_def)
next
  case (snoc x "is")
  have "\<forall>j \<in> set is. fi_handle j < fi_handle x"
  proof
    fix j assume "j \<in> set is"
    then have "fi_handle j \<le> fi_handle x" "fi_handle j \<noteq> fi_handle x"
      using snoc.prems(2,3) by (simp_all add: sorted_append rev_image_eqI) (metis imageI)
    then show "fi_handle j < fi_handle x" by simp
  qed
  moreover have "keys_given self0 items is (fst (fold fetch_one is (claimed0, self0))) (up_ops (snd (fold fetch_one is (claimed0, self0))))"
    using snoc by (simp add: sorted_append)
  ultimately show ?case
    using keys_given_step[OF assms(1,2), of x "is" "snd (fold fetch_one is (claimed0, self0))" "fst (fold fetch_one is (claimed0, self0))"]
      snoc.prems(1) by simp
qed

lemma link_key_sort: "link_key self (List.sort_key fi_handle items) = link_key self items"
  by (simp add: link_key_def hint_taken_def fun_eq_iff)

lemma link_key_inj:
  assumes "mint_safe self items" "i \<in> set items" "j \<in> set items" "linking self i" "linking self j"
    "link_key self items i = link_key self items j"
  shows "fi_handle i = fi_handle j"
proof (rule ccontr)
  assume differ: "fi_handle i \<noteq> fi_handle j"
  have nohash: "CHR ''#'' \<notin> set (handle_str (fi_handle i))" "CHR ''#'' \<notin> set (handle_str (fi_handle j))"
    "mint (fi_link_id i) (fi_handle i) \<noteq> fi_link_id j" "mint (fi_link_id j) (fi_handle j) \<noteq> fi_link_id i"
    using assms(1-3) by (auto simp: mint_safe_def)
  have "\<not> (hint_taken self items i \<and> hint_taken self items j)"
    using mint_inj[OF nohash(1,2)] assms(6) differ by (auto simp: link_key_def)
  then have bare: "\<not> hint_taken self items i" "\<not> hint_taken self items j" "fi_link_id i = fi_link_id j"
    using assms(6) nohash(3,4) by (auto simp: link_key_def split: if_splits)
  then have "\<not> fi_handle j < fi_handle i" "\<not> fi_handle i < fi_handle j"
    using assms(2-5) by (auto simp: hint_taken_def)
  with differ show False by simp
qed

text \<open>
  C31: the copies of an identity take distinct link ids. An upgrade whose batch could mint no key
  already in play, over fetched handles that are distinct and hold no \<open>#\<close>, writes every row it
  links for the first time. Of the copies of one identity, the one at the lowest handle keeps
  the bare hint, if no row of the collection held it; every other takes the key minted of the
  hint and its own handle. So no two rows take the same link id, and none takes one that
  another placement of the collection already holds.
\<close>

theorem upgrade_links_claimed_once:
  assumes "keyed self" "mint_safe self (up_fetched self)" "distinct (map fi_handle (up_fetched self))"
    "write_fetched self = (self', Yielded (WantsWrite ops))"
    "\<forall>q. UpsertPlacement q \<in> set (up_ops self) \<longrightarrow> \<not> unlinked self (p_handle q)"
  shows "(\<forall>i \<in> set (up_fetched self). linking self i \<longrightarrow>
            (\<exists>q. UpsertPlacement q \<in> set ops \<and> p_handle q = fi_handle i \<and> p_link_id q \<noteq> None))
    \<and> (\<forall>q l. UpsertPlacement q \<in> set ops \<longrightarrow> unlinked self (p_handle q) \<longrightarrow> p_link_id q = Some l \<longrightarrow>
          (\<exists>i \<in> set (up_fetched self). fi_handle i = p_handle q
             \<and> l = (if hint_taken self (up_fetched self) i then mint (fi_link_id i) (fi_handle i) else fi_link_id i))
          \<and> (\<forall>q'. UpsertPlacement q' \<in> set ops \<longrightarrow> unlinked self (p_handle q') \<longrightarrow> p_link_id q' = Some l
                \<longrightarrow> p_handle q' = p_handle q)
          \<and> (\<forall>p \<in> set (bt_values (up_placements self)). p_link_id p \<noteq> Some l))"
proof -
  let ?self = "self\<lparr>up_fetched := []\<rparr>" and ?is = "List.sort_key fi_handle (up_fetched self)"
  have same: "keyed ?self" "mint_safe ?self (up_fetched self)" "unlinked ?self = unlinked self" "linking ?self = linking self"
    "link_key ?self = link_key self"
    using assms(1,2) by (simp_all add: keyed_def mint_safe_def unlinked_def linking_def link_key_def hint_taken_def fun_eq_iff)
  have "distinct (map fi_handle ?is)" using assms(3) by (simp add: distinct_map)
  with keys_given_fold[OF same(1,2), of ?is] assms(5)
  have "keys_given ?self (up_fetched self) ?is
      (fst (fold fetch_one ?is (claimed_links (bt_values (up_placements self)), ?self)))
      (up_ops (snd (fold fetch_one ?is (claimed_links (bt_values (up_placements self)), ?self))))"
    by (simp add: same)
  moreover have "ops = up_ops (snd (fold fetch_one ?is (claimed_links (bt_values (up_placements self)), ?self)))"
    using assms(4) by (simp add: write_fetched_def Let_def)
  ultimately have written: "\<forall>i \<in> set (up_fetched self). linking self i \<longrightarrow>
        (\<exists>q. UpsertPlacement q \<in> set ops \<and> p_handle q = fi_handle i \<and> p_link_id q = Some (link_key self (up_fetched self) i))"
    and given: "\<And>q l. UpsertPlacement q \<in> set ops \<Longrightarrow> unlinked self (p_handle q) \<Longrightarrow> p_link_id q = Some l \<Longrightarrow>
        \<exists>i \<in> set (up_fetched self). fi_handle i = p_handle q \<and> linking self i \<and> l = link_key self (up_fetched self) i"
    by (simp_all add: keys_given_def same link_key_sort)
  have free: "\<forall>p \<in> set (bt_values (up_placements self)). p_link_id p \<noteq> Some (link_key self (up_fetched self) i)"
    if "i \<in> set (up_fetched self)" for i
    using assms(2) that by (auto simp: link_key_def hint_taken_def mint_safe_def)
  have unique: "p_handle q' = p_handle q"
    if "UpsertPlacement q \<in> set ops" "unlinked self (p_handle q)" "p_link_id q = Some l"
      "UpsertPlacement q' \<in> set ops" "unlinked self (p_handle q')" "p_link_id q' = Some l" for q q' l
    using given[OF that(1-3)] given[OF that(4-6)] link_key_inj[OF assms(2)] by metis
  show ?thesis
  proof (intro conjI allI impI)
    show "\<forall>i \<in> set (up_fetched self). linking self i \<longrightarrow>
        (\<exists>q. UpsertPlacement q \<in> set ops \<and> p_handle q = fi_handle i \<and> p_link_id q \<noteq> None)"
      using written by blast
  next
    fix q l assume q: "UpsertPlacement q \<in> set ops" "unlinked self (p_handle q)" "p_link_id q = Some l"
    show "\<exists>i \<in> set (up_fetched self). fi_handle i = p_handle q
        \<and> l = (if hint_taken self (up_fetched self) i then mint (fi_link_id i) (fi_handle i) else fi_link_id i)"
      using given[OF q] by (auto simp: link_key_def)
    show "\<forall>p \<in> set (bt_values (up_placements self)). p_link_id p \<noteq> Some l"
      using given[OF q] free by blast
    show "p_handle q' = p_handle q"
      if "UpsertPlacement q' \<in> set ops" "unlinked self (p_handle q')" "p_link_id q' = Some l" for q'
      using unique[OF q that] .
  qed
qed

text \<open>Two copies of one identity, fetched in the wrong order: the first keeps the hint.\<close>

theorem upgrade_links_claimed_once_witness:
  "\<exists>self' ops q. write_fetched ((upgrade_new (CollectionId ''c'') [] TierMeta)
      \<lparr>up_placements := [(Handle ''1'', (sample_placement ''1'')\<lparr>p_link_id := None, p_level := LvProbed\<rparr>),
         (Handle ''2'', (sample_placement ''2'')\<lparr>p_link_id := None, p_level := LvProbed\<rparr>)],
       up_fetched := [\<lparr>fi_handle = Handle ''2'', fi_link_id = LinkId ''m'', fi_meta = Meta [],
           fi_sort_key = sort_key_default, fi_body = None, fi_revision = None\<rparr>,
         \<lparr>fi_handle = Handle ''1'', fi_link_id = LinkId ''m'', fi_meta = Meta [],
           fi_sort_key = sort_key_default, fi_body = None, fi_revision = None\<rparr>]\<rparr>)
     = (self', Yielded (WantsWrite ops))
   \<and> UpsertPlacement q \<in> set ops \<and> p_handle q = Handle ''2'' \<and> p_link_id q = Some (mint (LinkId ''m'') (Handle ''2''))"
proof -
  let ?p = "\<lambda>h. (sample_placement h)\<lparr>p_link_id := None, p_level := LvProbed\<rparr>"
  let ?i = "\<lambda>h. \<lparr>fi_handle = Handle h, fi_link_id = LinkId ''m'', fi_meta = Meta [],
      fi_sort_key = sort_key_default, fi_body = None, fi_revision = None\<rparr>"
  let ?self = "(upgrade_new (CollectionId ''c'') [] TierMeta)
      \<lparr>up_placements := [(Handle ''1'', ?p ''1''), (Handle ''2'', ?p ''2'')],
       up_fetched := [?i ''2'', ?i ''1'']\<rparr>"
  have keyed: "keyed ?self" by (simp add: keyed_def sample_defs)
  have safe: "mint_safe ?self (up_fetched ?self)"
    by (simp add: mint_safe_def mint_def sample_defs)
  have distinct: "distinct (map fi_handle (up_fetched ?self))" by simp
  have none: "\<forall>q. UpsertPlacement q \<in> set (up_ops ?self) \<longrightarrow> \<not> unlinked ?self (p_handle q)"
    by (simp add: upgrade_new_def)
  have links: "linking ?self (?i ''1'')" "linking ?self (?i ''2'')"
    by (simp_all add: linking_def unlinked_def upgrade_new_def)
  have taken: "hint_taken ?self (up_fetched ?self) (?i ''2'')"
    using links by (simp add: hint_taken_def less_char_def)
  obtain self' ops where wrote: "write_fetched ?self = (self', Yielded (WantsWrite ops))"
    by (simp add: write_fetched_def Let_def)
  note claimed = upgrade_links_claimed_once[OF keyed safe distinct wrote none]
  then obtain q where q: "UpsertPlacement q \<in> set ops" "p_handle q = Handle ''2''" "p_link_id q \<noteq> None"
    using links(2) by auto
  then obtain l where "p_link_id q = Some l" by blast
  moreover have "unlinked ?self (p_handle q)" using q(2) by (simp add: unlinked_def)
  ultimately have "p_link_id q = Some (mint (LinkId ''m'') (Handle ''2''))"
    using claimed q(1,2) taken by auto
  with wrote q show ?thesis by blast
qed

text \<open>
  The minted key of a second copy keeps the identity and the handle apart only for
  handles without a \<open>#\<close>. For such handles the key determines both; otherwise two copies of
  two different identities can be minted the same key.
\<close>

theorem mint_determines_copy:
  "(CHR ''#'' \<notin> set (handle_str h) \<and> CHR ''#'' \<notin> set (handle_str h')
      \<longrightarrow> (mint a h = mint b h' \<longleftrightarrow> a = b \<and> h = h'))
   \<and> mint (LinkId ''a#b'') (Handle ''c'') = mint (LinkId ''a'') (Handle ''b#c'')"
  using mint_inj by (auto simp: mint_def)

theorem mint_determines_copy_witness:
  "mint (LinkId ''a'') (Handle ''1'') \<noteq> mint (LinkId ''a'') (Handle ''2'')"
  using mint_determines_copy[of "Handle ''1''" "Handle ''2''" "LinkId ''a''" "LinkId ''a''"] by simp

end
