(* ===== verification/Rekey.thy ===== *)
theory Rekey
  imports Coroutine
begin

text \<open>
  The REKEY verb (\<open>rekey.rs\<close>): rebuilding a collection after a handle-space change. It loads
  the old placements, enumerates the new spine, resolves the new link ids and carries every
  old placement over to the new handle of the same logical item.
\<close>

section \<open>State\<close>

record rekey_report =
  rr_rekeyed :: nat
  rr_pulled :: nat
  rr_dropped :: nat

definition rekey_report_default :: rekey_report where
  "rekey_report_default = \<lparr>rr_rekeyed = 0, rr_pulled = 0, rr_dropped = 0\<rparr>"

datatype rekey_state =
  RkStart | RkPendingLoad | RkPendingEnumerate | RkPendingFetch | RkPendingWrite | RkDone

record rekey =
  rk_collection :: collection_id
  rk_old :: "placement list"
  rk_items :: "remote_item list"
  rk_checkpoint :: "checkpoint option"
  rk_report :: rekey_report
  rk_state :: rekey_state

type_synonym resolved = "link_id \<times> meta \<times> sort_key"

definition rekey_new :: "collection_id \<Rightarrow> rekey" where
  "rekey_new coll =
     \<lparr>rk_collection = coll, rk_old = [], rk_items = [], rk_checkpoint = None,
      rk_report = rekey_report_default, rk_state = RkStart\<rparr>"

section \<open>Carrying a placement over\<close>

definition carry :: "rekey \<Rightarrow> placement \<Rightarrow> remote_item \<Rightarrow> resolved option \<Rightarrow> placement" where
  "carry self old item resolved =
     (let old_base_flags = (case p_base old of Some b \<Rightarrow> b_flags b | None \<Rightarrow> flags_default);
          fl = flags_merge old_base_flags (p_flags old) (ri_flags item);
          content_edit = (p_status old = Dirty \<and> p_object old \<noteq> None
                          \<and> is_none_or (p_base old) (\<lambda>b. b_object b \<noteq> p_object old));
          status = (case p_status old of
                      Tombstone \<Rightarrow> Tombstone
                    | Conflict \<Rightarrow> Conflict
                    | _ \<Rightarrow> if content_edit then Dirty
                           else if fl \<noteq> ri_flags item then Dirty
                           else Clean);
          conflict_revision = (if status = Conflict then ri_revision item else None);
          conflict_object = (if conflict_revision = p_conflict_revision old
                             then p_conflict_object old else None)
      in \<lparr>p_collection = rk_collection self, p_handle = ri_handle item, p_link_id = p_link_id old,
          p_object = p_object old, p_level = p_level old,
          p_meta = option_or (map_option (\<lambda>(_, meta, _). meta) resolved) (p_meta old),
          p_sort_key = (case resolved of Some (_, _, key) \<Rightarrow> key | None \<Rightarrow> p_sort_key old),
          p_flags = fl, p_status = status, p_conflict_revision = conflict_revision,
          p_conflict_object = conflict_object,
          p_base = Some \<lparr>b_flags = ri_flags item, b_revision = ri_revision item,
                         b_object = Option.bind (p_base old) b_object\<rparr>,
          p_origin = p_origin old\<rparr>)"

definition fresh :: "rekey \<Rightarrow> remote_item \<Rightarrow> resolved option \<Rightarrow> placement" where
  "fresh self item resolved =
     \<lparr>p_collection = rk_collection self, p_handle = ri_handle item,
      p_link_id = map_option (\<lambda>(link, _, _). link) resolved,
      p_object = None, p_level = (if resolved \<noteq> None then LvMeta else LvProbed),
      p_meta = map_option (\<lambda>(_, meta, _). meta) resolved,
      p_sort_key = (case resolved of Some (_, _, key) \<Rightarrow> key | None \<Rightarrow> sort_key_default),
      p_flags = ri_flags item, p_status = Clean, p_conflict_revision = None,
      p_conflict_object = None,
      p_base = Some \<lparr>b_flags = ri_flags item, b_revision = ri_revision item, b_object = None\<rparr>,
      p_origin = None\<rparr>"

section \<open>The rebuild\<close>

record rebuild_state =
  rb_by_link :: "(link_id, placement) btree_map"
  rb_written :: "handle fset"
  rb_carried :: "handle fset"
  rb_writes :: "write_op list"
  rb_report :: rekey_report

text \<open>The first loop: one placement per new member.\<close>

definition rebuild_item ::
  "rekey \<Rightarrow> (handle, resolved) btree_map \<Rightarrow> remote_item \<Rightarrow> rebuild_state \<Rightarrow> rebuild_state" where
  "rebuild_item self links item st =
     (let resolved = map_of links (ri_handle item);
          carried = (case resolved of Some (link, _, _) \<Rightarrow> map_of (rb_by_link st) link | None \<Rightarrow> None);
          st = (case resolved of
                  Some (link, _, _) \<Rightarrow> st\<lparr>rb_by_link := bt_remove link (rb_by_link st)\<rparr>
                | None \<Rightarrow> st);
          st = st\<lparr>rb_written := finsert (ri_handle item) (rb_written st)\<rparr>
      in (case carried of
            Some old \<Rightarrow>
              st\<lparr>rb_carried := finsert (p_handle old) (rb_carried st),
                 rb_writes := rb_writes st @ [UpsertPlacement (carry self old item resolved)],
                 rb_report := (rb_report st)\<lparr>rr_rekeyed := rr_rekeyed (rb_report st) + 1\<rparr>\<rparr>
          | None \<Rightarrow>
              st\<lparr>rb_writes := rb_writes st @ [UpsertPlacement (fresh self item resolved)],
                 rb_report := (rb_report st)\<lparr>rr_pulled := rr_pulled (rb_report st) + 1\<rparr>\<rparr>))"

text \<open>The second loop: an unmatched staged edit survives as a pending create.\<close>

definition rekey_edited :: "placement \<Rightarrow> bool" where
  "rekey_edited p \<longleftrightarrow>
     p_status p \<in> {Dirty, Conflict} \<and> p_object p \<noteq> None
     \<and> is_none_or (p_base p) (\<lambda>b. b_object b \<noteq> p_object p)"

definition resurrect :: "placement \<Rightarrow> placement" where
  "resurrect p = p\<lparr>p_status := Created, p_conflict_revision := None, p_conflict_object := None,
                    p_base := None, p_origin := None\<rparr>"

definition rebuild_edit :: "placement \<Rightarrow> rebuild_state \<Rightarrow> rebuild_state" where
  "rebuild_edit p st =
     (if p_handle p |\<in>| rb_carried st then st
      else if rekey_edited p then
        st\<lparr>rb_written := finsert (p_handle p) (rb_written st),
           rb_writes := rb_writes st @ [UpsertPlacement (resurrect p)],
           rb_carried := finsert (p_handle p) (rb_carried st),
           rb_report := (rb_report st)\<lparr>rr_rekeyed := rr_rekeyed (rb_report st) + 1\<rparr>\<rparr>
      else st)"

definition rebuild_drops :: "rekey \<Rightarrow> placement list \<Rightarrow> handle fset \<Rightarrow> write_op list" where
  "rebuild_drops self old written =
     map (\<lambda>p. DropPlacement (rk_collection self) (p_handle p) Superseded)
       (filter (\<lambda>p. p_handle p |\<notin>| written) old)"

definition rebuild :: "rekey \<Rightarrow> (handle, resolved) btree_map \<Rightarrow> (rekey \<times> write_op list) option" where
  "rebuild self links =
     (let old = filter (\<lambda>p. p_status p \<noteq> Created) (rk_old self);
          by_link = bt_collect (List.map_filter (\<lambda>p. map_option (\<lambda>l. (l, p)) (p_link_id p)) old);
          items = rk_items self;
          self = self\<lparr>rk_old := [], rk_items := []\<rparr>;
          st = \<lparr>rb_by_link = by_link, rb_written = {||}, rb_carried = {||}, rb_writes = [],
                rb_report = rk_report self\<rparr>;
          st = fold (rebuild_item self links) items st;
          st = fold rebuild_edit old st;
          dropped = length (filter (\<lambda>p. p_status p \<noteq> Clean \<and> p_handle p |\<notin>| rb_carried st) old);
          report = (rb_report st)\<lparr>rr_dropped := rr_dropped (rb_report st) + dropped\<rparr>;
          writes = rb_writes st @ rebuild_drops self old (rb_written st)
      in do {
           checkpoint \<leftarrow> rk_checkpoint self;
           Some (self\<lparr>rk_report := report, rk_checkpoint := None\<rparr>,
                 writes @ [SetCheckpoint (rk_collection self) checkpoint])
         })"

section \<open>The coroutine\<close>

definition rekey_rebuilt ::
  "rekey \<Rightarrow> (handle, resolved) btree_map \<Rightarrow> (rekey, arg_error, rekey_report) step" where
  "rekey_rebuilt self links =
     do {
       (self, writes) \<leftarrow> rebuild self links;
       Some (self, Yielded (WantsWrite writes))
     }"

definition rekey_resume :: "rekey \<Rightarrow> arg option \<Rightarrow> (rekey, arg_error, rekey_report) step" where
  "rekey_resume self a =
     (case (rk_state self, a) of
        (RkStart, None) \<Rightarrow>
          Some (self\<lparr>rk_state := RkPendingLoad\<rparr>, Yielded (WantsLoad (rk_collection self) ScopeAll))
      | (RkPendingLoad, Some (ArgLoad ld)) \<Rightarrow>
          Some (self\<lparr>rk_old := ld_placements ld, rk_state := RkPendingEnumerate\<rparr>,
                Yielded (WantsEnumerate (rk_collection self) None))
      | (RkPendingEnumerate, Some (ArgEnumerate snapshot)) \<Rightarrow>
          (let self = self\<lparr>rk_items := rs_items snapshot,
                           rk_checkpoint := Some (rs_checkpoint snapshot)\<rparr>
           in if \<not> list_ex (\<lambda>p. p_link_id p \<noteq> None) (rk_old self)
              then rekey_rebuilt (self\<lparr>rk_state := RkPendingWrite\<rparr>) []
              else Some (self\<lparr>rk_state := RkPendingFetch\<rparr>,
                         Yielded (WantsFetch (rk_collection self) (map ri_handle (rk_items self)) TierMeta)))
      | (RkPendingFetch, Some (ArgFetch fetched)) \<Rightarrow>
          rekey_rebuilt (self\<lparr>rk_state := RkPendingWrite\<rparr>)
            (bt_collect (map (\<lambda>f. (fi_handle f, (fi_link_id f, fi_meta f, fi_sort_key f))) fetched))
      | (RkPendingWrite, Some ArgWrite) \<Rightarrow>
          Some (self\<lparr>rk_state := RkDone\<rparr>, Complete (Inr (rk_report self)))
      | (_, Some _) \<Rightarrow> Some (self, Complete (Inl UnexpectedArg))
      | (_, None) \<Rightarrow> Some (self, Complete (Inl MissingArg)))"

definition rekey_inv :: "rekey \<Rightarrow> bool" where
  "rekey_inv self \<longleftrightarrow> (rk_state self = RkPendingFetch \<longrightarrow> rk_checkpoint self \<noteq> None)"

definition rekey_finished :: "rekey \<Rightarrow> bool" where
  "rekey_finished self \<longleftrightarrow> rk_state self = RkDone"

definition rekey_rank :: "rekey \<Rightarrow> nat \<times> nat" where
  "rekey_rank self =
     (case rk_state self of RkStart \<Rightarrow> 5 | RkPendingLoad \<Rightarrow> 4 | RkPendingEnumerate \<Rightarrow> 3
      | RkPendingFetch \<Rightarrow> 2 | RkPendingWrite \<Rightarrow> 1 | RkDone \<Rightarrow> 0, 0)"

lemma rebuild_eq:
  "rk_checkpoint self = Some ck \<Longrightarrow>
    \<exists>report writes. rebuild self links =
      Some (self\<lparr>rk_old := [], rk_items := [], rk_report := report, rk_checkpoint := None\<rparr>,
            writes @ [SetCheckpoint (rk_collection self) ck])"
  by (simp add: rebuild_def Let_def) metis

lemma rekey_rebuilt_ok:
  assumes "rk_checkpoint self \<noteq> None" "rk_state self = RkPendingWrite" "rekey_rank c = (n, 0)" "1 < n"
  shows "step_ok rekey_inv rekey_rank rekey_finished c (rekey_rebuilt self links)"
  using assms rebuild_eq[of self _ links]
  by (auto simp: rekey_rebuilt_def rekey_inv_def rekey_rank_def)

interpretation rek: verb rekey_resume rekey_inv rekey_rank rekey_finished "\<lambda>e. e"
proof (rule verbI)
  show "rekey_inv c \<Longrightarrow> step_ok rekey_inv rekey_rank rekey_finished c (rekey_resume c a)" for c a
    by (auto simp: rekey_resume_def Let_def rekey_inv_def rekey_finished_def rekey_rank_def
          intro!: rekey_rebuilt_ok split: rekey_state.splits option.splits arg.splits)
  show "rekey_finished c \<Longrightarrow> rekey_resume c a = Some (c, Complete (Inl (bad_arg a)))" for c a
    by (cases a) (auto simp: rekey_resume_def rekey_finished_def)
qed

definition rekey_ready :: "rekey \<Rightarrow> arg option \<Rightarrow> bool" where
  "rekey_ready self a \<longleftrightarrow>
     (case (rk_state self, a) of
        (RkStart, None) \<Rightarrow> True
      | (RkPendingLoad, Some (ArgLoad _)) \<Rightarrow> True
      | (RkPendingEnumerate, Some (ArgEnumerate _)) \<Rightarrow> True
      | (RkPendingFetch, Some (ArgFetch _)) \<Rightarrow> True
      | (RkPendingWrite, Some ArgWrite) \<Rightarrow> True
      | _ \<Rightarrow> False)"

lemma rekey_rebuilt_yields:
  "rekey_rebuilt self links = Some (c', r) \<Longrightarrow>
     (\<exists>ops. r = Yielded (WantsWrite ops)) \<and> rk_state c' = rk_state self"
  by (auto simp: rekey_rebuilt_def rebuild_def Let_def split: Option.bind_splits)

interpretation rek_driven:
  driven_verb rekey_resume rekey_inv rekey_rank rekey_finished "\<lambda>e. e" rekey_ready
  by unfold_locales
    (auto simp: rekey_resume_def rekey_ready_def Let_def elim!: answers.elims
       dest: rekey_rebuilt_yields
       split: rekey_state.splits option.splits arg.splits if_splits)

section \<open>What a rebuild writes\<close>

text \<open>The old spine a rebuild carries: pending creates are local staging.\<close>

definition old_spine :: "rekey \<Rightarrow> placement list" where
  "old_spine self = filter (\<lambda>p. p_status p \<noteq> Created) (rk_old self)"

definition rebuild_start :: "rekey \<Rightarrow> rebuild_state" where
  "rebuild_start self =
     \<lparr>rb_by_link = bt_collect (List.map_filter (\<lambda>p. map_option (\<lambda>l. (l, p)) (p_link_id p)) (old_spine self)),
      rb_written = {||}, rb_carried = {||}, rb_writes = [], rb_report = rk_report self\<rparr>"

text \<open>The state after both loops.\<close>

definition rebuild_final :: "rekey \<Rightarrow> (handle, resolved) btree_map \<Rightarrow> rebuild_state" where
  "rebuild_final self links =
     fold rebuild_edit (old_spine self)
       (fold (rebuild_item (self\<lparr>rk_old := [], rk_items := []\<rparr>) links) (rk_items self) (rebuild_start self))"

lemma rebuild_ops:
  "rebuild self links = Some (self', ops) \<Longrightarrow>
     \<exists>ck. rk_checkpoint self = Some ck
        \<and> ops = rb_writes (rebuild_final self links)
               @ rebuild_drops self (old_spine self) (rb_written (rebuild_final self links))
               @ [SetCheckpoint (rk_collection self) ck]"
  by (auto simp: rebuild_def rebuild_final_def rebuild_start_def old_spine_def rebuild_drops_def Let_def
        split: Option.bind_splits)

text \<open>
  What both loops keep: the batch holds upserts alone, the handles written are theirs, and a
  handle counts as carried for a carried or a resurrected placement of the old spine.
\<close>

definition rebuild_ok :: "rekey \<Rightarrow> placement list \<Rightarrow> rebuild_state \<Rightarrow> bool" where
  "rebuild_ok self old st \<longleftrightarrow>
     (\<forall>op \<in> set (rb_writes st). \<exists>q. op = UpsertPlacement q \<and> p_handle q |\<in>| rb_written st)
     \<and> (\<forall>h. h |\<in>| rb_written st \<longrightarrow> (\<exists>q. UpsertPlacement q \<in> set (rb_writes st) \<and> p_handle q = h))
     \<and> (\<forall>h. h |\<in>| rb_carried st \<longrightarrow> (\<exists>p \<in> set old. p_handle p = h
           \<and> ((\<exists>item r. UpsertPlacement (carry self p item r) \<in> set (rb_writes st))
              \<or> UpsertPlacement (resurrect p) \<in> set (rb_writes st))))
     \<and> (\<forall>l p. map_of (rb_by_link st) l = Some p \<longrightarrow> p \<in> set old)"

lemma carry_handle [simp]: "p_handle (carry self p item r) = ri_handle item"
  by (simp add: carry_def Let_def)

lemma fresh_handle [simp]: "p_handle (fresh self item r) = ri_handle item"
  by (simp add: fresh_def)

lemma resurrect_handle [simp]: "p_handle (resurrect p) = p_handle p"
  by (simp add: resurrect_def)

lemma rebuild_item_ok: "rebuild_ok self old st \<Longrightarrow> rebuild_ok self old (rebuild_item self links item st)"
  by (auto simp: rebuild_ok_def rebuild_item_def Let_def split: option.splits prod.splits) blast+

lemma rebuild_edit_ok:
  "p \<in> set old \<Longrightarrow> rebuild_ok self old st \<Longrightarrow> rebuild_ok self old (rebuild_edit p st)"
  by (auto simp: rebuild_ok_def rebuild_edit_def) blast+

lemma rebuild_items_ok:
  "rebuild_ok self old st \<Longrightarrow> rebuild_ok self old (fold (rebuild_item self links) items st)"
  by (induction items arbitrary: st) (simp_all add: rebuild_item_ok)

lemma rebuild_edits_ok:
  "set ps \<subseteq> set old \<Longrightarrow> rebuild_ok self old st \<Longrightarrow> rebuild_ok self old (fold rebuild_edit ps st)"
  by (induction ps arbitrary: st) (simp_all add: rebuild_edit_ok)

lemma rebuild_start_ok: "rebuild_ok self' (old_spine self) (rebuild_start self)"
  by (auto simp: rebuild_ok_def rebuild_start_def bt_get_collect List.map_filter_def dest!: map_of_SomeD)

lemma carry_collection_only:
  "carry (self\<lparr>rk_old := a, rk_items := b\<rparr>) p item r = carry self p item r"
  by (simp add: carry_def)

lemma rebuild_final_ok: "rebuild_ok self (old_spine self) (rebuild_final self links)"
proof -
  have "rebuild_ok (self\<lparr>rk_old := [], rk_items := []\<rparr>) (old_spine self) (rebuild_final self links)"
    unfolding rebuild_final_def by (intro rebuild_edits_ok rebuild_items_ok rebuild_start_ok) simp
  then show ?thesis by (simp add: rebuild_ok_def carry_collection_only)
qed

lemma rebuild_writes_mono:
  "set (rb_writes st) \<subseteq> set (rb_writes (rebuild_item self links item st))"
  "set (rb_writes st) \<subseteq> set (rb_writes (rebuild_edit p st))"
  by (auto simp: rebuild_item_def rebuild_edit_def Let_def split: option.split)

lemma fold_rebuild_edit_mono: "set (rb_writes st) \<subseteq> set (rb_writes (fold rebuild_edit ps st))"
  by (induction ps arbitrary: st) (use rebuild_writes_mono(2) in \<open>auto, blast\<close>)

lemma rebuild_item_writes:
  "\<exists>q. UpsertPlacement q \<in> set (rb_writes (rebuild_item self links item st)) \<and> p_handle q = ri_handle item"
  by (auto simp: rebuild_item_def Let_def split: option.split)

lemma fold_rebuild_item_writes:
  "item \<in> set items \<Longrightarrow>
     \<exists>q. UpsertPlacement q \<in> set (rb_writes (fold (rebuild_item self links) items st)) \<and> p_handle q = ri_handle item"
proof (induction items arbitrary: st)
  case (Cons i items)
  have mono: "set (rb_writes st) \<subseteq> set (rb_writes (fold (rebuild_item self links) items st))" for st
    by (induction items arbitrary: st) (use rebuild_writes_mono(1) in \<open>auto, blast\<close>)
  show ?case
  proof (cases "item = i")
    case True
    with rebuild_item_writes[of self links i st] mono show ?thesis by fastforce
  qed (use Cons in simp)
qed simp

text \<open>An edit the second loop visits is carried by then, or it carries it.\<close>

lemma fold_rebuild_edit_carries:
  "p \<in> set ps \<Longrightarrow> rekey_edited p \<Longrightarrow> p_handle p |\<in>| rb_carried (fold rebuild_edit ps st)"
proof (induction ps arbitrary: st)
  case (Cons p' ps)
  have mono: "h |\<in>| rb_carried st \<Longrightarrow> h |\<in>| rb_carried (fold rebuild_edit ps st)" for h st
    by (induction ps arbitrary: st) (simp_all add: rebuild_edit_def)
  show ?case
  proof (cases "p = p'")
    case True
    with Cons.prems have "p_handle p |\<in>| rb_carried (rebuild_edit p' st)"
      by (simp add: rebuild_edit_def)
    with mono show ?thesis by simp
  qed (use Cons in simp)
qed simp

lemma rekey_written:
  assumes "rebuild self links = Some (self', ops)" "UpsertPlacement q \<in> set ops"
  shows "\<not> (\<exists>c r. DropPlacement c (p_handle q) r \<in> set ops)"
proof -
  let ?st = "rebuild_final self links"
  obtain ck where ops: "ops = rb_writes ?st @ rebuild_drops self (old_spine self) (rb_written ?st)
      @ [SetCheckpoint (rk_collection self) ck]"
    using rebuild_ops[OF assms(1)] by blast
  have ok: "rebuild_ok self (old_spine self) ?st" by (rule rebuild_final_ok)
  have "UpsertPlacement q \<in> set (rb_writes ?st)" using assms(2) by (auto simp: ops rebuild_drops_def)
  then have "p_handle q |\<in>| rb_written ?st" using ok unfolding rebuild_ok_def by fastforce
  then show ?thesis using ok by (auto simp: ops rebuild_drops_def rebuild_ok_def)
qed

text \<open>
  C26: a rebuild replaces the spine and never reads as a delete. Every drop of the batch says
  the row is superseded, names a handle of the old spine and a handle the batch does not
  write; every row of the old spine is dropped or written; every member of the new handle
  space is written; and the checkpoint closes the batch.
\<close>

theorem rekey_supersedes_old_spine:
  assumes "rebuild self links = Some (self', ops)"
  shows "(\<forall>c h r. DropPlacement c h r \<in> set ops \<longrightarrow>
            r = Superseded \<and> c = rk_collection self \<and> h \<in> p_handle ` set (old_spine self)
            \<and> (\<forall>q. UpsertPlacement q \<in> set ops \<longrightarrow> p_handle q \<noteq> h))
    \<and> (\<forall>p \<in> set (old_spine self). DropPlacement (rk_collection self) (p_handle p) Superseded \<in> set ops
          \<or> (\<exists>q. UpsertPlacement q \<in> set ops \<and> p_handle q = p_handle p))
    \<and> (\<forall>item \<in> set (rk_items self). \<exists>q. UpsertPlacement q \<in> set ops \<and> p_handle q = ri_handle item)
    \<and> (\<exists>ck. last ops = SetCheckpoint (rk_collection self) ck)"
proof -
  let ?st = "rebuild_final self links"
  obtain ck where ops: "ops = rb_writes ?st @ rebuild_drops self (old_spine self) (rb_written ?st)
      @ [SetCheckpoint (rk_collection self) ck]"
    using rebuild_ops[OF assms] by blast
  have ok: "rebuild_ok self (old_spine self) ?st" by (rule rebuild_final_ok)
  have upserts: "UpsertPlacement q \<in> set ops \<longleftrightarrow> UpsertPlacement q \<in> set (rb_writes ?st)" for q
    by (auto simp: ops rebuild_drops_def)
  have drops: "DropPlacement c h r \<in> set ops \<longleftrightarrow>
      c = rk_collection self \<and> r = Superseded \<and> h \<in> p_handle ` set (old_spine self) \<and> h |\<notin>| rb_written ?st"
    for c h r
    using ok by (auto simp: ops rebuild_drops_def rebuild_ok_def)
  have written: "\<exists>q. UpsertPlacement q \<in> set ops \<and> p_handle q = h" if "h |\<in>| rb_written ?st" for h
    using ok that upserts unfolding rebuild_ok_def by blast
  have not_written: "p_handle q |\<in>| rb_written ?st" if "UpsertPlacement q \<in> set ops" for q
    using ok that unfolding upserts rebuild_ok_def by fastforce
  have items: "\<exists>q. UpsertPlacement q \<in> set ops \<and> p_handle q = ri_handle item" if "item \<in> set (rk_items self)" for item
    using fold_rebuild_item_writes[OF that] fold_rebuild_edit_mono unfolding upserts rebuild_final_def by blast
  have "\<forall>p \<in> set (old_spine self). DropPlacement (rk_collection self) (p_handle p) Superseded \<in> set ops
      \<or> (\<exists>q. UpsertPlacement q \<in> set ops \<and> p_handle q = p_handle p)"
    using drops written by blast
  moreover have "\<forall>c h r. DropPlacement c h r \<in> set ops \<longrightarrow>
      r = Superseded \<and> c = rk_collection self \<and> h \<in> p_handle ` set (old_spine self)
      \<and> (\<forall>q. UpsertPlacement q \<in> set ops \<longrightarrow> p_handle q \<noteq> h)"
    using drops not_written by blast
  moreover have "last ops = SetCheckpoint (rk_collection self) ck" by (simp add: ops)
  ultimately show ?thesis using items by blast
qed

text \<open>The rows the first loop writes, one per member, and the rows it has carried.\<close>

lemma rebuild_item_row:
  "\<exists>q. rb_writes (rebuild_item self links item st) = rb_writes st @ [UpsertPlacement q] \<and> p_handle q = ri_handle item"
  by (cases "map_of links (ri_handle item)") (auto simp: rebuild_item_def Let_def split: option.split)

lemma rebuild_items_rows:
  "\<exists>qs. rb_writes (fold (rebuild_item self links) items st) = rb_writes st @ map UpsertPlacement qs
     \<and> map p_handle qs = map ri_handle items"
proof (induction items arbitrary: st)
  case (Cons item items)
  obtain q where q: "rb_writes (rebuild_item self links item st) = rb_writes st @ [UpsertPlacement q]" "p_handle q = ri_handle item"
    using rebuild_item_row by blast
  obtain qs where "rb_writes (fold (rebuild_item self links) items (rebuild_item self links item st))
      = rb_writes (rebuild_item self links item st) @ map UpsertPlacement qs" "map p_handle qs = map ri_handle items"
    using Cons by blast
  with q show ?case by (intro exI[of _ "q # qs"]) simp
qed simp

text \<open>What every entry of \<open>rb_carried\<close> stands for, before the second loop: a carried row.\<close>

definition carried_ok :: "rekey \<Rightarrow> placement list \<Rightarrow> remote_item list \<Rightarrow> rebuild_state \<Rightarrow> bool" where
  "carried_ok self old items st \<longleftrightarrow>
     (\<forall>h. h |\<in>| rb_carried st \<longrightarrow> (\<exists>p \<in> set old. p_handle p = h
        \<and> (\<exists>item \<in> set items. \<exists>r. UpsertPlacement (carry self p item r) \<in> set (rb_writes st))))
     \<and> (\<forall>l p. map_of (rb_by_link st) l = Some p \<longrightarrow> p \<in> set old)"

lemma carried_ok_items:
  "set items \<subseteq> set all \<Longrightarrow> carried_ok self old all st \<Longrightarrow> carried_ok self old all (fold (rebuild_item self links) items st)"
proof (induction items arbitrary: st)
  case (Cons item items)
  have "carried_ok self old all (rebuild_item self links item st)"
    using Cons.prems by (auto simp: carried_ok_def rebuild_item_def Let_def split: option.splits prod.splits) blast+
  with Cons show ?case by simp
qed simp

text \<open>A row whose link a new member resolves to, and no other old row has, is carried.\<close>

definition resolved_anew :: "rekey \<Rightarrow> (handle, resolved) btree_map \<Rightarrow> placement \<Rightarrow> bool" where
  "resolved_anew self links p \<longleftrightarrow>
     (\<exists>l. p_link_id p = Some l
        \<and> (\<exists>item \<in> set (rk_items self). map_option fst (map_of links (ri_handle item)) = Some l)
        \<and> (\<forall>p' \<in> set (old_spine self). p_link_id p' = Some l \<longrightarrow> p' = p))"

lemma fold_rebuild_item_carries:
  assumes "item \<in> set items" "map_option fst (map_of links (ri_handle item)) = Some l"
    "map_of (rb_by_link st) l = Some p \<or> p_handle p |\<in>| rb_carried st"
  shows "p_handle p |\<in>| rb_carried (fold (rebuild_item self links) items st)"
  using assms
proof (induction items arbitrary: st)
  case (Cons i items)
  have keeps: "map_of (rb_by_link (rebuild_item self links i st)) l = Some p \<or> p_handle p |\<in>| rb_carried (rebuild_item self links i st)"
    using Cons.prems(3) by (auto simp: rebuild_item_def Let_def split: option.split)
  show ?case
  proof (cases "item = i")
    case True
    with Cons.prems(2,3) have "p_handle p |\<in>| rb_carried (rebuild_item self links i st)"
      by (auto simp: rebuild_item_def Let_def split: option.split)
    moreover have "h |\<in>| rb_carried st \<Longrightarrow> h |\<in>| rb_carried (fold (rebuild_item self links) items st)" for h st
      by (induction items arbitrary: st) (auto simp: rebuild_item_def Let_def split: option.split)
    ultimately show ?thesis by simp
  next
    case False
    with Cons.prems(1,2) keeps show ?thesis by (simp add: Cons.IH)
  qed
qed simp

lemma by_link_start:
  assumes "p \<in> set (old_spine self)" "p_link_id p = Some l" "\<forall>p' \<in> set (old_spine self). p_link_id p' = Some l \<longrightarrow> p' = p"
  shows "map_of (rb_by_link (rebuild_start self)) l = Some p"
proof -
  let ?es = "List.map_filter (\<lambda>p. map_option (\<lambda>l. (l, p)) (p_link_id p)) (old_spine self)"
  have "(l, p) \<in> set ?es" using assms(1,2) by (force simp: List.map_filter_def)
  moreover have only: "p' = p" if "(l, p') \<in> set ?es" for p' using that assms(3) by (auto simp: List.map_filter_def)
  ultimately have "map_of (rev ?es) l = Some p"
  proof (cases "map_of (rev ?es) l")
    case None
    then have "l \<notin> fst ` set ?es" by (simp add: map_of_eq_None_iff)
    with \<open>(l, p) \<in> set ?es\<close> show ?thesis by force
  next
    case (Some p')
    with only show ?thesis by (auto dest: map_of_SomeD)
  qed
  then show ?thesis by (simp add: rebuild_start_def bt_get_collect)
qed

text \<open>The second loop writes one row per handle, each of an edit not carried before.\<close>

lemma rebuild_edits_rows:
  "distinct (map p_handle ps) \<Longrightarrow>
   rb_writes (fold rebuild_edit ps st) = rb_writes st
     @ map (UpsertPlacement \<circ> resurrect) (filter (\<lambda>p. rekey_edited p \<and> p_handle p |\<notin>| rb_carried st) ps)"
proof (induction ps arbitrary: st)
  case (Cons p ps)
  have "p_handle p \<notin> p_handle ` set ps" using Cons.prems by simp
  then have "\<forall>q \<in> set ps. p_handle q \<noteq> p_handle p" by (metis imageI)
  then have "filter (\<lambda>q. rekey_edited q \<and> p_handle q |\<notin>| rb_carried (rebuild_edit p st)) ps
      = filter (\<lambda>q. rekey_edited q \<and> p_handle q |\<notin>| rb_carried st) ps"
    by (intro filter_cong) (auto simp: rebuild_edit_def)
  moreover have "distinct (map p_handle ps)" using Cons.prems by simp
  ultimately show ?case using Cons.IH[of "rebuild_edit p st"] by (simp add: rebuild_edit_def)
qed simp

text \<open>
  C25: a renumbering loses no staged edit, unless a new member takes the handle of one. Take a
  rebuild over distinct old handles and distinct new ones, in which a new member takes the
  handle of an edited row only if that row is carried elsewhere: some new member resolves to its
  link id, which no other old row has. Then for every row that is dirty or in conflict over a
  body it never synced, the batch upserts a row with that body and link id, and writes nothing
  else under that row's handle and never drops it. The row is either carried onto a new member,
  with its status kept and that member's flags and revision as its base over the body it last
  synced, or stays under its own handle as a pending create without a base.
\<close>

theorem rekey_keeps_staged_edits:
  assumes "rebuild self links = Some (self', ops)" "p \<in> set (old_spine self)"
    "p_status p \<in> {Dirty, Conflict}" "p_object p = Some obj" "\<forall>b. p_base p = Some b \<longrightarrow> b_object b \<noteq> Some obj"
    "distinct (map p_handle (old_spine self))" "distinct (map ri_handle (rk_items self))"
    "\<forall>q \<in> set (old_spine self). rekey_edited q \<and> p_handle q \<in> ri_handle ` set (rk_items self) \<longrightarrow> resolved_anew self links q"
  shows "\<exists>q. UpsertPlacement q \<in> set ops \<and> p_object q = Some obj \<and> p_link_id q = p_link_id p
    \<and> (\<forall>q'. UpsertPlacement q' \<in> set ops \<and> p_handle q' = p_handle q \<longrightarrow> q' = q)
    \<and> (\<forall>c r. DropPlacement c (p_handle q) r \<notin> set ops)
    \<and> ((\<exists>item \<in> set (rk_items self). p_handle q = ri_handle item \<and> p_status q = p_status p
          \<and> p_base q = Some \<lparr>b_flags = ri_flags item, b_revision = ri_revision item,
                             b_object = Option.bind (p_base p) b_object\<rparr>)
       \<or> p_handle q = p_handle p \<and> p_status q = Created \<and> p_base q = None)"
proof -
  let ?self = "self\<lparr>rk_old := [], rk_items := []\<rparr>" and ?old = "old_spine self"
  let ?st1 = "fold (rebuild_item ?self links) (rk_items self) (rebuild_start self)" and ?st = "rebuild_final self links"
  let ?kept = "filter (\<lambda>p. rekey_edited p \<and> p_handle p |\<notin>| rb_carried ?st1) ?old"
  obtain ck where ops: "ops = rb_writes ?st @ rebuild_drops self ?old (rb_written ?st) @ [SetCheckpoint (rk_collection self) ck]"
    using rebuild_ops[OF assms(1)] by blast
  obtain qs where qs: "rb_writes ?st1 = map UpsertPlacement qs" "map p_handle qs = map ri_handle (rk_items self)"
    using rebuild_items_rows[of ?self links "rk_items self" "rebuild_start self"] by (auto simp: rebuild_start_def)
  have writes: "rb_writes ?st = map UpsertPlacement (qs @ map resurrect ?kept)"
    by (simp add: rebuild_final_def rebuild_edits_rows[OF assms(6)] qs(1))
  have upserts: "UpsertPlacement q \<in> set ops \<longleftrightarrow> q \<in> set (qs @ map resurrect ?kept)" for q
    by (auto simp: ops writes rebuild_drops_def)
  have kept_new: "p_handle q \<notin> ri_handle ` set (rk_items self)" if "q \<in> set ?kept" for q
  proof
    assume "p_handle q \<in> ri_handle ` set (rk_items self)"
    with that assms(8) have "resolved_anew self links q" by auto
    then obtain l item where l: "p_link_id q = Some l" "item \<in> set (rk_items self)"
      "map_option fst (map_of links (ri_handle item)) = Some l" "\<forall>p' \<in> set ?old. p_link_id p' = Some l \<longrightarrow> p' = q"
      by (auto simp: resolved_anew_def)
    have "q \<in> set ?old" using that by simp
    from fold_rebuild_item_carries[OF l(2,3) disjI1[OF by_link_start[OF this l(1,4)]]] that show False by simp
  qed
  have "p_handle ` set qs = ri_handle ` set (rk_items self)"
    using qs(2) by (metis list.set_map)
  moreover have "distinct (map p_handle ?kept)" using assms(6) by (intro distinct_map_filter)
  moreover have "distinct (map p_handle qs)" using assms(7) qs(2) by simp
  moreover have "p_handle ` set ?kept \<inter> ri_handle ` set (rk_items self) = {}" using kept_new by blast
  moreover have "map p_handle (map resurrect ?kept) = map p_handle ?kept" by simp
  ultimately have "distinct (map p_handle (qs @ map resurrect ?kept))"
    by (simp only: map_append distinct_append set_map) blast
  then have inj: "inj_on p_handle (set (qs @ map resurrect ?kept))" unfolding distinct_map by (rule conjunct2)
  have once: "q' = q" if "UpsertPlacement q \<in> set ops" "UpsertPlacement q' \<in> set ops" "p_handle q' = p_handle q" for q q'
    by (rule inj_onD[OF inj that(3)]) (rule that(1,2)[unfolded upserts])+
  have undropped: "DropPlacement c (p_handle q) r \<notin> set ops" if "UpsertPlacement q \<in> set ops" for q c r
    using rekey_written[OF assms(1) that] by blast
  have edited: "rekey_edited p" using assms(3-5) by (cases "p_base p") (auto simp: rekey_edited_def)
  have "\<exists>q. UpsertPlacement q \<in> set ops \<and> p_object q = Some obj \<and> p_link_id q = p_link_id p
    \<and> ((\<exists>item \<in> set (rk_items self). p_handle q = ri_handle item \<and> p_status q = p_status p
          \<and> p_base q = Some \<lparr>b_flags = ri_flags item, b_revision = ri_revision item,
                             b_object = Option.bind (p_base p) b_object\<rparr>)
       \<or> p_handle q = p_handle p \<and> p_status q = Created \<and> p_base q = None)"
  proof (cases "p_handle p |\<in>| rb_carried ?st1")
    case True
    have "carried_ok ?self ?old (rk_items self) ?st1"
      by (rule carried_ok_items) (use rebuild_start_ok[of ?self self] in \<open>auto simp: carried_ok_def rebuild_ok_def rebuild_start_def\<close>)
    with True obtain p' item r where p': "p' \<in> set ?old" "p_handle p' = p_handle p" "item \<in> set (rk_items self)"
      "UpsertPlacement (carry ?self p' item r) \<in> set (rb_writes ?st1)"
      unfolding carried_ok_def by blast
    then have "p' = p" using assms(2,6) by (metis distinct_map inj_onD)
    then have "UpsertPlacement (carry self p item r) \<in> set ops"
      using p'(4) by (auto simp: upserts qs(1) carry_collection_only)
    moreover have "p_status (carry self p item r) = p_status p"
      using assms(3-5) by (cases "p_base p") (auto simp: carry_def Let_def)
    ultimately show ?thesis using p'(3) assms(4)
      by (intro exI[of _ "carry self p item r"]) (auto simp: carry_def Let_def)
  next
    case False
    with assms(2) edited have "UpsertPlacement (resurrect p) \<in> set ops" by (simp add: upserts)
    with assms(4) show ?thesis by (intro exI[of _ "resurrect p"]) (simp add: resurrect_def)
  qed
  then show ?thesis using once undropped by blast
qed

text \<open>The rebuild the witnesses run: one row under handle 1, one member under handle 9.\<close>

definition sample_item :: "string \<Rightarrow> remote_item" where
  "sample_item h = \<lparr>ri_handle = Handle h, ri_flags = flags_default, ri_revision = Some ''1''\<rparr>"

definition sample_rekey :: "placement list \<Rightarrow> remote_item list \<Rightarrow> rekey" where
  "sample_rekey old items =
     (rekey_new (CollectionId ''inbox''))\<lparr>rk_old := old, rk_items := items, rk_checkpoint := Some (Checkpoint [])\<rparr>"

lemma sample_rekey_simps [simp]:
  "rk_old (sample_rekey old items) = old" "rk_items (sample_rekey old items) = items"
  "rk_collection (sample_rekey old items) = CollectionId ''inbox''"
  "rk_checkpoint (sample_rekey old items) = Some (Checkpoint [])"
  by (simp_all add: sample_rekey_def rekey_new_def)

lemma sample_rebuild: "\<exists>self' ops. rebuild (sample_rekey old items) links = Some (self', ops)"
  using rebuild_eq[of "sample_rekey old items" "Checkpoint []" links] by auto

theorem rekey_supersedes_old_spine_witness:
  "\<exists>self' ops. rebuild (sample_rekey [sample_placement ''1''] [sample_item ''9'']) [] = Some (self', ops)
     \<and> (\<exists>q. UpsertPlacement q \<in> set ops \<and> p_handle q = Handle ''9'')"
proof -
  obtain self' ops
    where run: "rebuild (sample_rekey [sample_placement ''1''] [sample_item ''9'']) [] = Some (self', ops)"
    using sample_rebuild by blast
  with rekey_supersedes_old_spine[OF run] show ?thesis by (simp add: sample_item_def)
qed

theorem rekey_keeps_staged_edits_witness:
  "\<exists>self' ops q. rebuild (sample_rekey [(sample_placement ''1'')\<lparr>p_status := Dirty, p_base := None\<rparr>] [sample_item ''9'']) []
      = Some (self', ops) \<and> UpsertPlacement q \<in> set ops \<and> p_object q = Some (Hash ''x'')"
proof -
  let ?p = "(sample_placement ''1'')\<lparr>p_status := Dirty, p_base := None\<rparr>"
  let ?self = "sample_rekey [?p] [sample_item ''9'']"
  obtain self' ops where run: "rebuild ?self [] = Some (self', ops)" using sample_rebuild by blast
  have old: "old_spine ?self = [?p]" by (simp add: old_spine_def)
  have "?p \<in> set (old_spine ?self)" "p_status ?p \<in> {Dirty, Conflict}" "p_object ?p = Some (Hash ''x'')"
    "\<forall>b. p_base ?p = Some b \<longrightarrow> b_object b \<noteq> Some (Hash ''x'')"
    "distinct (map p_handle (old_spine ?self))" "distinct (map ri_handle (rk_items ?self))"
    "\<forall>q \<in> set (old_spine ?self). rekey_edited q \<and> p_handle q \<in> ri_handle ` set (rk_items ?self) \<longrightarrow> resolved_anew ?self [] q"
    unfolding old by (simp_all add: sample_item_def sample_placement_def)
  from rekey_keeps_staged_edits[OF run this] run show ?thesis by blast
qed

section \<open>What a carried row keeps\<close>

text \<open>
  What a row keeps when it is carried onto a new handle. Its identity, body and level
  are its own, its base is the new member's flags and revision with the body it last synced,
  and its pending state survives: a delete and a conflict stay pending, a staged edit is
  still one, a flag the user added or removed since the last sync still differs from the new
  base, and a row with nothing pending over an unchanged member is clean.
\<close>

theorem rekey_carry_keeps_state:
  "let q = carry self p item r in
     p_handle q = ri_handle item \<and> p_link_id q = p_link_id p \<and> p_object q = p_object p
     \<and> p_level q = p_level p \<and> p_origin q = p_origin p
     \<and> p_base q = Some \<lparr>b_flags = ri_flags item, b_revision = ri_revision item,
                        b_object = Option.bind (p_base p) b_object\<rparr>
     \<and> p_flags q = flags_merge (case p_base p of Some b \<Rightarrow> b_flags b | None \<Rightarrow> flags_default) (p_flags p) (ri_flags item)
     \<and> (p_status q = Tombstone \<longleftrightarrow> p_status p = Tombstone)
     \<and> (p_status q = Conflict \<longleftrightarrow> p_status p = Conflict)
     \<and> staged_edit q = staged_edit p
     \<and> (if p_status p = Dirty \<and> staged_edit p \<noteq> None then p_status q = Dirty
        else if p_status p \<in> {Tombstone, Conflict} then p_status q = p_status p
        else p_status q = (if p_flags q = ri_flags item then Clean else Dirty))"
  by (cases "p_base p"; cases "p_object p"; cases "p_status p")
    (simp_all add: carry_def staged_edit_def Let_def)

section \<open>Two collisions a rebuild does not resolve\<close>

text \<open>
  A reused handle loses the new member. When the new handle space reuses the handle of a
  staged edit it does not match, the batch writes that handle twice, the new member first
  and the resurrected edit over it, so that a storage applying the batch in order ends up
  without the member the checkpoint of the same batch says it has.
\<close>

theorem rekey_reused_handle_overwritten:
  assumes "rk_old self = [p]" "rk_items self = [item]" "rk_checkpoint self = Some ck"
    "rekey_edited p" "ri_handle item = p_handle p" "p_link_id p \<noteq> Some l"
  shows "map_option snd (rebuild self [(ri_handle item, (l, m, k))])
    = Some [UpsertPlacement (fresh self item (Some (l, m, k))), UpsertPlacement (resurrect p),
            SetCheckpoint (rk_collection self) ck]
    \<and> p_handle (fresh self item (Some (l, m, k))) = p_handle (resurrect p)"
proof -
  let ?self = "self\<lparr>rk_old := [], rk_items := []\<rparr>" and ?links = "[(ri_handle item, (l, m, k))]"
  let ?by_link = "bt_collect (List.map_filter (\<lambda>p. map_option (\<lambda>l. (l, p)) (p_link_id p)) [p])"
  let ?f = "UpsertPlacement (fresh self item (Some (l, m, k)))" and ?r = "UpsertPlacement (resurrect p)"
  have "p_status p \<noteq> Created" using assms(4) by (auto simp: rekey_edited_def)
  then have old: "filter (\<lambda>p. p_status p \<noteq> Created) (rk_old self) = [p]" using assms(1) by simp
  have unlinked: "map_of ?by_link l = None"
    using assms(6) by (cases "p_link_id p") (simp_all add: List.map_filter_def bt_get_collect)
  have first: "rebuild_item ?self ?links item \<lparr>rb_by_link = bl, rb_written = {||}, rb_carried = {||}, rb_writes = [], rb_report = rp\<rparr>
      = \<lparr>rb_by_link = bt_remove l bl, rb_written = {|ri_handle item|}, rb_carried = {||}, rb_writes = [?f],
         rb_report = rp\<lparr>rr_pulled := rr_pulled rp + 1\<rparr>\<rparr>" if "map_of bl l = None" for bl rp
    using that by (simp add: rebuild_item_def fresh_def)
  have second: "rebuild_edit p \<lparr>rb_by_link = bl, rb_written = w, rb_carried = {||}, rb_writes = [?f], rb_report = rp\<rparr>
      = \<lparr>rb_by_link = bl, rb_written = finsert (p_handle p) w, rb_carried = {|p_handle p|}, rb_writes = [?f, ?r],
         rb_report = rp\<lparr>rr_rekeyed := rr_rekeyed rp + 1\<rparr>\<rparr>" for bl w rp
    using assms(4) by (simp add: rebuild_edit_def)
  have "map_option snd (rebuild self ?links) = Some [?f, ?r, SetCheckpoint (rk_collection self) ck]"
    unfolding rebuild_def Let_def old assms(2)
    using assms(3,5) first[OF unlinked] second by (simp add: rebuild_drops_def)
  with assms(5) show ?thesis by simp
qed

theorem rekey_reused_handle_overwritten_witness:
  "p_handle (fresh (sample_rekey [(sample_placement ''1'')\<lparr>p_status := Dirty, p_base := None\<rparr>] [sample_item ''1''])
      (sample_item ''1'') (Some (LinkId ''z'', Meta [], sort_key_default)))
   = p_handle (resurrect ((sample_placement ''1'')\<lparr>p_status := Dirty, p_base := None\<rparr>))"
proof -
  let ?p = "(sample_placement ''1'')\<lparr>p_status := Dirty, p_base := None\<rparr>"
  have "rekey_edited ?p" "ri_handle (sample_item ''1'') = p_handle ?p" "p_link_id ?p \<noteq> Some (LinkId ''z'')"
    by (simp_all add: rekey_edited_def sample_item_def sample_defs)
  from rekey_reused_handle_overwritten[OF _ _ _ this, of "sample_rekey [?p] [sample_item ''1'']"]
  show ?thesis by simp
qed

text \<open>
  A rebuild can link two rows under one link id. When the new members hold two copies of
  an identity, the first is carried and the second is written as a new row under the same
  link id, where an upgrade resolving the same two copies would mint a key for the second.
\<close>

theorem rekey_links_second_copy:
  assumes "rk_old self = [p]" "rk_items self = [i, j]" "rk_checkpoint self = Some ck"
    "p_status p = Clean" "p_link_id p = Some l" "ri_handle i < ri_handle j"
    "links = [(ri_handle i, (l, m, k)), (ri_handle j, (l, m', k'))]"
  shows "\<exists>q q'. {UpsertPlacement q, UpsertPlacement q'} \<subseteq> set (snd (the (rebuild self links)))
    \<and> p_handle q = ri_handle i \<and> p_handle q' = ri_handle j
    \<and> p_link_id q = Some l \<and> p_link_id q' = Some l"
proof -
  have link: "p_link_id (carry self' p i r) = Some l" "p_link_id (fresh self' j (Some (l, m', k'))) = Some l"
    for self' r
    using assms(5) by (simp_all add: carry_def fresh_def Let_def)
  let ?self = "self\<lparr>rk_old := [], rk_items := []\<rparr>"
  let ?st0 = "\<lparr>rb_by_link = [(l, p)], rb_written = {||}, rb_carried = {||}, rb_writes = [], rb_report = rk_report self\<rparr>"
  let ?c = "UpsertPlacement (carry ?self p i (Some (l, m, k)))" and ?f = "UpsertPlacement (fresh ?self j (Some (l, m', k')))"
  let ?r1 = "(rk_report self)\<lparr>rr_rekeyed := rr_rekeyed (rk_report self) + 1\<rparr>"
  let ?r2 = "?r1\<lparr>rr_pulled := rr_pulled ?r1 + 1\<rparr>"
  let ?st2 = "\<lparr>rb_by_link = [], rb_written = {|ri_handle j, ri_handle i|}, rb_carried = {|p_handle p|},
      rb_writes = [?c, ?f], rb_report = ?r2\<rparr>"
  have old: "filter (\<lambda>p. p_status p \<noteq> Created) (rk_old self) = [p]" using assms(1,4) by simp
  have links: "map_of links (ri_handle i) = Some (l, m, k)" "map_of links (ri_handle j) = Some (l, m', k')"
    using assms(6,7) by auto
  have first: "fold (rebuild_item ?self links) [i, j] ?st0 = ?st2"
    by (simp add: rebuild_item_def links bt_remove_def)
  have "\<not> rekey_edited p" using assms(4) by (simp add: rekey_edited_def)
  then have second: "fold rebuild_edit [p] ?st2 = ?st2" by (simp add: rebuild_edit_def)
  have "snd (the (rebuild self links)) = [?c, ?f] @ rebuild_drops ?self [p] {|ri_handle j, ri_handle i|}
      @ [SetCheckpoint (rk_collection self) ck]"
    using first second by (simp add: rebuild_def Let_def old assms(2,3,5) List.map_filter_def bt_collect_def)
  then show ?thesis
    by (intro exI[of _ "carry (self\<lparr>rk_old := [], rk_items := []\<rparr>) p i (Some (l, m, k))"]
          exI[of _ "fresh (self\<lparr>rk_old := [], rk_items := []\<rparr>) j (Some (l, m', k'))"])
      (simp add: link)
qed

theorem rekey_links_second_copy_witness:
  "\<exists>q q'. {UpsertPlacement q, UpsertPlacement q'} \<subseteq> set (snd (the (rebuild
          (sample_rekey [sample_placement ''1''] [sample_item ''8'', sample_item ''9''])
          [(ri_handle (sample_item ''8''), (LinkId ''1'', Meta [], sort_key_default)),
           (ri_handle (sample_item ''9''), (LinkId ''1'', Meta [], sort_key_default))])))
     \<and> p_handle q = ri_handle (sample_item ''8'') \<and> p_handle q' = ri_handle (sample_item ''9'')
     \<and> p_link_id q = Some (LinkId ''1'') \<and> p_link_id q' = Some (LinkId ''1'')"
proof (rule rekey_links_second_copy[OF _ _ _ _ _ _ refl])
  show "p_status (sample_placement ''1'') = Clean" "p_link_id (sample_placement ''1'') = Some (LinkId ''1'')"
    "ri_handle (sample_item ''8'') < ri_handle (sample_item ''9'')"
    by (simp_all add: sample_defs sample_item_def less_char_def)
qed simp_all

end
