(* ===== verification/Client.thy ===== *)
theory Client
  imports Open_Verb Mutate Upgrade Rekey Sync_Run
begin

text \<open>
  The blocking driver (\<open>client.rs\<close>): a storage and a remote, given as the functions the two
  traits ask for, and the loop that runs a verb over them. The loop has no bound of its own,
  so it is a \<open>partial_function\<close> whose \<open>None\<close> is divergence; that it always returns is proved
  from the contract of the verbs.
\<close>

section \<open>The two seams as parameters\<close>

text \<open>
  The traits \<open>ReplicaStorage\<close> and \<open>ReplicaRemote\<close>. A method that borrows mutably also
  returns the state it leaves, whether it succeeds or fails.
\<close>

record ('s, 'e) storage_ops =
  st_load :: "'s \<Rightarrow> collection_id \<Rightarrow> load_scope \<Rightarrow> 'e + loaded"
  st_lookup_objects :: "'s \<Rightarrow> link_id list \<Rightarrow> 'e + (link_id, hash) btree_map"
  st_write :: "write_op list \<Rightarrow> 's \<Rightarrow> 's \<times> ('e + unit)"

record ('r, 'f) remote_ops =
  rm_enumerate :: "collection_id \<Rightarrow> checkpoint option \<Rightarrow> 'r \<Rightarrow> 'r \<times> ('f + remote_snapshot)"
  rm_fetch :: "collection_id \<Rightarrow> handle list \<Rightarrow> tier \<Rightarrow> 'r \<Rightarrow> 'r \<times> ('f + fetched_item list)"
  rm_push :: "collection_id \<Rightarrow> change list \<Rightarrow> 'r \<Rightarrow> 'r \<times> ('f + push_result list)"

datatype ('e, 'f, 'c) client_error = StorageError 'e | RemoteError 'f | CoroutineError 'c

record ('s, 'r) client =
  cl_storage :: 's
  cl_remote :: 'r

definition client_new :: "'s \<Rightarrow> 'r \<Rightarrow> ('s, 'r) client" where
  "client_new storage remote = \<lparr>cl_storage = storage, cl_remote = remote\<rparr>"

section \<open>Servicing a yield\<close>

fun map_ok :: "('a \<Rightarrow> 'b) \<Rightarrow> ('x \<Rightarrow> 'y) \<Rightarrow> 'a + 'x \<Rightarrow> 'b + 'y" where
  "map_ok f g (Inl e) = Inl (f e)"
| "map_ok f g (Inr x) = Inr (g x)"

definition service ::
  "('s, 'e) storage_ops \<Rightarrow> ('r, 'f) remote_ops \<Rightarrow> yield \<Rightarrow> ('s, 'r) client
     \<Rightarrow> ('s, 'r) client \<times> (('e, 'f, 'c) client_error + arg)" where
  "service sto rem y cl =
     (case y of
        WantsEnumerate collection cursor \<Rightarrow>
          (let (r, res) = rm_enumerate rem collection cursor (cl_remote cl)
           in (cl\<lparr>cl_remote := r\<rparr>, map_ok RemoteError ArgEnumerate res))
      | WantsFetch collection handles tier \<Rightarrow>
          (let (r, res) = rm_fetch rem collection handles tier (cl_remote cl)
           in (cl\<lparr>cl_remote := r\<rparr>, map_ok RemoteError ArgFetch res))
      | WantsPush collection changes \<Rightarrow>
          (let (r, res) = rm_push rem collection changes (cl_remote cl)
           in (cl\<lparr>cl_remote := r\<rparr>, map_ok RemoteError ArgPush res))
      | WantsLoad collection scope \<Rightarrow>
          (cl, map_ok StorageError ArgLoad (st_load sto (cl_storage cl) collection scope))
      | WantsLookupObject links \<Rightarrow>
          (cl, map_ok StorageError ArgLookupObject (st_lookup_objects sto (cl_storage cl) links))
      | WantsWrite ops \<Rightarrow>
          (let (s, res) = st_write sto ops (cl_storage cl)
           in (cl\<lparr>cl_storage := s\<rparr>, map_ok StorageError (\<lambda>_. ArgWrite) res)))"

section \<open>Running a coroutine\<close>

text \<open>How a run ends: a panic inside the coroutine, or a result.\<close>

datatype ('e, 'f, 'c, 't) outcome = Panicked | Returned "('e, 'f, 'c) client_error + 't"

partial_function (option) run ::
  "('s, 'e) storage_ops \<Rightarrow> ('r, 'f) remote_ops \<Rightarrow> ('k \<Rightarrow> arg option \<Rightarrow> ('k, 'c, 't) step)
     \<Rightarrow> 'k \<Rightarrow> arg option \<Rightarrow> ('s, 'r) client \<Rightarrow> (('s, 'r) client \<times> ('e, 'f, 'c, 't) outcome) option" where
  "run sto rem resume c a cl =
     (case resume c a of
        None \<Rightarrow> Some (cl, Panicked)
      | Some (c', Complete (Inr out)) \<Rightarrow> Some (cl, Returned (Inr out))
      | Some (c', Complete (Inl err)) \<Rightarrow> Some (cl, Returned (Inl (CoroutineError err)))
      | Some (c', Yielded y) \<Rightarrow>
          (case service sto rem y cl of
             (cl', Inl err) \<Rightarrow> Some (cl', Returned (Inl err))
           | (cl', Inr b) \<Rightarrow> run sto rem resume c' (Some b) cl'))"

lemma run_complete:
  "resume c a = Some (c', Complete (Inr out)) \<Longrightarrow> run sto rem resume c a cl = Some (cl, Returned (Inr out))"
  by (simp add: run.simps[of _ _ _ c])

lemma run_yield:
  fixes sto :: "('s, 'e) storage_ops" and rem :: "('r, 'f) remote_ops"
    and resume :: "'k \<Rightarrow> arg option \<Rightarrow> ('k, 'c, 't) step"
  assumes "resume c a = Some (c', Yielded y)"
    and "service sto rem y cl = (cl', (Inr b :: ('e, 'f, 'c) client_error + arg))"
  shows "run sto rem resume c a cl = run sto rem resume c' (Some b) cl'"
  using assms by (simp add: run.simps[of _ _ _ c])

text \<open>
  Evaluating a concrete run: one iteration as a function of what the coroutine answers, and the
  continuation as a function of what the seam served, so that a simplification set drives a run
  by the constructors it meets.
\<close>

definition run_served where
  "run_served sto rem resume c served =
     (case served of
        (cl, Inl err) \<Rightarrow> Some (cl, Returned (Inl err))
      | (cl, Inr b) \<Rightarrow> run sto rem resume c (Some b) cl)"

definition run_step where
  "run_step sto rem resume cl st =
     (case st of
        None \<Rightarrow> Some (cl, Panicked)
      | Some (c', Complete (Inr out)) \<Rightarrow> Some (cl, Returned (Inr out))
      | Some (c', Complete (Inl err)) \<Rightarrow> Some (cl, Returned (Inl (CoroutineError err)))
      | Some (c', Yielded y) \<Rightarrow> run_served sto rem resume c' (service sto rem y cl))"

lemma run_eval: "run sto rem resume c a cl = run_step sto rem resume cl (resume c a)"
  unfolding run_step_def run_served_def by (simp add: run.simps[of _ _ _ c])

lemma run_step_simps:
  "run_step sto rem resume cl (Some (c', Complete (Inr out))) = Some (cl, Returned (Inr out))"
  "run_step sto rem resume cl (Some (c', Complete (Inl err))) = Some (cl, Returned (Inl (CoroutineError err)))"
  "run_step sto rem resume cl (Some (c', Yielded y)) = run_served sto rem resume c' (service sto rem y cl)"
  "run_served sto rem resume c' (cl, Inl e) = Some (cl, Returned (Inl e))"
  by (simp_all add: run_step_def run_served_def)

lemma run_served_ok: "run_served sto rem resume c' (cl, Inr b) = run_step sto rem resume cl (resume c' (Some b))"
  unfolding run_served_def by (simp add: run_eval[symmetric])

definition client_open where
  "client_open sto rem collection cl = run sto rem open_resume (open_new collection) None cl"

definition client_upgrade where
  "client_upgrade sto rem collection handles tier cl =
     run sto rem upgrade_resume (upgrade_new collection handles tier) None cl"

definition client_mutate where
  "client_mutate sto rem collection mutation cl =
     run sto rem mutate_resume (mutate_new collection mutation) None cl"

definition client_sync where
  "client_sync sto rem collection opts cl = run sto rem sync_resume (sync_new collection opts) None cl"

definition client_rekey where
  "client_rekey sto rem collection cl = run sto rem rekey_resume (rekey_new collection) None cl"

section \<open>What every verb gives a driver\<close>

lemma service_answers: "service sto rem y cl = (cl', Inr a) \<Longrightarrow> answers y a"
  by (cases y) (auto simp: service_def elim!: map_ok.elims split: prod.splits)

context driven_verb
begin

text \<open>Over any storage and any remote a run returns, and never with an argument error.\<close>

lemma run_returns:
  fixes sto :: "('s, 'e) storage_ops" and rem :: "('r, 'f) remote_ops"
  assumes "inv c" "ready c a"
  shows "\<exists>cl' r. run sto rem resume c a cl = Some (cl', Returned r)
           \<and> (\<forall>e. r \<noteq> Inl (CoroutineError (of_arg e)))"
  using assms
proof (induction "rank c" arbitrary: c a cl rule: wf_induct_rule[OF wf_rank_less])
  case 1
  obtain c' r where step: "resume c a = Some (c', r)"
    using no_panic[OF "1.prems"(1), of a] by fastforce
  show ?case
  proof (cases r)
    case (Complete out)
    with step ready_no_arg_error[OF "1.prems"] show ?thesis
      by (cases out) (auto simp: run.simps[of _ _ _ c])
  next
    case (Yielded y)
    have inv': "inv c'" using keeps "1.prems"(1) step by blast
    have less: "(rank c', rank c) \<in> rank_less"
      using yield_decreases "1.prems"(1) step Yielded by blast
    obtain cl' and res :: "('e, 'f, 'c) client_error + arg"
      where serve: "service sto rem y cl = (cl', res)" by fastforce
    show ?thesis
    proof (cases res)
      case (Inl err)
      have "\<forall>e. err \<noteq> CoroutineError (of_arg e)"
        using serve Inl
        by (cases y) (auto simp: service_def elim!: map_ok.elims split: prod.splits)
      with step Yielded serve Inl show ?thesis by (auto simp: run.simps[of _ _ _ c])
    next
      case (Inr b)
      have "ready c' (Some b)"
        using yield_ready "1.prems"(1) step Yielded service_answers serve Inr by blast
      from "1.hyps"[OF less inv' this] step Yielded serve Inr show ?thesis
        by (simp add: run.simps[of _ _ _ c])
    qed
  qed
qed

end

context offline_verb
begin

lemma service_keeps_remote: "\<not> is_remote y \<Longrightarrow> service sto rem y cl = (cl', res) \<Longrightarrow> cl_remote cl' = cl_remote cl"
  by (cases y) (auto simp: service_def split: prod.splits)

lemma run_offline:
  fixes sto :: "('s, 'e) storage_ops" and rem :: "('r, 'f) remote_ops"
  shows "inv c \<Longrightarrow> ready c a \<Longrightarrow> run sto rem resume c a cl = Some (cl', out)
    \<Longrightarrow> cl_remote cl' = cl_remote cl"
proof (induction "rank c" arbitrary: c a cl rule: wf_induct_rule[OF wf_rank_less])
  case 1
  obtain c' r where step: "resume c a = Some (c', r)"
    using no_panic[OF "1.prems"(1), of a] by fastforce
  show ?case
  proof (cases r)
    case (Complete t)
    with step "1.prems"(3) show ?thesis
      by (cases t) (simp_all add: run.simps[of _ _ _ c])
  next
    case (Yielded y)
    have inv': "inv c'" using keeps "1.prems"(1) step by blast
    have less: "(rank c', rank c) \<in> rank_less"
      using yield_decreases "1.prems"(1) step Yielded by blast
    obtain cl1 and res :: "('e, 'f, 'b) client_error + arg"
      where serve: "service sto rem y cl = (cl1, res)" by fastforce
    have same: "cl_remote cl1 = cl_remote cl"
      using offline "1.prems"(1) step Yielded service_keeps_remote serve by blast
    show ?thesis
    proof (cases res)
      case (Inl err)
      with step Yielded serve "1.prems"(3) same show ?thesis by (simp add: run.simps[of _ _ _ c])
    next
      case (Inr b)
      have "ready c' (Some b)"
        using yield_ready "1.prems"(1) step Yielded service_answers serve Inr by blast
      moreover have "run sto rem resume c' (Some b) cl1 = Some (cl', out)"
        using step Yielded serve Inr "1.prems"(3) by (simp add: run.simps[of _ _ _ c])
      ultimately show ?thesis using "1.hyps"[OF less inv'] same by simp
    qed
  qed
qed

end

section \<open>Every verb over every storage and remote\<close>

text \<open>
  C1: a client operation always returns. Over any storage and any remote, failing or not and
  whatever they answer, opening, upgrading, rekeying and syncing a collection return a
  result or an error of a seam after finitely many steps; they never panic, never run on
  forever, and never report that the driver broke the coroutine contract.
\<close>

theorem client_operations_return:
  "(\<exists>cl' r. client_open sto rem coll cl = Some (cl', Returned r) \<and> (\<nexists>e. r = Inl (CoroutineError e)))
   \<and> (\<exists>cl' r. client_upgrade sto rem coll handles tier cl = Some (cl', Returned r) \<and> (\<nexists>e. r = Inl (CoroutineError e)))
   \<and> (\<exists>cl' r. client_rekey sto rem coll cl = Some (cl', Returned r) \<and> (\<nexists>e. r = Inl (CoroutineError e)))
   \<and> (\<exists>cl' r. client_sync sto rem coll opts cl = Some (cl', Returned r) \<and> (\<nexists>e. r = Inl (CoroutineError e)))"
proof (intro conjI)
  show "\<exists>cl' r. client_open sto rem coll cl = Some (cl', Returned r) \<and> (\<nexists>e. r = Inl (CoroutineError e))"
    using opn_driven.run_returns[of "open_new coll" None sto rem cl]
    by (simp add: client_open_def open_new_def open_ready_def)
  show "\<exists>cl' r. client_upgrade sto rem coll handles tier cl = Some (cl', Returned r) \<and> (\<nexists>e. r = Inl (CoroutineError e))"
    using upg_driven.run_returns[of "upgrade_new coll handles tier" None sto rem cl]
    by (simp add: client_upgrade_def upgrade_new_def upgrade_ready_def)
  show "\<exists>cl' r. client_rekey sto rem coll cl = Some (cl', Returned r) \<and> (\<nexists>e. r = Inl (CoroutineError e))"
    using rek_driven.run_returns[of "rekey_new coll" None sto rem cl]
    by (simp add: client_rekey_def rekey_new_def rekey_ready_def rekey_inv_def)
  show "\<exists>cl' r. client_sync sto rem coll opts cl = Some (cl', Returned r) \<and> (\<nexists>e. r = Inl (CoroutineError e))"
    using syn_driven.run_returns[of "sync_new coll opts" None sto rem cl]
    by (simp add: client_sync_def sync_new_def sync_ready_def sync_inv_def)
qed

lemma mutate_new_ready: "mutate_ready (mutate_new coll m) None"
  by (simp add: mutate_new_def mutate_ready_def)

lemma open_new_ready: "open_ready (open_new coll) None"
  by (simp add: open_new_def open_ready_def)

text \<open>
  C37: opening and mutating never touch the network. Over any storage and any remote, both
  return, the remote is in the state it was in, and the only error of a mutation beyond the
  storage's own is one of its two refusals: an unknown handle or a link id already held.
\<close>

theorem client_offline_verbs:
  "(\<exists>cl' r. client_open sto rem coll cl = Some (cl', Returned r) \<and> cl_remote cl' = cl_remote cl)
   \<and> (\<exists>cl' r. client_mutate sto rem coll m cl = Some (cl', Returned r) \<and> cl_remote cl' = cl_remote cl
         \<and> (\<nexists>e. r = Inl (CoroutineError (MutateArg e))))"
proof
  show "\<exists>cl' r. client_open sto rem coll cl = Some (cl', Returned r) \<and> cl_remote cl' = cl_remote cl"
    using opn_driven.run_returns[OF TrueI open_new_ready, of sto rem coll cl]
      opn_driven.run_offline[OF TrueI open_new_ready, of sto rem coll cl]
    unfolding client_open_def by blast
  show "\<exists>cl' r. client_mutate sto rem coll m cl = Some (cl', Returned r) \<and> cl_remote cl' = cl_remote cl
      \<and> (\<nexists>e. r = Inl (CoroutineError (MutateArg e)))"
    using mut_driven.run_returns[OF TrueI mutate_new_ready, of sto rem coll m cl]
      mut_driven.run_offline[OF TrueI mutate_new_ready, of sto rem coll m cl]
    unfolding client_mutate_def by blast
qed

text \<open>
  No verb panics, whatever it is fed. Any sequence of arguments, matching or not, missing
  or repeated, drives each of the five verbs from its fresh state to a completion or to the
  end of the sequence.
\<close>

theorem verbs_never_panic:
  "feed open_resume (open_new coll) as \<noteq> None
   \<and> feed mutate_resume (mutate_new coll m) as \<noteq> None
   \<and> feed upgrade_resume (upgrade_new coll handles tier) as \<noteq> None
   \<and> feed rekey_resume (rekey_new coll) as \<noteq> None
   \<and> feed sync_resume (sync_new coll opts) as \<noteq> None"
  using opn.feed_no_panic[of "open_new coll" as] mut.feed_no_panic[of "mutate_new coll m" as]
    upg.feed_no_panic[of "upgrade_new coll handles tier" as] rek.feed_no_panic[of "rekey_new coll" as]
    syn.feed_no_panic[of "sync_new coll opts" as]
  by (simp add: rekey_new_def rekey_inv_def sync_new_def sync_inv_def)

end
