(* ===== verification/Mem_Store.thy ===== *)
theory Mem_Store
  imports Client "HOL-Library.Product_Lexorder"
begin

text \<open>
  The storage seam's contract, as a locale over what the trait promises, and the in-memory
  storage of the integration tests (\<open>tests/common/mod.rs\<close>) as its model. The facts of the
  client over a lawful storage are proved once in the locale.
\<close>

section \<open>Offline runs over any storage\<close>

text \<open>An open returns what the storage loads; a mutation of a row it finds makes its writes.\<close>

lemma client_open_loads:
  assumes "st_load sto (cl_storage cl) c ScopeAll = Inr ld"
  shows "client_open sto rem c cl = Some (cl, Returned (Inr ld))"
proof -
  let ?c = "(open_new c)\<lparr>ov_state := OpPendingLoad\<rparr>"
  have "open_resume (open_new c) None = Some (?c, Yielded (WantsLoad c ScopeAll))"
    "open_resume ?c (Some (ArgLoad ld)) = Some (?c\<lparr>ov_state := OpDone\<rparr>, Complete (Inr ld))"
    by (simp_all add: open_new_def open_resume_def)
  from run_yield[where resume = open_resume, OF this(1), of sto rem cl cl "ArgLoad ld"]
    run_complete[where resume = open_resume, OF this(2), of sto rem cl]
  show ?thesis using assms by (simp add: client_open_def service_def)
qed

lemma client_mutate_writes:
  assumes "mutation_handle m = Some h" "st_load sto (cl_storage cl) c (ScopeHandles [h]) = Inr ld"
    "List.find (\<lambda>p. p_handle p = h) (ld_placements ld) = Some p"
    "st_write sto (mutate_writes (mutate_new c m) p) (cl_storage cl) = (s', Inr ())"
  shows "client_mutate sto rem c m cl = Some (cl\<lparr>cl_storage := s'\<rparr>, Returned (Inr ()))"
proof -
  have scope: "mutation_scope m = ScopeHandles [h]"
    using assms(1) by (cases m) (simp_all add: mutation_scope_def)
  let ?m1 = "(mutate_new c m)\<lparr>mu_state := MuPendingLoad\<rparr>" and ?m2 = "(mutate_new c m)\<lparr>mu_state := MuPendingWrite\<rparr>"
  have writes: "mutate_writes ?m1 p = mutate_writes (mutate_new c m) p"
    by (cases m) (simp_all add: mutate_writes_def mutate_new_def create_writes_def)
  have step1: "mutate_resume (mutate_new c m) None = Some (?m1, Yielded (WantsLoad c (ScopeHandles [h])))"
    by (simp add: mutate_resume_def mutate_new_def scope)
  have step2: "mutate_resume ?m1 (Some (ArgLoad ld)) = Some (?m2, Yielded (WantsWrite (mutate_writes (mutate_new c m) p)))"
    using assms(1,3) writes
    by (cases m) (simp_all add: mutate_resume_def mutate_new_def)
  have step3: "mutate_resume ?m2 (Some ArgWrite) = Some (?m2\<lparr>mu_state := MuDone\<rparr>, Complete (Inr ()))"
    by (simp add: mutate_resume_def mutate_new_def)
  have "client_mutate sto rem c m cl = run sto rem mutate_resume ?m1 (Some (ArgLoad ld)) cl"
    unfolding client_mutate_def by (rule run_yield[where resume = mutate_resume, OF step1]) (simp add: service_def assms(2))
  also have "\<dots> = run sto rem mutate_resume ?m2 (Some ArgWrite) (cl\<lparr>cl_storage := s'\<rparr>)"
    by (rule run_yield[where resume = mutate_resume, OF step2]) (simp add: service_def assms(4))
  also have "\<dots> = Some (cl\<lparr>cl_storage := s'\<rparr>, Returned (Inr ()))"
    by (rule run_complete[where resume = mutate_resume, OF step3])
  finally show ?thesis .
qed

section \<open>The contract of a storage\<close>

fun in_scope :: "load_scope \<Rightarrow> placement \<Rightarrow> bool" where
  "in_scope ScopeAll p = True"
| "in_scope (ScopeHandles hs) p = (p_handle p \<in> set hs)"
| "in_scope (ScopeLinks ls) p = is_some_and (p_link_id p) (\<lambda>l. l \<in> set ls)"

type_synonym rows = "collection_id \<times> handle \<Rightarrow> placement option"

text \<open>What one write does to the rows of a storage.\<close>

fun apply_row :: "write_op \<Rightarrow> rows \<Rightarrow> rows" where
  "apply_row (UpsertPlacement p) m = m((p_collection p, p_handle p) \<mapsto> p)"
| "apply_row (DropPlacement c h _) m = m((c, h) := None)"
| "apply_row _ m = m"

text \<open>
  A load returns at least the rows its scope names and nothing that is not stored; a write
  applies its batch in order.
\<close>

locale replica_storage =
  fixes sto :: "('s, 'e) storage_ops" and inv :: "'s \<Rightarrow> bool" and rows :: "'s \<Rightarrow> rows"
  assumes load_ok: "inv s \<Longrightarrow> \<exists>ld. st_load sto s c sc = Inr ld
      \<and> (\<forall>h p. rows s (c, h) = Some p \<longrightarrow> in_scope sc p \<longrightarrow> p \<in> set (ld_placements ld))
      \<and> (\<forall>p \<in> set (ld_placements ld). rows s (c, p_handle p) = Some p)"
    and write_ok: "inv s \<Longrightarrow> \<exists>s'. st_write sto ops s = (s', Inr ()) \<and> inv s' \<and> rows s' = fold apply_row ops (rows s)"
    and keyed: "inv s \<Longrightarrow> rows s (c, h) = Some p \<Longrightarrow> p_collection p = c \<and> p_handle p = h"
begin

lemma open_returns_rows:
  assumes "inv (cl_storage cl)"
  shows "\<exists>ld. client_open sto rem c cl = Some (cl, Returned (Inr ld))
    \<and> (\<forall>p. p \<in> set (ld_placements ld) \<longleftrightarrow> (\<exists>h. rows (cl_storage cl) (c, h) = Some p))"
proof -
  obtain ld where ld: "st_load sto (cl_storage cl) c ScopeAll = Inr ld"
    "\<forall>h p. rows (cl_storage cl) (c, h) = Some p \<longrightarrow> p \<in> set (ld_placements ld)"
    "\<forall>p \<in> set (ld_placements ld). rows (cl_storage cl) (c, p_handle p) = Some p"
    using load_ok[OF assms, of c ScopeAll] by auto
  with client_open_loads[of sto cl c ld rem] show ?thesis by blast
qed

lemma load_finds:
  assumes "inv s" "rows s (c, h) = Some p" "st_load sto s c (ScopeHandles [h]) = Inr ld"
  shows "List.find (\<lambda>p. p_handle p = h) (ld_placements ld) = Some p"
proof -
  obtain ld' where ld': "st_load sto s c (ScopeHandles [h]) = Inr ld'"
    "\<forall>h' p. rows s (c, h') = Some p \<longrightarrow> p_handle p = h \<longrightarrow> p \<in> set (ld_placements ld')"
    "\<forall>p \<in> set (ld_placements ld'). rows s (c, p_handle p) = Some p"
    using load_ok[OF assms(1), of c "ScopeHandles [h]"] by auto
  have "p \<in> set (ld_placements ld)" "p_handle p = h"
    using ld' assms keyed by auto
  then obtain q where q: "List.find (\<lambda>p. p_handle p = h) (ld_placements ld) = Some q"
    by (cases "List.find (\<lambda>p. p_handle p = h) (ld_placements ld)") (auto simp: find_None_iff)
  then have "q \<in> set (ld_placements ld)" "p_handle q = h" by (auto simp: find_Some_iff)
  with ld' assms(2,3) have "q = p" by auto
  with q show ?thesis by simp
qed

text \<open>A mutation of a stored row returns, and the rows are those its writes leave.\<close>

lemma mutate_applies_writes:
  assumes "inv (cl_storage cl)" "rows (cl_storage cl) (c, h) = Some p" "mutation_handle m = Some h"
  shows "\<exists>cl'. client_mutate sto rem c m cl = Some (cl', Returned (Inr ()))
    \<and> inv (cl_storage cl') \<and> cl_remote cl' = cl_remote cl
    \<and> st_write sto (mutate_writes (mutate_new c m) p) (cl_storage cl) = (cl_storage cl', Inr ())
    \<and> rows (cl_storage cl') = fold apply_row (mutate_writes (mutate_new c m) p) (rows (cl_storage cl))"
proof -
  obtain ld where ld: "st_load sto (cl_storage cl) c (ScopeHandles [h]) = Inr ld"
    using load_ok[OF assms(1), of c "ScopeHandles [h]"] by auto
  obtain s' where s': "st_write sto (mutate_writes (mutate_new c m) p) (cl_storage cl) = (s', Inr ())" "inv s'"
    "rows s' = fold apply_row (mutate_writes (mutate_new c m) p) (rows (cl_storage cl))"
    using write_ok[OF assms(1)] by blast
  from client_mutate_writes[OF assms(3) ld load_finds[OF assms(1,2) ld] s'(1), of rem] s'
  show ?thesis by (intro exI[of _ "cl\<lparr>cl_storage := s'\<rparr>"]) simp
qed

end

section \<open>The contract of a storage that keeps cursors\<close>

text \<open>What one write does to the cursors, and a storage that answers the last one written.\<close>

type_synonym cursors = "collection_id \<Rightarrow> checkpoint option"

fun apply_cursor :: "write_op \<Rightarrow> cursors \<Rightarrow> cursors" where
  "apply_cursor (SetCheckpoint c ck) m = m(c \<mapsto> ck)"
| "apply_cursor _ m = m"

locale cursor_storage = replica_storage sto inv rows
  for sto :: "('s, 'e) storage_ops" and inv :: "'s \<Rightarrow> bool" and rows :: "'s \<Rightarrow> rows" +
  fixes cursor :: "'s \<Rightarrow> cursors"
  assumes load_cursor: "inv s \<Longrightarrow> st_load sto s c sc = Inr ld \<Longrightarrow> ld_checkpoint ld = cursor s c"
    and write_cursor: "inv s \<Longrightarrow> st_write sto ops s = (s', r) \<Longrightarrow> cursor s' = fold apply_cursor ops (cursor s)"
begin

lemma write_all:
  assumes "inv s"
  obtains s' where "st_write sto ops s = (s', Inr ())" "inv s'" "rows s' = fold apply_row ops (rows s)"
    "cursor s' = fold apply_cursor ops (cursor s)"
  using write_ok[OF assms, of ops] write_cursor[OF assms] by blast

end

section \<open>The in-memory storage\<close>

record mem_storage =
  ms_placements :: "(collection_id \<times> handle, placement) btree_map"
  ms_objects :: "(hash, object \<times> u8 list) btree_map"
  ms_checkpoints :: "(collection_id, checkpoint) btree_map"

definition mem_load :: "mem_storage \<Rightarrow> collection_id \<Rightarrow> load_scope \<Rightarrow> unit + loaded" where
  "mem_load s c sc =
     Inr \<lparr>ld_placements = filter (in_scope sc) (map snd (filter (\<lambda>e. fst (fst e) = c) (ms_placements s))),
          ld_checkpoint = map_of (ms_checkpoints s) c\<rparr>"

definition mem_lookup_objects :: "mem_storage \<Rightarrow> link_id list \<Rightarrow> unit + (link_id, hash) btree_map" where
  "mem_lookup_objects s links =
     Inr (fold (\<lambda>link known.
            case List.map_filter (\<lambda>p. if p_link_id p = Some link then p_object p else None)
                   (bt_values (ms_placements s)) of
              [] \<Rightarrow> known
            | hash # _ \<Rightarrow> bt_insert link hash known) links [])"

fun mem_apply :: "write_op \<Rightarrow> mem_storage \<Rightarrow> mem_storage" where
  "mem_apply (UpsertPlacement p) s =
     s\<lparr>ms_placements := bt_insert (p_collection p, p_handle p) p (ms_placements s)\<rparr>"
| "mem_apply (DropPlacement c h _) s = s\<lparr>ms_placements := bt_remove (c, h) (ms_placements s)\<rparr>"
| "mem_apply (StoreObject obj body) s =
     s\<lparr>ms_objects := bt_insert (o_hash obj) (obj, case body of Some b \<Rightarrow> b | None \<Rightarrow> []) (ms_objects s)\<rparr>"
| "mem_apply (SetCheckpoint c ck) s = s\<lparr>ms_checkpoints := bt_insert c ck (ms_checkpoints s)\<rparr>"

definition mem_write :: "write_op list \<Rightarrow> mem_storage \<Rightarrow> mem_storage \<times> (unit + unit)" where
  "mem_write ops s = (fold mem_apply ops s, Inr ())"

definition mem_ops :: "(mem_storage, unit) storage_ops" where
  "mem_ops = \<lparr>st_load = mem_load, st_lookup_objects = mem_lookup_objects, st_write = mem_write\<rparr>"

definition mem_inv :: "mem_storage \<Rightarrow> bool" where
  "mem_inv s \<longleftrightarrow> bt_wf (ms_placements s)
     \<and> (\<forall>c h p. map_of (ms_placements s) (c, h) = Some p \<longrightarrow> p_collection p = c \<and> p_handle p = h)"

definition mem_rows :: "mem_storage \<Rightarrow> rows" where
  "mem_rows s = map_of (ms_placements s)"

lemma mem_apply_ok: "mem_inv s \<Longrightarrow> mem_inv (mem_apply op s) \<and> mem_rows (mem_apply op s) = apply_row op (mem_rows s)"
  by (cases op) (auto simp: mem_inv_def mem_rows_def)

lemma mem_fold_ok:
  "mem_inv s \<Longrightarrow> mem_inv (fold mem_apply ops s) \<and> mem_rows (fold mem_apply ops s) = fold apply_row ops (mem_rows s)"
  by (induction ops arbitrary: s) (simp_all add: mem_apply_ok)

interpretation mem: replica_storage mem_ops mem_inv mem_rows
proof
  fix s c sc
  assume inv: "mem_inv s"
  then have mem: "((c, h), p) \<in> set (ms_placements s) \<longleftrightarrow> mem_rows s (c, h) = Some p" for h p
    by (simp add: mem_inv_def mem_rows_def bt.mem_entries)
  show "\<exists>ld. st_load mem_ops s c sc = Inr ld
      \<and> (\<forall>h p. mem_rows s (c, h) = Some p \<longrightarrow> in_scope sc p \<longrightarrow> p \<in> set (ld_placements ld))
      \<and> (\<forall>p \<in> set (ld_placements ld). mem_rows s (c, p_handle p) = Some p)"
    using inv mem
    by (force simp: mem_ops_def mem_load_def mem_inv_def mem_rows_def)
next
  show "mem_inv s \<Longrightarrow> \<exists>s'. st_write mem_ops ops s = (s', Inr ()) \<and> mem_inv s'
      \<and> mem_rows s' = fold apply_row ops (mem_rows s)" for s ops
    by (simp add: mem_ops_def mem_write_def mem_fold_ok)
  show "mem_inv s \<Longrightarrow> mem_rows s (c, h) = Some p \<Longrightarrow> p_collection p = c \<and> p_handle p = h" for s c h p
    by (simp add: mem_inv_def mem_rows_def)
qed

definition mem_cursor :: "mem_storage \<Rightarrow> cursors" where
  "mem_cursor s = map_of (ms_checkpoints s)"

lemma mem_fold_cursor: "mem_cursor (fold mem_apply ops s) = fold apply_cursor ops (mem_cursor s)"
proof (induction ops arbitrary: s)
  case (Cons op ops)
  have "mem_cursor (mem_apply op s) = apply_cursor op (mem_cursor s)"
    by (cases op) (simp_all add: mem_cursor_def)
  with Cons.IH show ?case by simp
qed simp

interpretation mem_cur: cursor_storage mem_ops mem_inv mem_rows mem_cursor
  by unfold_locales (auto simp: mem_ops_def mem_load_def mem_write_def mem_fold_cursor, simp add: mem_cursor_def)

section \<open>A local edit is read back\<close>

text \<open>
  An edit is applied offline and read back. Over the in-memory storage, editing a stored
  row returns without touching the remote, and opening the collection then returns that row
  with the edited body, dirty unless it was a pending create or the edit restores the synced
  body, every other row of every collection being as it was.
\<close>

theorem edit_then_open:
  assumes "mem_inv s" "mem_rows s (c, h) = Some p" "p_status p \<noteq> Conflict"
  shows "\<exists>cl' ld q. client_mutate mem_ops rem c (MEdit h obj body m k) (client_new s r) = Some (cl', Returned (Inr ()))
    \<and> cl_remote cl' = r
    \<and> client_open mem_ops rem c cl' = Some (cl', Returned (Inr ld))
    \<and> q \<in> set (ld_placements ld) \<and> p_handle q = h \<and> p_object q = Some (o_hash obj) \<and> p_base q = p_base p
    \<and> (p_status q = Dirty \<or> p_status q = p_status p \<and> (p_status p = Created \<or> staged_edit q = None))
    \<and> (\<forall>c' h'. (c', h') \<noteq> (c, h) \<longrightarrow> mem_rows (cl_storage cl') (c', h') = mem_rows s (c', h'))"
proof -
  let ?q = "edit_placement p obj m k"
  have p: "p_collection p = c" "p_handle p = h" using mem.keyed assms(1,2) by auto
  obtain cl' where cl': "client_mutate mem_ops rem c (MEdit h obj body m k) (client_new s r) = Some (cl', Returned (Inr ()))"
    "mem_inv (cl_storage cl')" "cl_remote cl' = r"
    "mem_rows (cl_storage cl') = fold apply_row (mutate_writes (mutate_new c (MEdit h obj body m k)) p) (mem_rows s)"
    using mem.mutate_applies_writes[of "client_new s r" c h p "MEdit h obj body m k" rem] assms(1,2)
    by (auto simp: client_new_def)
  then have rows: "mem_rows (cl_storage cl') = (mem_rows s)((c, h) \<mapsto> ?q)"
    using p by (simp add: mutate_writes_def mutate_new_def)
  obtain ld where ld: "client_open mem_ops rem c cl' = Some (cl', Returned (Inr ld))"
    "\<And>x. x \<in> set (ld_placements ld) \<longleftrightarrow> (\<exists>h. mem_rows (cl_storage cl') (c, h) = Some x)"
    using mem.open_returns_rows[OF cl'(2)] by blast
  have "p_status ?q = Dirty \<or> p_status ?q = p_status p \<and> (p_status p = Created \<or> staged_edit ?q = None)"
    using assms(3)
    by (auto simp: edit_placement_plain staged_edit_def is_none_or_iff is_some_and_iff)
  moreover have "?q \<in> set (ld_placements ld)" using ld(2) rows by auto
  ultimately show ?thesis
    using cl'(1,3) ld(1) rows p assms(3)
    by (intro exI[of _ cl'] exI[of _ ld] exI[of _ ?q]) (simp add: edit_placement_plain)
qed

theorem edit_then_open_witness:
  "\<forall>rem :: (unit, unit) remote_ops. \<exists>cl' ld q.
     client_open mem_ops rem (CollectionId ''inbox'') cl' = Some (cl', Returned (Inr ld))
     \<and> q \<in> set (ld_placements ld) \<and> p_object q = Some (Hash ''y'')"
proof
  fix rem :: "(unit, unit) remote_ops"
  let ?s = "\<lparr>ms_placements = [((CollectionId ''inbox'', Handle ''1''), sample_placement ''1'')],
      ms_objects = [], ms_checkpoints = []\<rparr>"
  have "mem_inv ?s" "mem_rows ?s (CollectionId ''inbox'', Handle ''1'') = Some (sample_placement ''1'')"
    "p_status (sample_placement ''1'') \<noteq> Conflict"
    by (simp_all add: mem_inv_def mem_rows_def bt_wf_def sample_placement_def)
  from edit_then_open[OF this, of rem "\<lparr>o_hash = Hash ''y'', o_size = 1\<rparr>" "[7]" None None "()"]
  show "\<exists>cl' ld q. client_open mem_ops rem (CollectionId ''inbox'') cl' = Some (cl', Returned (Inr ld))
      \<and> q \<in> set (ld_placements ld) \<and> p_object q = Some (Hash ''y'')"
    by auto
qed

end
