(* ===== verification/Sync_Whole.thy ===== *)
theory Sync_Whole
  imports Mem_Store Sync_Laws
begin

text \<open>
  A whole SYNC run against its one-shot reference. The reference merges every candidate in
  handle order, pushes what the merge derived chunk by chunk, and collects all it would write
  in one list. The theorems say that the interruptible run, which flushes its writes in
  bounded batches between resumes, leaves the storage, the remote and the report exactly as
  the reference does.
\<close>

section \<open>The reference\<close>

text \<open>The candidates a merge in progress has still to visit, in order.\<close>

definition candidates :: "merging \<Rightarrow> candidate list" where
  "candidates m =
     (if mg_complete m then join_all (mg_join m)
      else List.map_filter (narrow m) (join_all (mg_join m)))"

fun merge_all :: "candidate list \<Rightarrow> sync \<Rightarrow> sync option" where
  "merge_all [] s = Some s"
| "merge_all (c # cs) s = Option.bind (merge_candidate c s) (merge_all cs)"

text \<open>A chunk leaves the queue and is in flight.\<close>

definition send_chunk :: "sync \<Rightarrow> sync \<times> change list" where
  "send_chunk s =
     (let size = min (length (sy_pushes s)) PUSH_CHUNK;
          changes = take size (sy_pushes s)
      in (s\<lparr>sy_pushes := drop size (sy_pushes s), sy_in_flight := map change_handle changes\<rparr>, changes))"

function push_rounds :: "('r, 'f) remote_ops \<Rightarrow> 'r \<Rightarrow> sync \<Rightarrow> ('r \<times> sync) option" where
  "push_rounds rem r s =
     (if sy_pushes s = [] then Some (r, s)
      else (let (s1, changes) = send_chunk s in
            case rm_push rem (sy_collection s) changes r of
              (r', Inl e) \<Rightarrow> None
            | (r', Inr results) \<Rightarrow> push_rounds rem r' (settle_chunk results s1)))"
  by pat_completeness auto
termination
  by (relation "measure (\<lambda>(_, _, s). length (sy_pushes s))") (auto simp: send_chunk_def Let_def PUSH_CHUNK_def)

declare push_rounds.simps [simp del]

text \<open>
  A sync of a loaded collection against a remote: the remote it leaves, the writes it makes in
  order and the report it answers.
\<close>

definition opened :: "loaded \<Rightarrow> remote_snapshot \<Rightarrow> merging" where
  "opened ld sn =
     \<lparr>mg_join = join_new (bt_collect (map (\<lambda>p. (p_handle p, p)) (ld_placements ld))) (snapshot_items (rs_items sn)),
      mg_vanished = fset_of_list (rs_vanished sn), mg_complete = rs_complete sn,
      mg_checkpoint = rs_checkpoint sn\<rparr>"

definition sync_spec ::
  "('r, 'f) remote_ops \<Rightarrow> collection_id \<Rightarrow> sync_options \<Rightarrow> loaded \<Rightarrow> 'r
     \<Rightarrow> ('r \<times> write_op list \<times> sync_report) option" where
  "sync_spec rem coll opts ld r =
     (case rm_enumerate rem coll (if opt_full opts then None else ld_checkpoint ld) r of
        (r1, Inl e) \<Rightarrow> None
      | (r1, Inr sn) \<Rightarrow>
          do {
            s \<leftarrow> merge_all (candidates (opened ld sn)) (sync_new coll opts);
            (r2, s) \<leftarrow> push_rounds rem r1 s;
            Some (r2, sy_writes s @ [SetCheckpoint coll (rs_checkpoint sn)], sy_report s)
          })"

section \<open>Flushing is invisible to the merge\<close>

text \<open>
  A state as the reference sees it: the writes already flushed are still in the list, and
  where the run stands is left out.
\<close>

definition view :: "write_op list \<Rightarrow> sync \<Rightarrow> sync" where
  "view w s = s\<lparr>sy_writes := w @ sy_writes s, sy_state := SyStart, sy_merging := None,
                 sy_next_checkpoint := None, sy_checkpoint := None\<rparr>"

lemma view_fields [simp]:
  "sy_opts (view w s) = sy_opts s" "sy_collection (view w s) = sy_collection s"
  "sy_pushes (view w s) = sy_pushes s" "sy_report (view w s) = sy_report s"
  "sy_writes (view w s) = w @ sy_writes s" "sy_in_flight (view w s) = sy_in_flight s"
  "sy_pending_flag_pushes (view w s) = sy_pending_flag_pushes s"
  "sy_pending_content_pushes (view w s) = sy_pending_content_pushes s"
  "sy_pending_drops (view w s) = sy_pending_drops s" "sy_pending_creates (view w s) = sy_pending_creates s"
  by (simp_all add: view_def)

lemma recording_fields [simp]:
  "sy_opts (write_push op s) = sy_opts s" "sy_opts (emit ev s) = sy_opts s" "sy_opts (count_pulled s) = sy_opts s"
  "sy_pending_flag_pushes (write_push op s) = sy_pending_flag_pushes s"
  "sy_pending_flag_pushes (emit ev s) = sy_pending_flag_pushes s"
  "sy_pending_flag_pushes (count_pulled s) = sy_pending_flag_pushes s"
  "sy_pending_creates (write_push op s) = sy_pending_creates s"
  "sy_report (write_push op s) = sy_report s" "sy_collection (write_push op s) = sy_collection s"
  by (simp_all add: recording)

text \<open>Recording a write, an event or a pending change commutes with the view.\<close>

lemma view_updates [simp]:
  "write_push op (view w s) = view w (write_push op s)" "emit ev (view w s) = view w (emit ev s)"
  "count_pulled (view w s) = view w (count_pulled s)" "sync_drop h reason (view w s) = view w (sync_drop h reason s)"
  "view w s\<lparr>sy_report := rp\<rparr> = view w (s\<lparr>sy_report := rp\<rparr>)"
  "view w s\<lparr>sy_pushes := ps\<rparr> = view w (s\<lparr>sy_pushes := ps\<rparr>)"
  "view w s\<lparr>sy_in_flight := hs\<rparr> = view w (s\<lparr>sy_in_flight := hs\<rparr>)"
  "view w s\<lparr>sy_pending_flag_pushes := m\<rparr> = view w (s\<lparr>sy_pending_flag_pushes := m\<rparr>)"
  "view w s\<lparr>sy_pending_content_pushes := m\<rparr> = view w (s\<lparr>sy_pending_content_pushes := m\<rparr>)"
  "view w s\<lparr>sy_pending_drops := d\<rparr> = view w (s\<lparr>sy_pending_drops := d\<rparr>)"
  "view w s\<lparr>sy_pending_creates := m\<rparr> = view w (s\<lparr>sy_pending_creates := m\<rparr>)"
  by (simp_all add: view_def recording)

text \<open>The fields a view forgets may change under it.\<close>

lemma view_forgets [simp]:
  "view w (s\<lparr>sy_state := st\<rparr>) = view w s" "view w (s\<lparr>sy_merging := m\<rparr>) = view w s"
  "view w (s\<lparr>sy_next_checkpoint := ck\<rparr>) = view w s" "view w (s\<lparr>sy_checkpoint := ck\<rparr>) = view w s"
  by (simp_all add: view_def)

section \<open>Functions the merge and the pushes cannot see\<close>

text \<open>
  The contract of a change of state that merging a candidate and settling a chunk cannot
  see: it keeps what they read and commutes with what they record.
\<close>

locale sync_view =
  fixes v :: "sync \<Rightarrow> sync"
  assumes view_gates [simp]:
      "may_push_flags (sy_opts (v s)) = may_push_flags (sy_opts s)"
      "may_push_content (sy_opts (v s)) = may_push_content (sy_opts s)"
      "may_push_add (sy_opts (v s)) = may_push_add (sy_opts s)"
      "may_push_remove (sy_opts (v s)) = may_push_remove (sy_opts s)"
      "opt_delete (sy_opts (v s)) = opt_delete (sy_opts s)" "opt_conflict (sy_opts (v s)) = opt_conflict (sy_opts s)"
    and view_reads [simp]:
      "sy_collection (v s) = sy_collection s" "sy_pushes (v s) = sy_pushes s" "sy_report (v s) = sy_report s"
      "sy_in_flight (v s) = sy_in_flight s" "sy_pending_flag_pushes (v s) = sy_pending_flag_pushes s"
      "sy_pending_content_pushes (v s) = sy_pending_content_pushes s"
      "sy_pending_drops (v s) = sy_pending_drops s" "sy_pending_creates (v s) = sy_pending_creates s"
    and view_commutes [simp]:
      "write_push op (v s) = v (write_push op s)"
      "v s\<lparr>sy_report := rp\<rparr> = v (s\<lparr>sy_report := rp\<rparr>)" "v s\<lparr>sy_pushes := ps\<rparr> = v (s\<lparr>sy_pushes := ps\<rparr>)"
      "v s\<lparr>sy_in_flight := hs\<rparr> = v (s\<lparr>sy_in_flight := hs\<rparr>)"
      "v s\<lparr>sy_pending_flag_pushes := m\<rparr> = v (s\<lparr>sy_pending_flag_pushes := m\<rparr>)"
      "v s\<lparr>sy_pending_content_pushes := m\<rparr> = v (s\<lparr>sy_pending_content_pushes := m\<rparr>)"
      "v s\<lparr>sy_pending_drops := d\<rparr> = v (s\<lparr>sy_pending_drops := d\<rparr>)"
      "v s\<lparr>sy_pending_creates := m\<rparr> = v (s\<lparr>sy_pending_creates := m\<rparr>)"
begin

lemma recording_view [simp]:
  "emit ev (v s) = v (emit ev s)" "count_pulled (v s) = v (count_pulled s)"
  "sync_drop h reason (v s) = v (sync_drop h reason s)"
  by (simp_all add: emit_def count_pulled_def sync_drop_def)

lemma reconcile_flags_view [simp]:
  "reconcile_flags p item a (v s) = apfst v (reconcile_flags p item a s)"
proof (cases "p_base p")
  case None
  then show ?thesis by (simp add: reconcile_flags_def pull_flags_def)
next
  case (Some b)
  define merged where "merged = flags_merge (b_flags b) (p_flags p) (ri_flags item)"
  show ?thesis
    unfolding reconcile_flags_def Some option.case Let_def merged_def[symmetric]
    by (cases "merged = p_flags p"; cases "merged = ri_flags item"; cases "a = Withhold")
      (auto simp: pull_flags_def rebase_def)
qed

lemma pull_content_view [simp]: "pull_content p item (v s) = apfst v (pull_content p item s)"
  by (simp add: pull_content_def Let_def)

lemma mark_conflict_view [simp]: "mark_conflict p item (v s) = apfst v (mark_conflict p item s)"
  by (simp add: mark_conflict_def Let_def)

lemma push_update_view [simp]: "push_update p h m (v s) = map_option (apfst v) (push_update p h m s)"
  by (cases "p_object p") (simp_all add: push_update_def)

lemma resolve_conflict_view [simp]:
  "resolve_conflict p item (v s) = map_option (apfst v) (resolve_conflict p item s)"
  by (cases "p_object p")
    (simp_all add: resolve_conflict_def push_update_def stage_conflict_dup_def pull_content_def Let_def
      split: conflict_policy.split)

lemma reconcile_content_view [simp]:
  "reconcile_content p item (v s) = map_option (apfst v) (reconcile_content p item s)"
  by (cases "p_object p"; cases "p_base p")
    (simp_all add: reconcile_content_def push_update_def pull_content_def Let_def)

lemma merge_present_view [simp]:
  "merge_present p item (v s) = map_option (apfst v) (merge_present p item s)"
  by (cases "reconcile_content p item s")
    (auto simp: merge_present_def case_prod_unfold Let_def split: content_outcome.split)

lemma merge_deleted_view [simp]:
  "merge_deleted h p item (v s) = map_option (apfst v) (merge_deleted h p item s)"
  by (cases "p_object p")
    (simp_all add: merge_deleted_def pull_add_def refuse_delete_def push_update_def Let_def split: delete_policy.split)

lemma merge_vanished_view [simp]: "merge_vanished h p (v s) = apfst v (merge_vanished h p s)"
  by (simp add: merge_vanished_def Let_def)

lemma merge_created_view [simp]: "merge_created h p (v s) = apfst v (merge_created h p s)"
  by (simp add: merge_created_def)

lemma merge_view: "merge c (v s) = map_option (apfst v) (merge c s)"
  by (cases "ca_local c"; cases "ca_remote c") (simp_all add: merge_table pull_add_def)

lemma merge_candidate_view: "merge_candidate c (v s) = map_option v (merge_candidate c s)"
  by (cases "merge c s") (auto simp: merge_candidate_def merge_view split: option.split)

lemma settle_flags_view [simp]: "settle_flags r (v s) = apfst v (settle_flags r s)"
  by (cases "map_of (sy_pending_flag_pushes s) (pr_handle r)") (simp_all add: settle_flags_def rebase_def Let_def)

lemma settle_content_view [simp]: "settle_content r (v s) = apfst v (settle_content r s)"
  by (cases "map_of (sy_pending_content_pushes s) (pr_handle r)")
    (simp_all add: settle_content_def rebase_content_def)

lemma settle_drop_view [simp]: "settle_drop r (v s) = apfst v (settle_drop r s)"
  by (simp add: settle_drop_def)

lemma settle_create_view [simp]: "settle_create r (v s) = apfst v (settle_create r s)"
  by (cases "map_of (sy_pending_creates s) (pr_handle r)"; cases "pr_assigned r")
    (simp_all add: settle_create_def rekey_create_def Let_def)

lemma settle_result_view [simp]: "settle_result r (v s) = v (settle_result r s)"
  by (cases "pr_outcome r") (simp_all add: settle_result_def Let_def case_prod_unfold)

lemma forget_pending_view [simp]: "forget_pending h (v s) = v (forget_pending h s)"
  by (simp add: forget_pending_def)

lemma settle_chunk_view: "settle_chunk rs (v s) = v (settle_chunk rs s)"
proof -
  have "fold settle_result rs (v s) = v (fold settle_result rs s)" for s
    by (induction rs arbitrary: s) simp_all
  moreover have "fold forget_pending hs (v s) = v (fold forget_pending hs s)" for hs s
    by (induction hs arbitrary: s) simp_all
  ultimately show ?thesis by (simp add: settle_chunk_def Let_def)
qed

lemma send_chunk_view [simp]: "send_chunk (v s) = apfst v (send_chunk s)"
  by (simp add: send_chunk_def Let_def)

lemma merge_all_view: "merge_all cs (v s) = map_option v (merge_all cs s)"
proof (induction cs arbitrary: s)
  case (Cons c cs)
  then show ?case by (cases "merge_candidate c s") (simp_all add: merge_candidate_view)
qed simp

lemma push_rounds_view: "push_rounds rem r (v s) = map_option (apsnd v) (push_rounds rem r s)"
proof (induction rem r s rule: push_rounds.induct)
  case (1 rem r s)
  show ?case
  proof (cases "sy_pushes s = []")
    case False
    obtain s1 chs where sc: "send_chunk s = (s1, chs)" by fastforce
    show ?thesis
    proof (cases "rm_push rem (sy_collection s) chs r")
      case (Pair r' res)
      with "1.IH"[OF False sc[symmetric] refl Pair[symmetric]] False sc show ?thesis
        by (cases res) (simp_all add: push_rounds.simps[of rem r] settle_chunk_view)
    qed
  qed (simp add: push_rounds.simps)
qed

end

interpretation vw: sync_view "view w" for w
  by unfold_locales simp_all

section \<open>The walk visits the candidates in order\<close>

lemma narrow_join [simp]: "narrow (m\<lparr>mg_join := j\<rparr>) = narrow m"
  by (rule ext) (simp add: narrow_def)

lemma candidates_next:
  "merging_next m = (r, m') \<Longrightarrow>
     mg_checkpoint m' = mg_checkpoint m
     \<and> (case r of None \<Rightarrow> candidates m = [] | Some c \<Rightarrow> candidates m = c # candidates m')"
proof (induction m arbitrary: r m' rule: merging_next.induct)
  case (1 m)
  show ?case
  proof (cases "join_next (mg_join m)")
    case None
    then have "join_all (mg_join m) = []" by (simp add: join_all.simps[of "mg_join m"])
    with None "1.prems" show ?thesis
      by (auto simp: merging_next.simps[of m] candidates_def List.map_filter_def)
  next
    case (Some cj)
    then obtain c j where j: "join_next (mg_join m) = Some (c, j)" by (cases cj) auto
    have all: "join_all (mg_join m) = c # join_all j" by (simp add: join_all.simps[of "mg_join m"] j)
    consider (full) "mg_complete m" | (found) c' where "\<not> mg_complete m" "narrow m c = Some c'"
      | (skip) "\<not> mg_complete m" "narrow m c = None" by (cases "narrow m c") auto
    then show ?thesis
    proof cases
      case full
      with "1.prems" j all show ?thesis by (auto simp: merging_next.simps[of m] candidates_def Let_def)
    next
      case (found c')
      then have "narrow (m\<lparr>mg_join := j\<rparr>) c = Some c'" by simp
      with found "1.prems" j have "r = Some c' \<and> m' = m\<lparr>mg_join := j\<rparr>" by (simp add: merging_next.simps[of m])
      with found all show ?thesis by (simp add: candidates_def List.map_filter_def)
    next
      case skip
      with "1.prems" j have "merging_next (m\<lparr>mg_join := j\<rparr>) = (r, m')" by (simp add: merging_next.simps[of m])
      moreover have "candidates (m\<lparr>mg_join := j\<rparr>) = candidates m"
        using skip all by (simp add: candidates_def List.map_filter_def)
      ultimately show ?thesis using "1.IH"[OF j refl refl] skip by (cases r) simp_all
    qed
  qed
qed

lemma merge_candidate_frame:
  assumes "merge_candidate c s = Some s'"
  shows "sy_collection s' = sy_collection s \<and> sy_merging s' = sy_merging s \<and> sy_opts s' = sy_opts s
    \<and> sy_next_checkpoint s' = sy_next_checkpoint s \<and> sy_in_flight s' = sy_in_flight s"
proof -
  obtain s1 k where "merge c s = Some (s1, k)" "same_frame s s1" using merge_total by blast
  with assms show ?thesis by (cases k) (auto simp: merge_candidate_def same_frame_def)
qed

section \<open>The run is its reference\<close>

lemma run_write:
  fixes sto :: "('s, 'e) storage_ops" and rem :: "('r, 'f) remote_ops"
    and resume :: "'k \<Rightarrow> arg option \<Rightarrow> ('k, 'c, 't) step"
  assumes "resume c a = Some (c', Yielded (WantsWrite ops))" "st_write sto ops (cl_storage cl) = (s', Inr ())"
  shows "run sto rem resume c a cl = run sto rem resume c' (Some ArgWrite) (cl\<lparr>cl_storage := s'\<rparr>)"
  by (rule run_yield[where resume = resume, OF assms(1)]) (simp add: service_def assms(2))

lemma sync_step_send:
  assumes "sy_pushes s \<noteq> []"
  shows "sync_step s = ((fst (send_chunk s))\<lparr>sy_state := SyPendingPush\<rparr>,
    Yielded (WantsPush (sy_collection s) (snd (send_chunk s))))"
  using assms by (simp add: sync_step_def send_chunk_def Let_def)

lemma settle_chunk_frame [simp]:
  "sy_collection (settle_chunk rs s) = sy_collection s"
  "sy_next_checkpoint (settle_chunk rs s) = sy_next_checkpoint s"
  "sy_merging (settle_chunk rs s) = sy_merging s" "sy_opts (settle_chunk rs s) = sy_opts s"
proof -
  have results: "same_frame s (fold settle_result rs s)" for s
    by (induction rs arbitrary: s) (auto simp: same_frame_def settle_result_frame[unfolded same_frame_def])
  have "same_frame s (fold forget_pending hs s)" for hs s
    by (induction hs arbitrary: s) (simp_all add: forget_pending_def same_frame_def)
  with results show "sy_collection (settle_chunk rs s) = sy_collection s"
    "sy_next_checkpoint (settle_chunk rs s) = sy_next_checkpoint s"
    "sy_merging (settle_chunk rs s) = sy_merging s" "sy_opts (settle_chunk rs s) = sy_opts s"
    by (simp_all add: settle_chunk_def Let_def same_frame_def)
qed

lemma fold_apply_checkpoint [simp]:
  "fold apply_row (ops @ [SetCheckpoint c ck]) m = fold apply_row ops m"
  by simp

context cursor_storage
begin

text \<open>
  From the first chunk on: what was flushed before, and then the writes of the reference.
\<close>

lemma push_phase_runs:
  fixes rem :: "('r, 'f) remote_ops"
  assumes "push_rounds rem r (view w s) = Some (r', t)" "sy_merging s = None" "sy_next_checkpoint s = Some ck"
    "inv s0" "rows s0 = fold apply_row w m0" "cursor s0 = fold apply_cursor w k0"
    "sync_resume c a = Some (sync_step s)"
  shows "\<exists>s'. run sto rem sync_resume c a \<lparr>cl_storage = s0, cl_remote = r\<rparr>
        = Some (\<lparr>cl_storage = s', cl_remote = r'\<rparr>, Returned (Inr (sy_report t)))
    \<and> inv s' \<and> rows s' = fold apply_row (sy_writes t) m0
    \<and> cursor s' = (fold apply_cursor (sy_writes t) k0)(sy_collection s \<mapsto> ck)"
  using assms
proof (induction "length (sy_pushes s)" arbitrary: s c a r s0 w rule: less_induct)
  case less
  let ?cl = "\<lparr>cl_storage = s0, cl_remote = r\<rparr>"
  have finish: ?case if "sync_resume c1 a1 = Some (s1, Yielded (WantsWrite (ops @ [SetCheckpoint (sy_collection s) ck])))"
      "sy_state s1 = SyPendingWrite" "sy_pushes s1 = []" "sy_report s1 = sy_report t" "sy_writes t = w @ ops"
      "run sto rem sync_resume c a ?cl = run sto rem sync_resume c1 a1 \<lparr>cl_storage = s0, cl_remote = r'\<rparr>"
    for c1 a1 s1 ops
  proof -
    obtain s' where s': "st_write sto (ops @ [SetCheckpoint (sy_collection s) ck]) s0 = (s', Inr ())" "inv s'"
      "rows s' = fold apply_row (ops @ [SetCheckpoint (sy_collection s) ck]) (rows s0)"
      "cursor s' = fold apply_cursor (ops @ [SetCheckpoint (sy_collection s) ck]) (cursor s0)"
      using write_all[OF less.prems(4)] by metis
    have "sync_resume s1 (Some ArgWrite)
        = Some (s1\<lparr>sy_state := SyDone, sy_report := sync_report_default\<rparr>, Complete (Inr (sy_report t)))"
      using that(2-4) by (simp add: sync_resume_def)
    note finished = run_complete[where resume = sync_resume, OF this]
    note out = run_write[where resume = sync_resume, OF that(1)]
    have "run sto rem sync_resume c a ?cl = Some (\<lparr>cl_storage = s', cl_remote = r'\<rparr>, Returned (Inr (sy_report t)))"
      using that(6) out[of sto "\<lparr>cl_storage = s0, cl_remote = r'\<rparr>" s' rem] finished s'(1) by simp
    with s' less.prems(5,6) that(5) show ?thesis by simp
  qed
  show ?case
  proof (cases "sy_pushes s = []")
    case True
    then have t: "t = view w s" "r' = r" using less.prems(1) by (simp_all add: push_rounds.simps)
    let ?s1 = "s\<lparr>sy_state := SyPendingWrite, sy_writes := [], sy_next_checkpoint := None\<rparr>"
    have "sync_resume c a = Some (?s1, Yielded (WantsWrite (sy_writes s @ [SetCheckpoint (sy_collection s) ck])))"
      using less.prems(3,7) True by (simp add: sync_step_def batch_def)
    from finish[OF this] True t show ?thesis by simp
  next
    case False
    define sc where "sc = send_chunk s"
    obtain r1 res where push: "rm_push rem (sy_collection s) (snd sc) r = (r1, res)" by fastforce
    obtain results where res: "res = Inr results"
      using less.prems(1) False push by (cases res) (simp_all add: push_rounds.simps[of _ _ "view w s"] sc_def case_prod_unfold)
    let ?c1 = "(fst sc)\<lparr>sy_state := SyPendingPush\<rparr>"
    define s2 where "s2 = settle_chunk results ?c1"
    have "settle_chunk results (view w (fst sc)) = view w s2"
      using vw.settle_chunk_view[of results w ?c1] by (simp add: s2_def)
    then have rounds: "push_rounds rem r1 (view w s2) = Some (r', t)"
      using less.prems(1) False push res
      by (simp add: push_rounds.simps[of _ _ "view w s"] sc_def case_prod_unfold)
    have fields: "sy_collection s2 = sy_collection s" "sy_next_checkpoint s2 = Some ck" "sy_merging s2 = None"
      "length (sy_pushes s2) < length (sy_pushes s)"
      using False less.prems(2,3) by (simp_all add: s2_def sc_def send_chunk_def Let_def PUSH_CHUNK_def)
    have sent: "run sto rem sync_resume c a ?cl
        = run sto rem sync_resume ?c1 (Some (ArgPush results)) \<lparr>cl_storage = s0, cl_remote = r1\<rparr>"
    proof (rule run_yield[where resume = sync_resume])
      show "sync_resume c a = Some (?c1, Yielded (WantsPush (sy_collection s) (snd sc)))"
        using less.prems(7) False by (simp add: sync_step_send sc_def)
      show "service sto rem (WantsPush (sy_collection s) (snd sc)) ?cl = (\<lparr>cl_storage = s0, cl_remote = r1\<rparr>, Inr (ArgPush results))"
        by (simp add: service_def push res)
    qed
    let ?s3 = "s2\<lparr>sy_state := SyPendingWrite, sy_writes := []\<rparr>"
    have settled: "sync_resume ?c1 (Some (ArgPush results))
        = Some (if sy_pushes s2 = [] then (?s3\<lparr>sy_next_checkpoint := None\<rparr>, Yielded (WantsWrite (sy_writes s2 @ [SetCheckpoint (sy_collection s) ck])))
                else (?s3, Yielded (WantsWrite (sy_writes s2))))"
      using fields(1,2) by (simp add: sync_resume_def s2_def[symmetric] batch_def)
    show ?thesis
    proof (cases "sy_pushes s2 = []")
      case True
      then have t: "t = view w s2" "r' = r1" using rounds by (simp_all add: push_rounds.simps)
      have "sync_resume ?c1 (Some (ArgPush results)) = Some (?s3\<lparr>sy_next_checkpoint := None\<rparr>,
          Yielded (WantsWrite (sy_writes s2 @ [SetCheckpoint (sy_collection s) ck])))"
        using settled True by simp
      from finish[OF this] True t sent show ?thesis by simp
    next
      case False
      obtain s4 where s4: "st_write sto (sy_writes s2) s0 = (s4, Inr ())" "inv s4"
        "rows s4 = fold apply_row (sy_writes s2) (rows s0)" "cursor s4 = fold apply_cursor (sy_writes s2) (cursor s0)"
        using write_all[OF less.prems(4)] by metis
      have "sync_resume ?c1 (Some (ArgPush results)) = Some (?s3, Yielded (WantsWrite (sy_writes s2)))"
        using settled False by simp
      note out = run_write[where resume = sync_resume, OF this, of sto "\<lparr>cl_storage = s0, cl_remote = r1\<rparr>" s4 rem]
      have view: "view (w @ sy_writes s2) ?s3 = view w s2" by (simp add: view_def)
      have again: "sync_resume ?s3 (Some ArgWrite) = Some (sync_step ?s3)"
        using False by (simp add: sync_resume_def)
      have "\<exists>s'. run sto rem sync_resume ?s3 (Some ArgWrite) \<lparr>cl_storage = s4, cl_remote = r1\<rparr>
          = Some (\<lparr>cl_storage = s', cl_remote = r'\<rparr>, Returned (Inr (sy_report t)))
        \<and> inv s' \<and> rows s' = fold apply_row (sy_writes t) m0
        \<and> cursor s' = (fold apply_cursor (sy_writes t) k0)(sy_collection ?s3 \<mapsto> ck)"
        by (rule less.hyps[where w = "w @ sy_writes s2"])
          (use fields rounds view again s4 less.prems(5,6) in simp_all)
      then show ?thesis using sent out s4(1) fields(1) by simp
    qed
  qed
qed

lemma merge_phase_runs:
  fixes rem :: "('r, 'f) remote_ops"
  assumes "sy_merging s = Some m" "sy_next_checkpoint s = None"
    "merge_all (candidates m) (view w s) = Some v" "push_rounds rem r v = Some (r', t)"
    "inv s0" "rows s0 = fold apply_row w m0" "cursor s0 = fold apply_cursor w k0"
    "sync_resume c a = merge_step s"
  shows "\<exists>s'. run sto rem sync_resume c a \<lparr>cl_storage = s0, cl_remote = r\<rparr>
        = Some (\<lparr>cl_storage = s', cl_remote = r'\<rparr>, Returned (Inr (sy_report t)))
    \<and> inv s' \<and> rows s' = fold apply_row (sy_writes t) m0
    \<and> cursor s' = (fold apply_cursor (sy_writes t) k0)(sy_collection s \<mapsto> mg_checkpoint m)"
  using assms
proof (induction "sync_work s" arbitrary: s m c a s0 w rule: less_induct)
  case less
  obtain k m' where next_m: "merging_next m = (k, m')" by fastforce
  define s1 where "s1 = s\<lparr>sy_merging := Some m'\<rparr>"
  have next_s: "next_candidate s = (k, s1)"
    using less.prems(1) next_m by (simp add: next_candidate_def s1_def)
  note walk = candidates_next[OF next_m]
  have v1: "view w s1 = view w s" by (simp add: s1_def)
  show ?case
  proof (cases k)
    case None
    let ?s = "s1\<lparr>sy_merging := None, sy_next_checkpoint := Some (mg_checkpoint m')\<rparr>"
    have "sync_resume c a = Some (sync_step ?s)"
      using next_s None less.prems(8) by (simp add: merge_step.simps[of s] s1_def)
    moreover have "push_rounds rem r (view w ?s) = Some (r', t)"
      using less.prems(3,4) walk None v1 by simp
    ultimately show ?thesis
      using push_phase_runs[of rem r w ?s r' t "mg_checkpoint m'" s0 m0 k0 c a] less.prems(5-7) walk
      by (simp add: s1_def)
  next
    case (Some cand)
    have less1: "sync_work s1 < sync_work s" using next_candidate_work next_s Some by blast
    obtain s2 where s2: "merge_candidate cand s1 = Some s2" by (metis merge_candidate_total)
    have f: "sy_merging s2 = Some m'" "sy_collection s2 = sy_collection s" "sy_next_checkpoint s2 = None"
      "sync_work s2 < sync_work s"
      using merge_candidate_frame[OF s2] merge_candidate_work[OF s2] less1 less.prems(2) by (simp_all add: s1_def)
    have rest: "merge_all (candidates m') (view w s2) = Some v"
      using less.prems(3) walk Some s2 vw.merge_candidate_view[of cand w s1] v1 by (simp del: view_forgets)
    show ?thesis
    proof (cases "WRITE_CHUNK \<le> length (sy_writes s2)")
      case True
      let ?s3 = "s2\<lparr>sy_state := SyMerging, sy_writes := []\<rparr>"
      obtain s4 where s4: "st_write sto (sy_writes s2) s0 = (s4, Inr ())" "inv s4"
        "rows s4 = fold apply_row (sy_writes s2) (rows s0)" "cursor s4 = fold apply_cursor (sy_writes s2) (cursor s0)"
        using write_all[OF less.prems(5)] by metis
      have "sync_resume c a = Some (?s3, Yielded (WantsWrite (sy_writes s2)))"
        using less.prems(8) next_s Some s2 True f(3) by (simp add: merge_step.simps[of s] batch_def Let_def)
      note out = run_write[where resume = sync_resume, OF this, of sto "\<lparr>cl_storage = s0, cl_remote = r\<rparr>" s4 rem]
      have view: "view (w @ sy_writes s2) ?s3 = view w s2" by (simp add: view_def)
      have again: "sync_resume ?s3 (Some ArgWrite) = merge_step ?s3" by (simp add: sync_resume_def)
      have work: "sync_work ?s3 < sync_work s" using f by (simp add: sync_work_def)
      have "\<exists>s'. run sto rem sync_resume ?s3 (Some ArgWrite) \<lparr>cl_storage = s4, cl_remote = r\<rparr>
          = Some (\<lparr>cl_storage = s', cl_remote = r'\<rparr>, Returned (Inr (sy_report t)))
        \<and> inv s' \<and> rows s' = fold apply_row (sy_writes t) m0
        \<and> cursor s' = (fold apply_cursor (sy_writes t) k0)(sy_collection ?s3 \<mapsto> mg_checkpoint m')"
        by (rule less.hyps[OF work, where w = "w @ sy_writes s2"])
          (use f rest view again s4 less.prems(4,6,7) in simp_all)
      then show ?thesis using out s4(1) f(2) walk by simp
    next
      case False
      then have "sync_resume c a = merge_step s2"
        using less.prems(8) next_s Some s2 by (simp add: merge_step.simps[of s])
      from less.hyps[OF f(4) f(1) f(3) rest less.prems(4-7) this] f(2) walk show ?thesis by simp
    qed
  qed
qed

text \<open>The whole run from the fresh state.\<close>

lemma sync_runs_spec:
  fixes rem :: "('r, 'f) remote_ops"
  assumes "inv s" "st_load sto s coll ScopeAll = Inr ld" "sync_spec rem coll opts ld r = Some (r', ops, report)"
  shows "\<exists>s'. client_sync sto rem coll opts \<lparr>cl_storage = s, cl_remote = r\<rparr>
        = Some (\<lparr>cl_storage = s', cl_remote = r'\<rparr>, Returned (Inr report))
    \<and> inv s' \<and> rows s' = fold apply_row ops (rows s) \<and> cursor s' = fold apply_cursor ops (cursor s)"
proof -
  let ?ck = "if opt_full opts then None else ld_checkpoint ld"
  obtain r1 sn v t where spec: "rm_enumerate rem coll ?ck r = (r1, Inr sn)"
    "merge_all (candidates (opened ld sn)) (sync_new coll opts) = Some v"
    "push_rounds rem r1 v = Some (r', t)" "ops = sy_writes t @ [SetCheckpoint coll (rs_checkpoint sn)]" "report = sy_report t"
    using assms(3) by (auto simp: sync_spec_def split: prod.splits sum.splits Option.bind_splits)
  let ?s1 = "(sync_new coll opts)\<lparr>sy_state := SyPendingLoad\<rparr>"
  let ?s2 = "?s1\<lparr>sy_local := bt_collect (map (\<lambda>p. (p_handle p, p)) (ld_placements ld)), sy_checkpoint := ?ck,
      sy_state := SyPendingEnumerate\<rparr>"
  let ?cl = "\<lparr>cl_storage = s, cl_remote = r\<rparr>"
  have "client_sync sto rem coll opts ?cl = run sto rem sync_resume ?s1 (Some (ArgLoad ld)) ?cl"
    unfolding client_sync_def
    by (rule run_yield[where resume = sync_resume and y = "WantsLoad coll ScopeAll"])
      (simp_all add: sync_resume_def sync_new_def service_def assms(2))
  also have "\<dots> = run sto rem sync_resume ?s2 (Some (ArgEnumerate sn)) \<lparr>cl_storage = s, cl_remote = r1\<rparr>"
    by (rule run_yield[where resume = sync_resume and y = "WantsEnumerate coll ?ck"])
      (simp_all add: sync_resume_def sync_new_def service_def spec(1))
  finally have start: "client_sync sto rem coll opts ?cl
      = run sto rem sync_resume ?s2 (Some (ArgEnumerate sn)) \<lparr>cl_storage = s, cl_remote = r1\<rparr>" .
  let ?s3 = "open_merge sn ?s2"
  have "sy_merging ?s3 = Some (opened ld sn)" "view [] ?s3 = sync_new coll opts"
    by (simp_all add: open_merge_def opened_def view_def sync_new_def)
  with merge_phase_runs[of ?s3 "opened ld sn" "[]" v rem r1 r' t s "rows s" "cursor s" ?s2 "Some (ArgEnumerate sn)"]
    spec start assms(1)
  show ?thesis by (simp add: open_merge_def sync_new_def sync_resume_def opened_def)
qed

end

section \<open>The chunked run is the one-shot reference\<close>

text \<open>A remote that always lists the same items and accepts whatever is pushed to it.\<close>

definition sample_remote :: "remote_item list \<Rightarrow> (nat, unit) remote_ops" where
  "sample_remote items =
     \<lparr>rm_enumerate = (\<lambda>c ck r. (r, Inr \<lparr>rs_items = items, rs_vanished = [], rs_complete = True,
        rs_checkpoint = Checkpoint [1]\<rparr>)),
      rm_fetch = (\<lambda>c hs t r. (r, Inr [])),
      rm_push = (\<lambda>c chs r. (r + length chs, Inr (map (\<lambda>ch. \<lparr>pr_handle = change_handle ch, pr_outcome = Accepted,
        pr_assigned = None, pr_revision = Some ''2''\<rparr>) chs)))\<rparr>"

definition sample_store :: "placement list \<Rightarrow> mem_storage" where
  "sample_store ps = fold mem_apply (map UpsertPlacement ps) \<lparr>ms_placements = [], ms_objects = [], ms_checkpoints = []\<rparr>"

lemma sample_store_inv [simp]: "mem_inv (sample_store ps)"
  unfolding sample_store_def by (rule conjunct1[OF mem_fold_ok]) (simp add: mem_inv_def)

text \<open>
  C2: a chunked, interruptible sync is one merge. Over the in-memory storage, whatever the
  remote answers, a run of the client ends with the report, the remote state, the rows and
  the cursor of the one-shot reference, which merges every candidate of the snapshot in handle
  order, pushes what that derived sixty-four changes at a time and makes all its writes at
  once, the checkpoint last: the batches a run is cut into never show.
\<close>

theorem chunked_sync_is_one_shot:
  assumes "mem_inv s" "mem_load s coll ScopeAll = Inr ld" "sync_spec rem coll opts ld r = Some (r', ops, report)"
  shows "\<exists>s'. client_sync mem_ops rem coll opts \<lparr>cl_storage = s, cl_remote = r\<rparr>
        = Some (\<lparr>cl_storage = s', cl_remote = r'\<rparr>, Returned (Inr report))
    \<and> mem_inv s' \<and> mem_rows s' = fold apply_row ops (mem_rows s)
    \<and> mem_cursor s' = fold apply_cursor ops (mem_cursor s)"
  using mem_cur.sync_runs_spec[OF assms(1) _ assms(3)] assms(2) by (simp add: mem_ops_def)

theorem chunked_sync_is_one_shot_witness:
  "\<exists>s' report. client_sync mem_ops (sample_remote []) (CollectionId ''inbox'') sync_options_default
        \<lparr>cl_storage = sample_store [], cl_remote = 0\<rparr>
      = Some (\<lparr>cl_storage = s', cl_remote = 0\<rparr>, Returned (Inr report))
    \<and> mem_cursor s' (CollectionId ''inbox'') = Some (Checkpoint [1])"
proof -
  let ?c = "CollectionId ''inbox''" and ?ld = "\<lparr>ld_placements = [], ld_checkpoint = None\<rparr>"
  have "mem_load (sample_store []) ?c ScopeAll = Inr ?ld" by (simp add: sample_store_def mem_load_def)
  moreover have "sync_spec (sample_remote []) ?c sync_options_default ?ld 0
      = Some (0, [SetCheckpoint ?c (Checkpoint [1])], sync_report_default)"
    by (simp add: sync_spec_def sample_remote_def opened_def candidates_def bt_collect_def snapshot_items_def
          join_new_def join_all.simps join_next_def push_rounds.simps sync_new_def)
  ultimately show ?thesis
    using chunked_sync_is_one_shot[OF sample_store_inv] by fastforce
qed

end
