(* ===== verification/Sync_Mirror.thy ===== *)
theory Sync_Mirror
  imports Sync_Whole
begin

text \<open>
  What whole runs of the client do to a collection, read off the one-shot reference: a first
  sync mirrors the remote, a sync in agreement changes nothing, and an offline edit is
  delivered.
\<close>

section \<open>The reference always has a result over a working remote\<close>

lemma merge_all_total: "\<exists>s'. merge_all cs s = Some s' \<and> sy_collection s' = sy_collection s"
proof (induction cs arbitrary: s)
  case (Cons c cs)
  obtain s1 where "merge_candidate c s = Some s1" "sy_collection s1 = sy_collection s" by (metis merge_candidate_total)
  with Cons[of s1] show ?case by simp
qed simp

definition remote_up :: "('r, 'f) remote_ops \<Rightarrow> bool" where
  "remote_up rem \<longleftrightarrow>
     (\<forall>c ck r. \<exists>sn. snd (rm_enumerate rem c ck r) = Inr sn) \<and> (\<forall>c chs r. \<exists>res. snd (rm_push rem c chs r) = Inr res)"

lemma push_rounds_total: "remote_up rem \<Longrightarrow> push_rounds rem r s \<noteq> None"
proof (induction rem r s rule: push_rounds.induct)
  case (1 rem r s)
  show ?case
  proof (cases "sy_pushes s = []")
    case False
    obtain s1 chs where sc: "send_chunk s = (s1, chs)" by fastforce
    obtain r' results where push: "rm_push rem (sy_collection s) chs r = (r', Inr results)"
      using "1.prems" unfolding remote_up_def by (metis prod.collapse)
    from "1.IH"[OF False sc[symmetric] refl push[symmetric] refl "1.prems"] False sc push show ?thesis
      by (simp add: push_rounds.simps[of rem r s])
  qed (simp add: push_rounds.simps)
qed

lemma sync_spec_total:
  assumes "remote_up rem"
  shows "\<exists>r' ops report. sync_spec rem coll opts ld r = Some (r', ops, report)"
proof -
  obtain r1 sn where "rm_enumerate rem coll (if opt_full opts then None else ld_checkpoint ld) r = (r1, Inr sn)"
    using assms unfolding remote_up_def by (metis prod.collapse)
  moreover obtain s1 where "merge_all (candidates (opened ld sn)) (sync_new coll opts) = Some s1"
    using merge_all_total by blast
  moreover obtain r2 s2 where "push_rounds rem r1 s1 = Some (r2, s2)"
    using push_rounds_total[OF assms, of r1 s1] by (cases "push_rounds rem r1 s1") auto
  ultimately show ?thesis by (simp add: sync_spec_def)
qed

section \<open>Candidates that change nothing\<close>

definition agrees :: "placement \<Rightarrow> remote_item \<Rightarrow> bool" where
  "agrees p item \<longleftrightarrow>
     p_status p = Clean \<and> p_flags p = ri_flags item
     \<and> (\<exists>b. p_base p = Some b \<and> p_flags p = b_flags b \<and> (ri_revision item = None \<or> ri_revision item = b_revision b))"

definition idle :: "candidate \<Rightarrow> bool" where
  "idle c \<longleftrightarrow> (case (ca_local c, ca_remote c) of
      (None, None) \<Rightarrow> True | (Some p, Some item) \<Rightarrow> agrees p item | _ \<Rightarrow> False)"

lemma merge_agrees: "agrees p item \<Longrightarrow> merge \<lparr>ca_handle = h, ca_local = Some p, ca_remote = Some item\<rparr> s = Some (s, None)"
  by (auto simp: agrees_def merge_table merge_present_def reconcile_content_def reconcile_flags_def Let_def)

lemma merge_candidate_idle:
  assumes "idle c" shows "merge_candidate c s = Some s"
proof -
  obtain h l r where c: "c = \<lparr>ca_handle = h, ca_local = l, ca_remote = r\<rparr>" by (cases c) auto
  show ?thesis
  proof (cases l)
    case None
    with assms c show ?thesis by (simp add: idle_def merge_candidate_def merge_table split: option.splits)
  next
    case (Some p)
    with assms c obtain item where "r = Some item" "agrees p item" by (auto simp: idle_def split: option.splits)
    with c Some show ?thesis by (simp add: merge_candidate_def merge_agrees)
  qed
qed

text \<open>Only the candidates that are not idle count.\<close>

lemma merge_all_filter: "merge_all cs s = merge_all (filter (\<lambda>c. \<not> idle c) cs) s"
proof (induction cs arbitrary: s)
  case (Cons c cs)
  then have "merge_all cs = merge_all (filter (\<lambda>c. \<not> idle c) cs)" by blast
  then show ?case by (simp add: merge_candidate_idle)
qed simp

lemma push_rounds_quiet: "sy_pushes s = [] \<Longrightarrow> push_rounds rem r s = Some (r, s)"
  by (simp add: push_rounds.simps)

lemma sync_spec_idle:
  assumes "rm_enumerate rem coll (if opt_full opts then None else ld_checkpoint ld) r = (r1, Inr sn)"
    and "\<forall>c \<in> set (candidates (opened ld sn)). idle c"
  shows "sync_spec rem coll opts ld r = Some (r1, [SetCheckpoint coll (rs_checkpoint sn)], sync_report_default)"
proof -
  have "filter (\<lambda>c. \<not> idle c) (candidates (opened ld sn)) = []" using assms(2) by (simp add: filter_empty_conv)
  then have "merge_all (candidates (opened ld sn)) (sync_new coll opts) = Some (sync_new coll opts)"
    by (subst merge_all_filter) simp
  with assms(1) show ?thesis by (simp add: sync_spec_def push_rounds_quiet sync_new_def)
qed

section \<open>Candidates that are added\<close>

definition added :: "remote_item \<Rightarrow> candidate" where
  "added i = \<lparr>ca_handle = ri_handle i, ca_local = None, ca_remote = Some i\<rparr>"

lemma join_all_remote: "join_all (join_new [] is) = map added is"
proof (induction "is")
  case (Cons i "is")
  have "join_next (join_new [] (i # is)) = Some (added i, join_new [] is)"
    by (simp add: join_next_def join_new_def added_def)
  with Cons show ?case by (simp add: join_all.simps[of "join_new [] (i # is)"])
qed (simp add: join_all.simps join_next_def join_new_def)

definition pulled_all :: "remote_item list \<Rightarrow> sync \<Rightarrow> sync" where
  "pulled_all is s =
     s\<lparr>sy_writes := sy_writes s @ map (\<lambda>i. UpsertPlacement (pulled_placement (sy_collection s) i)) is,
       sy_report := (sy_report s)\<lparr>sr_pulled := sr_pulled (sy_report s) + length is,
         sr_events := sr_events (sy_report s) @ map (\<lambda>i. Added (ri_handle i)) is\<rparr>\<rparr>"

lemma merge_all_added: "merge_all (map added is) s = Some (pulled_all is s)"
proof (induction "is" arbitrary: s)
  case (Cons i "is")
  have "merge_candidate (added i) s = Some (pulled_all [i] s)"
    by (simp add: merge_candidate_def merge_table added_def pull_add_def recording pulled_all_def)
  with Cons[of "pulled_all [i] s"] show ?case by (simp add: pulled_all_def)
qed (simp add: pulled_all_def)

text \<open>The rows a mirror of a snapshot holds.\<close>

definition mirror :: "collection_id \<Rightarrow> remote_item list \<Rightarrow> handle \<Rightarrow> placement option" where
  "mirror c is h = map_option (pulled_placement c) (List.find (\<lambda>i. ri_handle i = h) is)"

lemma mirror_fields:
  "mirror c is h = map_option (\<lambda>i.
     \<lparr>p_collection = c, p_handle = h, p_link_id = None, p_object = None, p_level = LvProbed, p_meta = None,
      p_sort_key = sort_key_default, p_flags = ri_flags i, p_status = Clean, p_conflict_revision = None,
      p_conflict_object = None,
      p_base = Some \<lparr>b_flags = ri_flags i, b_revision = ri_revision i, b_object = None\<rparr>, p_origin = None\<rparr>)
     (List.find (\<lambda>i. ri_handle i = h) is)"
  by (induction "is") (simp_all add: mirror_def pulled_placement_def)

lemma fold_pulled:
  "distinct (map ri_handle is) \<Longrightarrow>
     fold apply_row (map (\<lambda>i. UpsertPlacement (pulled_placement c i)) is) m (c', h)
     = (if c' = c \<and> h \<in> ri_handle ` set is then mirror c is h else m (c', h))"
proof (induction "is" arbitrary: m)
  case (Cons i "is")
  then show ?case
    by (auto simp: mirror_def pulled_placement_def find_remote_None)
qed simp

lemma fold_cursor_none: "\<forall>op \<in> set ops. \<not> is_checkpoint op \<Longrightarrow> fold apply_cursor ops k = k"
proof (induction ops arbitrary: k)
  case (Cons op ops)
  then show ?case by (cases op) simp_all
qed simp

section \<open>The candidate of an edit\<close>

definition pushes_edit :: "placement \<Rightarrow> remote_item \<Rightarrow> bool" where
  "pushes_edit p item \<longleftrightarrow>
     p_status p = Dirty \<and> p_object p \<noteq> None \<and> p_flags p = ri_flags item
     \<and> (\<exists>b. p_base p = Some b \<and> b_object b \<noteq> p_object p \<and> b_flags b = ri_flags item
          \<and> (ri_revision item = None \<or> ri_revision item = b_revision b))"

definition edit_change :: "handle \<Rightarrow> placement \<Rightarrow> change_kind" where
  "edit_change h p = Update h (the (p_object p)) (Option.bind (p_base p) b_revision)"

lemma merge_candidate_edit:
  assumes "pushes_edit p item" "p_handle p = h" "may_push_content (sy_opts s)"
  shows "merge_candidate \<lparr>ca_handle = h, ca_local = Some p, ca_remote = Some item\<rparr> s
    = Some (s\<lparr>sy_pending_content_pushes := bt_insert h p (sy_pending_content_pushes s),
             sy_pushes := sy_pushes s @ [change_new (sy_collection s) (edit_change h p)]\<rparr>)"
  using assms
  by (auto simp: pushes_edit_def merge_candidate_def merge_table merge_present_def reconcile_content_def
        push_update_def reconcile_flags_def edit_change_def Let_def)

lemma settle_edit:
  assumes "p_handle p = h" "pr_handle res = h" "pr_outcome res = Accepted"
  shows "sy_writes (settle_chunk [res] ((sync_new c opts)\<lparr>sy_pending_content_pushes := [(h, p)], sy_pushes := [], sy_in_flight := [h]\<rparr>))
        = [UpsertPlacement (content_rebased_placement p (pr_revision res))]"
    "sy_report (settle_chunk [res] ((sync_new c opts)\<lparr>sy_pending_content_pushes := [(h, p)], sy_pushes := [], sy_in_flight := [h]\<rparr>))
        = sync_report_default\<lparr>sr_pushed := 1, sr_events := [ContentChanged h]\<rparr>"
  using assms
  by (simp_all add: settle_chunk_def settle_result_def settle_flags_def settle_content_def settle_drop_def
        settle_create_def forget_pending_def rebase_content_def recording sync_new_def sync_report_default_def bt_remove_def)

section \<open>The candidate of a flag change\<close>

definition pushes_flags :: "placement \<Rightarrow> remote_item \<Rightarrow> bool" where
  "pushes_flags p item \<longleftrightarrow>
     p_status p = Dirty \<and> p_flags p \<noteq> Unknown \<and> p_flags p \<noteq> ri_flags item
     \<and> (\<exists>b. p_base p = Some b \<and> b_flags b = ri_flags item \<and> (p_object p = None \<or> p_object p = b_object b)
          \<and> (ri_revision item = None \<or> ri_revision item = b_revision b))"

lemma merge_candidate_flags:
  assumes "pushes_flags p item" "p_handle p = h" "may_push_flags (sy_opts s)"
  shows "merge_candidate \<lparr>ca_handle = h, ca_local = Some p, ca_remote = Some item\<rparr> s
    = Some (s\<lparr>sy_pending_flag_pushes := bt_insert h p (sy_pending_flag_pushes s),
             sy_pushes := sy_pushes s @ [change_new (sy_collection s) (SetFlags h (p_flags p))]\<rparr>)"
proof -
  obtain b where b: "p_base p = Some b" "b_flags b = ri_flags item" "p_object p = None \<or> p_object p = b_object b"
    "ri_revision item = None \<or> ri_revision item = b_revision b" "p_flags p \<noteq> Unknown" "p_flags p \<noteq> ri_flags item"
    "p_status p = Dirty"
    using assms(1) by (auto simp: pushes_flags_def)
  have "flags_merge (ri_flags item) (p_flags p) (ri_flags item) = p_flags p"
    using b(5) by (simp add: flags_merge_commute[of _ "p_flags p"])
  with b assms(2,3) show ?thesis
    by (auto simp: merge_candidate_def merge_table merge_present_def reconcile_content_def reconcile_flags_def Let_def)
qed

lemma settle_flag_push:
  assumes "p_handle p = h" "pr_handle res = h" "pr_outcome res = Accepted"
  shows "sy_writes (settle_chunk [res] ((sync_new c opts)\<lparr>sy_pending_flag_pushes := [(h, p)], sy_pushes := [], sy_in_flight := [h]\<rparr>))
        = [UpsertPlacement (rebased_placement p (p_flags p))]"
    "sy_report (settle_chunk [res] ((sync_new c opts)\<lparr>sy_pending_flag_pushes := [(h, p)], sy_pushes := [], sy_in_flight := [h]\<rparr>))
        = sync_report_default\<lparr>sr_pushed := 1, sr_events := [FlagsChanged h]\<rparr>"
  using assms
  by (simp_all add: settle_chunk_def settle_result_def settle_flags_def settle_content_def settle_drop_def
        settle_create_def forget_pending_def rebase_def recording sync_new_def sync_report_default_def bt_remove_def)

text \<open>The reference of a run whose only candidate derives one change.\<close>

lemma sync_spec_one:
  assumes "rm_enumerate rem c (if opt_full opts then None else ld_checkpoint ld) r = (r1, Inr sn)"
    and "filter (\<lambda>c. \<not> idle c) (candidates (opened ld sn)) = [cand]"
    and "merge_candidate cand (sync_new c opts) = Some (s1\<lparr>sy_pushes := [ch]\<rparr>)" "sy_collection s1 = c"
    and "rm_push rem c [ch] r1 = (r2, Inr [res])"
    and "s2 = settle_chunk [res] (s1\<lparr>sy_pushes := [], sy_in_flight := [change_handle ch]\<rparr>)"
  shows "sync_spec rem c opts ld r = Some (r2, sy_writes s2 @ [SetCheckpoint c (rs_checkpoint sn)], sy_report s2)"
proof -
  have "merge_all (candidates (opened ld sn)) (sync_new c opts) = Some (s1\<lparr>sy_pushes := [ch]\<rparr>)"
    using assms(3) by (subst merge_all_filter) (simp add: assms(2))
  moreover have "push_rounds rem r1 (s1\<lparr>sy_pushes := [ch]\<rparr>) = Some (r2, s2)"
    using assms(4-6) by (subst push_rounds.simps) (simp add: send_chunk_def PUSH_CHUNK_def push_rounds_quiet)
  ultimately show ?thesis using assms(1) by (simp add: sync_spec_def)
qed

section \<open>A run over a lawful storage\<close>

definition paired :: "rows \<Rightarrow> collection_id \<Rightarrow> remote_item list \<Rightarrow> handle \<Rightarrow> candidate" where
  "paired m c is h =
     \<lparr>ca_handle = h, ca_local = m (c, h), ca_remote = List.find (\<lambda>i. ri_handle i = h) is\<rparr>"

lemma filter_handle:
  assumes "distinct (map ca_handle cs)" "h \<in> ca_handle ` set cs" "\<And>c. c \<in> set cs \<Longrightarrow> c = f (ca_handle c)"
  shows "filter (\<lambda>c. ca_handle c = h) cs = [f h]"
  using assms
proof (induction cs)
  case (Cons c cs)
  have eq: "c = f (ca_handle c)" using Cons.prems(3) by simp
  show ?case
  proof (cases "ca_handle c = h")
    case True
    then have "filter (\<lambda>c. ca_handle c = h) cs = []" using Cons.prems(1) by (auto simp: filter_empty_conv image_iff)
    with True eq show ?thesis by simp
  next
    case False
    with Cons show ?thesis by auto
  qed
qed simp

context cursor_storage
begin

lemma loaded_local:
  assumes "inv s" "st_load sto s c ScopeAll = Inr ld"
  shows "map_of (bt_collect (map (\<lambda>p. (p_handle p, p)) (ld_placements ld))) h = rows s (c, h)"
proof -
  have mem: "p \<in> set (ld_placements ld) \<and> p_handle p = h \<longleftrightarrow> rows s (c, h) = Some p" for p
    using load_ok[OF assms(1), of c ScopeAll] assms keyed by fastforce
  have "map_of (rev (map (\<lambda>p. (p_handle p, p)) (ld_placements ld))) h = rows s (c, h)"
  proof (cases "rows s (c, h)")
    case None
    then have "h \<notin> p_handle ` set (ld_placements ld)" using mem by auto
    with None show ?thesis by (simp add: map_of_eq_None_iff image_image)
  next
    case (Some p)
    then have "p \<in> set (ld_placements ld)" "p_handle p = h" using mem by auto
    then have "map_of (rev (map (\<lambda>p. (p_handle p, p)) (ld_placements ld))) h \<noteq> None"
      by (auto simp: map_of_eq_None_iff image_image)
    then obtain q where q: "map_of (rev (map (\<lambda>p. (p_handle p, p)) (ld_placements ld))) h = Some q" by blast
    then have "q \<in> set (ld_placements ld)" "p_handle q = h" by (auto dest!: map_of_SomeD)
    then have "rows s (c, h) = Some q" using mem[of q] by blast
    with q show ?thesis by simp
  qed
  then show ?thesis by (simp add: bt_get_collect)
qed

text \<open>A merge opened over the rows joins them with the items of the snapshot, handle by handle.\<close>

lemma opened_join:
  assumes "inv s" "st_load sto s c ScopeAll = Inr ld"
  shows "\<forall>cand \<in> set (join_all (mg_join (opened ld sn))). cand = paired (rows s) c (rs_items sn) (ca_handle cand)"
    and "sorted_wrt (<) (map ca_handle (join_all (mg_join (opened ld sn))))"
    and "ca_handle ` set (join_all (mg_join (opened ld sn))) = {h. rows s (c, h) \<noteq> None} \<union> ri_handle ` set (rs_items sn)"
proof -
  let ?l = "bt_collect (map (\<lambda>p. (p_handle p, p)) (ld_placements ld))"
  let ?j = "join_new ?l (snapshot_items (rs_items sn))"
  have j: "mg_join (opened ld sn) = ?j" by (simp add: opened_def)
  have wf: "join_wf ?j" by (simp add: join_wf_def join_new_def snapshot_items_sorted)
  note all = join_all_look[OF wf]
  have look: "join_look ?j h = paired (rows s) c (rs_items sn) h" for h
    using loaded_local[OF assms(1,2), of h] by (simp add: join_look_def join_new_def paired_def find_snapshot)
  show "\<forall>cand \<in> set (join_all (mg_join (opened ld sn))). cand = paired (rows s) c (rs_items sn) (ca_handle cand)"
    using all unfolding j look by blast
  show "sorted_wrt (<) (map ca_handle (join_all (mg_join (opened ld sn))))"
    using all unfolding j by blast
  have "h \<in> fst ` set ?l \<longleftrightarrow> rows s (c, h) \<noteq> None" for h
    using loaded_local[OF assms(1,2), of h] by (metis map_of_eq_None_iff)
  then have "join_handles ?j = {h. rows s (c, h) \<noteq> None} \<union> ri_handle ` set (rs_items sn)"
    by (intro set_eqI) (simp add: join_handles_def join_new_def snapshot_handles)
  then show "ca_handle ` set (join_all (mg_join (opened ld sn))) = {h. rows s (c, h) \<noteq> None} \<union> ri_handle ` set (rs_items sn)"
    using all unfolding j by blast
qed

text \<open>Over a complete enumeration the candidates are the outer join of the rows and the items.\<close>

lemma candidates_complete:
  assumes "inv s" "st_load sto s c ScopeAll = Inr ld" "rs_complete sn"
  shows "\<forall>cand \<in> set (candidates (opened ld sn)). cand = paired (rows s) c (rs_items sn) (ca_handle cand)"
    and "distinct (map ca_handle (candidates (opened ld sn)))"
    and "ca_handle ` set (candidates (opened ld sn)) = {h. rows s (c, h) \<noteq> None} \<union> ri_handle ` set (rs_items sn)"
proof -
  have "candidates (opened ld sn) = join_all (mg_join (opened ld sn))"
    using assms(3) by (simp add: candidates_def opened_def)
  with opened_join[OF assms(1,2), of sn]
  show "\<forall>cand \<in> set (candidates (opened ld sn)). cand = paired (rows s) c (rs_items sn) (ca_handle cand)"
    "distinct (map ca_handle (candidates (opened ld sn)))"
    "ca_handle ` set (candidates (opened ld sn)) = {h. rows s (c, h) \<noteq> None} \<union> ri_handle ` set (rs_items sn)"
    by (simp_all add: strict_sorted_iff)
qed

lemma load_all:
  assumes "inv s" obtains ld where "st_load sto s c ScopeAll = Inr ld" "ld_checkpoint ld = cursor s c"
  using load_ok[OF assms, of c ScopeAll] load_cursor[OF assms] by blast

lemma idle_sync:
  assumes "inv s" "rm_enumerate rem c (if opt_full opts then None else cursor s c) r = (r1, Inr sn)" "rs_complete sn"
    "\<forall>h. idle (paired (rows s) c (rs_items sn) h)"
  shows "\<exists>s'. client_sync sto rem c opts \<lparr>cl_storage = s, cl_remote = r\<rparr>
        = Some (\<lparr>cl_storage = s', cl_remote = r1\<rparr>, Returned (Inr sync_report_default))
    \<and> inv s' \<and> rows s' = rows s \<and> cursor s' = (cursor s)(c \<mapsto> rs_checkpoint sn)"
proof -
  obtain ld where ld: "st_load sto s c ScopeAll = Inr ld" "ld_checkpoint ld = cursor s c" using load_all[OF assms(1)] .
  have "\<forall>cand \<in> set (candidates (opened ld sn)). idle cand"
    using candidates_complete(1)[OF assms(1) ld(1) assms(3)] assms(4) by metis
  then have "sync_spec rem c opts ld r = Some (r1, [SetCheckpoint c (rs_checkpoint sn)], sync_report_default)"
    by (rule sync_spec_idle[OF assms(2)[folded ld(2)]])
  from sync_runs_spec[OF assms(1) ld(1) this] show ?thesis by simp
qed

lemma mirroring_sync:
  assumes "inv s" "rm_enumerate rem c (if opt_full opts then None else cursor s c) r = (r1, Inr sn)" "rs_complete sn"
    "\<forall>h. rows s (c, h) = None"
  shows "\<exists>s'. client_sync sto rem c opts \<lparr>cl_storage = s, cl_remote = r\<rparr>
        = Some (\<lparr>cl_storage = s', cl_remote = r1\<rparr>, Returned (Inr (sync_report_default
            \<lparr>sr_pulled := card (ri_handle ` set (rs_items sn)),
             sr_events := map Added (sorted_list_of_set (ri_handle ` set (rs_items sn)))\<rparr>)))
    \<and> inv s' \<and> (\<forall>c' h. rows s' (c', h) = (if c' = c then mirror c (rs_items sn) h else rows s (c', h)))
    \<and> cursor s' = (cursor s)(c \<mapsto> rs_checkpoint sn)"
proof -
  obtain ld where ld: "st_load sto s c ScopeAll = Inr ld" "ld_checkpoint ld = cursor s c" using load_all[OF assms(1)] .
  let ?is = "snapshot_items (rs_items sn)"
  have "ld_placements ld = []"
    using load_ok[OF assms(1), of c ScopeAll] ld(1) assms(4) by (cases "ld_placements ld") auto
  then have "candidates (opened ld sn) = map added ?is"
    using assms(3) by (simp add: candidates_def opened_def bt_collect_def join_all_remote)
  then have spec: "sync_spec rem c opts ld r = Some (r1, sy_writes (pulled_all ?is (sync_new c opts)) @ [SetCheckpoint c (rs_checkpoint sn)],
      sy_report (pulled_all ?is (sync_new c opts)))"
    unfolding sync_spec_def assms(2)[folded ld(2)]
    by (simp add: merge_all_added push_rounds_quiet pulled_all_def sync_new_def)
  have sorted: "sorted_wrt (<) (map ri_handle ?is)" by (rule snapshot_items_sorted)
  then have dist: "distinct (map ri_handle ?is)" by (simp add: strict_sorted_iff)
  have set: "ri_handle ` set ?is = ri_handle ` set (rs_items sn)"
    by (rule snapshot_handles)
  have handles: "map ri_handle ?is = sorted_list_of_set (ri_handle ` set (rs_items sn))"
    using sorted set by (intro strict_sorted_equal) auto
  then have len: "length ?is = card (ri_handle ` set (rs_items sn))" by (metis length_map length_sorted_list_of_set)
  have mir: "mirror c ?is h = mirror c (rs_items sn) h" for h by (simp add: mirror_def find_snapshot)
  have none: "h \<notin> ri_handle ` set ?is \<Longrightarrow> mirror c (rs_items sn) h = None" for h
    unfolding set by (simp add: mirror_def find_remote_None)
  have events: "map (\<lambda>i. Added (ri_handle i)) ?is = map Added (sorted_list_of_set (ri_handle ` set (rs_items sn)))"
    unfolding handles[symmetric] by simp
  from sync_runs_spec[OF assms(1) ld(1) spec] show ?thesis
    using fold_pulled[OF dist, of c "rows s"] assms(4) none
    by (auto simp: pulled_all_def sync_new_def sync_report_default_def len events mir fold_cursor_none)
qed

text \<open>A run whose only candidate with anything to do derives one change the remote answers.\<close>

lemma single_sync:
  assumes "inv s" "rm_enumerate rem c (if opt_full opts then None else cursor s c) r = (r1, Inr sn)" "rs_complete sn"
    "\<forall>h'. h' \<noteq> h \<longrightarrow> idle (paired (rows s) c (rs_items sn) h')"
    "rows s (c, h) = Some p" "List.find (\<lambda>i. ri_handle i = h) (rs_items sn) = Some item"
    "\<not> idle \<lparr>ca_handle = h, ca_local = Some p, ca_remote = Some item\<rparr>"
    "merge_candidate \<lparr>ca_handle = h, ca_local = Some p, ca_remote = Some item\<rparr> (sync_new c opts) = Some (s1\<lparr>sy_pushes := [ch]\<rparr>)"
    "sy_collection s1 = c" "rm_push rem c [ch] r1 = (r2, Inr [res])"
    "s2 = settle_chunk [res] (s1\<lparr>sy_pushes := [], sy_in_flight := [change_handle ch]\<rparr>)"
  shows "\<exists>s'. client_sync sto rem c opts \<lparr>cl_storage = s, cl_remote = r\<rparr>
        = Some (\<lparr>cl_storage = s', cl_remote = r2\<rparr>, Returned (Inr (sy_report s2)))
    \<and> inv s' \<and> rows s' = fold apply_row (sy_writes s2) (rows s)
    \<and> cursor s' = (fold apply_cursor (sy_writes s2) (cursor s))(c \<mapsto> rs_checkpoint sn)"
proof -
  obtain ld where ld: "st_load sto s c ScopeAll = Inr ld" "ld_checkpoint ld = cursor s c" using load_all[OF assms(1)] .
  note cands = candidates_complete[OF assms(1) ld(1) assms(3)]
  let ?cand = "paired (rows s) c (rs_items sn) h"
  have cand: "?cand = \<lparr>ca_handle = h, ca_local = Some p, ca_remote = Some item\<rparr>" using assms(5,6) by (simp add: paired_def)
  have only: "\<not> idle cand \<longleftrightarrow> ca_handle cand = h" if "cand \<in> set (candidates (opened ld sn))" for cand
  proof -
    have "cand = paired (rows s) c (rs_items sn) (ca_handle cand)" using cands(1) that by blast
    then show ?thesis using assms(4,7) cand by metis
  qed
  have "filter (\<lambda>c. \<not> idle c) (candidates (opened ld sn)) = filter (\<lambda>cand. ca_handle cand = h) (candidates (opened ld sn))"
    using only by (intro filter_cong) auto
  also have "\<dots> = [?cand]" using cands assms(5) by (intro filter_handle) auto
  finally have "filter (\<lambda>c. \<not> idle c) (candidates (opened ld sn)) = [\<lparr>ca_handle = h, ca_local = Some p, ca_remote = Some item\<rparr>]"
    by (simp add: cand)
  from sync_runs_spec[OF assms(1) ld(1) sync_spec_one[OF assms(2)[folded ld(2)] this assms(8-11)]]
  show ?thesis by simp
qed

text \<open>An edit the remote accepts, and a flag change it accepts.\<close>

lemma delivering_sync:
  assumes "inv s" "rm_enumerate rem c (if opt_full opts then None else cursor s c) r = (r1, Inr sn)" "rs_complete sn"
    "\<forall>h'. h' \<noteq> h \<longrightarrow> idle (paired (rows s) c (rs_items sn) h')"
    "rows s (c, h) = Some p" "List.find (\<lambda>i. ri_handle i = h) (rs_items sn) = Some item"
    and edit: "pushes_edit p item" "may_push_content opts"
    and push: "rm_push rem c [change_new c (edit_change h p)] r1 = (r2, Inr [res])" "pr_handle res = h" "pr_outcome res = Accepted"
  shows "\<exists>s'. client_sync sto rem c opts \<lparr>cl_storage = s, cl_remote = r\<rparr>
        = Some (\<lparr>cl_storage = s', cl_remote = r2\<rparr>,
            Returned (Inr (sync_report_default\<lparr>sr_pushed := 1, sr_events := [ContentChanged h]\<rparr>)))
    \<and> inv s' \<and> rows s' = (rows s)((c, h) \<mapsto> content_rebased_placement p (pr_revision res))
    \<and> cursor s' = (cursor s)(c \<mapsto> rs_checkpoint sn)"
proof -
  have p: "p_collection p = c" "p_handle p = h" using keyed[OF assms(1,5)] by simp_all
  let ?s1 = "(sync_new c opts)\<lparr>sy_pending_content_pushes := [(h, p)]\<rparr>"
  have "merge_candidate \<lparr>ca_handle = h, ca_local = Some p, ca_remote = Some item\<rparr> (sync_new c opts)
      = Some (?s1\<lparr>sy_pushes := [change_new c (edit_change h p)]\<rparr>)"
    using merge_candidate_edit[OF edit(1) p(2), of "sync_new c opts"] edit(2) by (simp add: sync_new_def)
  moreover have "\<not> idle \<lparr>ca_handle = h, ca_local = Some p, ca_remote = Some item\<rparr>"
    using edit(1) by (simp add: idle_def pushes_edit_def agrees_def)
  ultimately show ?thesis
    using single_sync[OF assms(1-6) _ _ _ push(1) refl, of ?s1] settle_edit[OF p(2) push(2,3), of c opts] p
    by (simp add: edit_change_def sync_new_def content_rebased_placement_def Let_def)
qed

lemma flagging_sync:
  assumes "inv s" "rm_enumerate rem c (if opt_full opts then None else cursor s c) r = (r1, Inr sn)" "rs_complete sn"
    "\<forall>h'. h' \<noteq> h \<longrightarrow> idle (paired (rows s) c (rs_items sn) h')"
    "rows s (c, h) = Some p" "List.find (\<lambda>i. ri_handle i = h) (rs_items sn) = Some item"
    and edit: "pushes_flags p item" "may_push_flags opts"
    and push: "rm_push rem c [change_new c (SetFlags h (p_flags p))] r1 = (r2, Inr [res])" "pr_handle res = h" "pr_outcome res = Accepted"
  shows "\<exists>s'. client_sync sto rem c opts \<lparr>cl_storage = s, cl_remote = r\<rparr>
        = Some (\<lparr>cl_storage = s', cl_remote = r2\<rparr>,
            Returned (Inr (sync_report_default\<lparr>sr_pushed := 1, sr_events := [FlagsChanged h]\<rparr>)))
    \<and> inv s' \<and> rows s' = (rows s)((c, h) \<mapsto> rebased_placement p (p_flags p))
    \<and> cursor s' = (cursor s)(c \<mapsto> rs_checkpoint sn)"
proof -
  have p: "p_collection p = c" "p_handle p = h" using keyed[OF assms(1,5)] by simp_all
  let ?s1 = "(sync_new c opts)\<lparr>sy_pending_flag_pushes := [(h, p)]\<rparr>"
  have "merge_candidate \<lparr>ca_handle = h, ca_local = Some p, ca_remote = Some item\<rparr> (sync_new c opts)
      = Some (?s1\<lparr>sy_pushes := [change_new c (SetFlags h (p_flags p))]\<rparr>)"
    using merge_candidate_flags[OF edit(1) p(2), of "sync_new c opts"] edit(2) by (simp add: sync_new_def)
  moreover have "\<not> idle \<lparr>ca_handle = h, ca_local = Some p, ca_remote = Some item\<rparr>"
    using edit(1) by (simp add: idle_def pushes_flags_def agrees_def)
  ultimately show ?thesis
    using single_sync[OF assms(1-6) _ _ _ push(1) refl, of ?s1] settle_flag_push[OF p(2) push(2,3), of c opts] p
    by (simp add: sync_new_def rebased_placement_def)
qed

end

section \<open>Whole runs over the in-memory storage\<close>

text \<open>
  C18: a sync over a working remote completes. When no call of the remote fails, a sync of any
  collection in any state, whatever the remote lists and however it answers the pushes,
  returns a report, and the cursor then stored is the one the enumeration of this run came
  with.
\<close>

theorem sync_over_working_remote:
  assumes "mem_inv s" "remote_up rem"
  shows "\<exists>s' r' report r1 sn. client_sync mem_ops rem c opts \<lparr>cl_storage = s, cl_remote = r\<rparr>
        = Some (\<lparr>cl_storage = s', cl_remote = r'\<rparr>, Returned (Inr report))
    \<and> mem_inv s' \<and> rm_enumerate rem c (if opt_full opts then None else mem_cursor s c) r = (r1, Inr sn)
    \<and> mem_cursor s' c = Some (rs_checkpoint sn)"
proof -
  obtain ld where ld: "st_load mem_ops s c ScopeAll = Inr ld" "ld_checkpoint ld = mem_cursor s c"
    using mem_cur.load_all[OF assms(1)] .
  obtain r' ops report where spec: "sync_spec rem c opts ld r = Some (r', ops, report)"
    using sync_spec_total[OF assms(2)] by blast
  then obtain r1 sn ws where "rm_enumerate rem c (if opt_full opts then None else ld_checkpoint ld) r = (r1, Inr sn)"
    "ops = ws @ [SetCheckpoint c (rs_checkpoint sn)]"
    by (auto simp: sync_spec_def split: prod.splits sum.splits Option.bind_splits)
  with mem_cur.sync_runs_spec[OF assms(1) ld(1) spec] ld(2) show ?thesis by auto
qed

theorem sync_over_working_remote_witness:
  "\<exists>s' r' report. client_sync mem_ops (sample_remote []) (CollectionId ''inbox'') sync_options_default
        \<lparr>cl_storage = sample_store [sample_create], cl_remote = 0\<rparr>
      = Some (\<lparr>cl_storage = s', cl_remote = r'\<rparr>, Returned (Inr report))
    \<and> mem_cursor s' (CollectionId ''inbox'') = Some (Checkpoint [1])"
proof -
  have "remote_up (sample_remote [])" by (simp add: remote_up_def sample_remote_def)
  from sync_over_working_remote[OF sample_store_inv[of "[sample_create]"] this,
      of "CollectionId ''inbox''" sync_options_default 0]
  show ?thesis by (auto simp: sample_remote_def)
qed

text \<open>
  C5: a first sync mirrors the remote. Syncing a collection the storage holds nothing of
  against a complete enumeration leaves exactly one row per listed handle, clean, probed, with
  the flags and the revision of its item as the synced base, and nothing else; every other
  collection is as it was, nothing is pushed, the report counts and names every handle once,
  and the cursor is the enumeration's.
\<close>

theorem first_sync_mirrors_remote:
  assumes "mem_inv s" "rm_enumerate rem c (if opt_full opts then None else mem_cursor s c) r = (r1, Inr sn)"
    "rs_complete sn" "\<forall>h. mem_rows s (c, h) = None"
  shows "\<exists>s'. client_sync mem_ops rem c opts \<lparr>cl_storage = s, cl_remote = r\<rparr>
        = Some (\<lparr>cl_storage = s', cl_remote = r1\<rparr>, Returned (Inr (sync_report_default
            \<lparr>sr_pulled := card (ri_handle ` set (rs_items sn)),
             sr_events := map Added (sorted_list_of_set (ri_handle ` set (rs_items sn)))\<rparr>)))
    \<and> (\<forall>c' h. mem_rows s' (c', h) =
          (if c' = c then map_option (\<lambda>i.
               \<lparr>p_collection = c, p_handle = h, p_link_id = None, p_object = None, p_level = LvProbed, p_meta = None,
                p_sort_key = sort_key_default, p_flags = ri_flags i, p_status = Clean, p_conflict_revision = None,
                p_conflict_object = None,
                p_base = Some \<lparr>b_flags = ri_flags i, b_revision = ri_revision i, b_object = None\<rparr>, p_origin = None\<rparr>)
               (List.find (\<lambda>i. ri_handle i = h) (rs_items sn))
           else mem_rows s (c', h)))
    \<and> mem_cursor s' = (mem_cursor s)(c \<mapsto> rs_checkpoint sn)"
  using mem_cur.mirroring_sync[OF assms] unfolding mirror_fields by blast

theorem first_sync_mirrors_remote_witness:
  "\<exists>s'. client_sync mem_ops (sample_remote [sample_item ''2'', sample_item ''1'']) (CollectionId ''inbox'') sync_options_default
        \<lparr>cl_storage = sample_store [], cl_remote = 0\<rparr>
      = Some (\<lparr>cl_storage = s', cl_remote = 0\<rparr>, Returned (Inr (sync_report_default
            \<lparr>sr_pulled := 2, sr_events := [Added (Handle ''1''), Added (Handle ''2'')]\<rparr>)))
    \<and> mem_rows s' (CollectionId ''inbox'', Handle ''2'')
      = Some (pulled_placement (CollectionId ''inbox'') (sample_item ''2''))"
proof -
  let ?is = "[sample_item ''2'', sample_item ''1'']" and ?c = "CollectionId ''inbox''"
  have "rm_enumerate (sample_remote ?is) ?c (if opt_full sync_options_default then None else mem_cursor (sample_store []) ?c) 0
      = (0, Inr \<lparr>rs_items = ?is, rs_vanished = [], rs_complete = True, rs_checkpoint = Checkpoint [1]\<rparr>)"
    "\<forall>h. mem_rows (sample_store []) (?c, h) = None"
    by (simp_all add: sample_remote_def sample_store_def mem_rows_def)
  moreover have "ri_handle ` set ?is = {Handle ''1'', Handle ''2''}" by (auto simp: sample_item_def)
  moreover have "sorted_list_of_set {Handle ''1'', Handle ''2''} = [Handle ''1'', Handle ''2'']"
    by (simp add: less_char_def less_eq_char_def)
  ultimately show ?thesis
    using first_sync_mirrors_remote[OF sample_store_inv[of "[]"], of "sample_remote ?is" ?c sync_options_default 0 0]
    by (auto simp: sample_item_def pulled_placement_def)
qed

text \<open>
  Syncing again changes nothing. After a first sync, a second one against a remote that
  still lists the same items answers an empty report, pushes nothing, writes no row and
  stores the new cursor.
\<close>

theorem second_sync_is_idle:
  assumes "mem_inv s" "rm_enumerate rem c (if opt_full opts then None else mem_cursor s c) r = (r1, Inr sn)"
    "rs_complete sn" "\<forall>h. mem_rows s (c, h) = None"
    "rm_enumerate rem c (if opt_full opts' then None else Some (rs_checkpoint sn)) r1 = (r2, Inr sn')"
    "rs_complete sn'" "rs_items sn' = rs_items sn"
  shows "\<exists>s' s'' report. client_sync mem_ops rem c opts \<lparr>cl_storage = s, cl_remote = r\<rparr>
        = Some (\<lparr>cl_storage = s', cl_remote = r1\<rparr>, Returned (Inr report))
    \<and> client_sync mem_ops rem c opts' \<lparr>cl_storage = s', cl_remote = r1\<rparr>
        = Some (\<lparr>cl_storage = s'', cl_remote = r2\<rparr>, Returned (Inr sync_report_default))
    \<and> mem_rows s'' = mem_rows s' \<and> mem_cursor s'' = (mem_cursor s')(c \<mapsto> rs_checkpoint sn')"
proof -
  obtain s' report where s': "client_sync mem_ops rem c opts \<lparr>cl_storage = s, cl_remote = r\<rparr>
      = Some (\<lparr>cl_storage = s', cl_remote = r1\<rparr>, Returned (Inr report))"
    "mem_inv s'" "\<forall>h. mem_rows s' (c, h) = mirror c (rs_items sn) h" "mem_cursor s' c = Some (rs_checkpoint sn)"
    using mem_cur.mirroring_sync[OF assms(1-4)] by (metis fun_upd_same)
  have "agrees (pulled_placement c i) i" for i by (simp add: agrees_def pulled_placement_def)
  then have "\<forall>h. idle (paired (mem_rows s') c (rs_items sn') h)"
    using s'(3) assms(7) by (auto simp: paired_def idle_def mirror_def split: option.split)
  from mem_cur.idle_sync[OF s'(2) assms(5)[folded s'(4)] assms(6) this] s'(1) show ?thesis by blast
qed

theorem second_sync_is_idle_witness:
  "\<exists>s' s'' report. client_sync mem_ops (sample_remote [sample_item ''1'']) (CollectionId ''inbox'') sync_options_default
        \<lparr>cl_storage = sample_store [], cl_remote = 0\<rparr>
      = Some (\<lparr>cl_storage = s', cl_remote = 0\<rparr>, Returned (Inr report))
    \<and> client_sync mem_ops (sample_remote [sample_item ''1'']) (CollectionId ''inbox'') sync_options_default
        \<lparr>cl_storage = s', cl_remote = 0\<rparr>
      = Some (\<lparr>cl_storage = s'', cl_remote = 0\<rparr>, Returned (Inr sync_report_default))"
proof -
  let ?sn = "\<lparr>rs_items = [sample_item ''1''], rs_vanished = [], rs_complete = True, rs_checkpoint = Checkpoint [1]\<rparr>"
  have "rm_enumerate (sample_remote [sample_item ''1'']) c ck 0 = (0, Inr ?sn)" for c ck
    by (simp add: sample_remote_def)
  moreover have "\<forall>h. mem_rows (sample_store []) (CollectionId ''inbox'', h) = None"
    by (simp add: sample_store_def mem_rows_def)
  ultimately show ?thesis
    using second_sync_is_idle[OF sample_store_inv[of "[]"], of "sample_remote [sample_item ''1'']" "CollectionId ''inbox''"
        sync_options_default 0 0 ?sn sync_options_default 0 ?sn]
    by auto
qed

text \<open>What editing offline leaves in the storage.\<close>

lemma mem_edit_stages:
  assumes "mem_inv s" "mem_rows s (c, h) = Some p"
  shows "\<exists>s'. client_mutate mem_ops rem c (MEdit h obj body m k) \<lparr>cl_storage = s, cl_remote = r\<rparr>
        = Some (\<lparr>cl_storage = s', cl_remote = r\<rparr>, Returned (Inr ()))
    \<and> mem_inv s' \<and> mem_rows s' = (mem_rows s)((c, h) \<mapsto> edit_placement p obj m k) \<and> mem_cursor s' = mem_cursor s"
proof -
  have p: "p_collection p = c" "p_handle p = h" using mem.keyed assms by auto
  obtain cl' where cl': "client_mutate mem_ops rem c (MEdit h obj body m k) \<lparr>cl_storage = s, cl_remote = r\<rparr>
      = Some (cl', Returned (Inr ()))" "mem_inv (cl_storage cl')" "cl_remote cl' = r"
    "st_write mem_ops (mutate_writes (mutate_new c (MEdit h obj body m k)) p) s = (cl_storage cl', Inr ())"
    "mem_rows (cl_storage cl') = fold apply_row (mutate_writes (mutate_new c (MEdit h obj body m k)) p) (mem_rows s)"
    using mem.mutate_applies_writes[of "\<lparr>cl_storage = s, cl_remote = r\<rparr>" c h p "MEdit h obj body m k" rem] assms by auto
  have "cl' = \<lparr>cl_storage = cl_storage cl', cl_remote = r\<rparr>" using cl'(3) by simp
  moreover have "mem_cursor (cl_storage cl') = mem_cursor s"
    using mem_cur.write_cursor[OF assms(1) cl'(4)] by (simp add: mutate_writes_def mutate_new_def)
  ultimately show ?thesis using cl'(1,2,5) p by (intro exI[of _ "cl_storage cl'"]) (simp add: mutate_writes_def mutate_new_def)
qed

text \<open>
  C10: an offline edit is delivered. Editing a clean row offline and then syncing, the rest of
  the collection being in agreement with a complete enumeration, pushes exactly the update of
  that handle to the edited body guarded by the revision last synced, and once the remote
  accepts it the row is clean again with the edited body as its synced base at the revision
  the remote answered, every other row of every collection being untouched.
\<close>

theorem offline_edit_is_delivered:
  assumes "mem_inv s" "mem_rows s (c, h) = Some p" "p_base p = Some b" "b_object b \<noteq> Some (o_hash obj)"
    "List.find (\<lambda>i. ri_handle i = h) (rs_items sn) = Some item" "agrees p item"
    "\<forall>h'. h' \<noteq> h \<longrightarrow> idle (paired (mem_rows s) c (rs_items sn) h')"
    "rm_enumerate rem c (if opt_full opts then None else mem_cursor s c) r = (r1, Inr sn)" "rs_complete sn"
    "may_push_content opts"
    "rm_push rem c [change_new c (Update h (o_hash obj) (b_revision b))] r1 = (r2, Inr [res])"
    "pr_handle res = h" "pr_outcome res = Accepted"
  shows "\<exists>cl' cl'' q. client_mutate mem_ops rem c (MEdit h obj body m k) \<lparr>cl_storage = s, cl_remote = r\<rparr>
        = Some (cl', Returned (Inr ()))
    \<and> client_sync mem_ops rem c opts cl' = Some (cl'', Returned (Inr (sync_report_default
        \<lparr>sr_pushed := 1, sr_events := [ContentChanged h]\<rparr>)))
    \<and> cl_remote cl'' = r2 \<and> mem_rows (cl_storage cl'') = (mem_rows s)((c, h) \<mapsto> q)
    \<and> p_status q = Clean \<and> p_object q = Some (o_hash obj)
    \<and> p_base q = Some \<lparr>b_flags = b_flags b, b_revision = pr_revision res, b_object = Some (o_hash obj)\<rparr>"
proof -
  let ?e = "edit_placement p obj m k"
  have clean: "p_status p = Clean" using assms(6) by (simp add: agrees_def)
  then have e: "p_status ?e = Dirty" "p_base ?e = Some b" using assms(3,4) by (simp_all add: edit_placement_plain)
  obtain s' where s': "client_mutate mem_ops rem c (MEdit h obj body m k) \<lparr>cl_storage = s, cl_remote = r\<rparr>
      = Some (\<lparr>cl_storage = s', cl_remote = r\<rparr>, Returned (Inr ()))" "mem_inv s'"
    "mem_rows s' = (mem_rows s)((c, h) \<mapsto> ?e)" "mem_cursor s' = mem_cursor s"
    using mem_edit_stages[OF assms(1,2), of rem obj body m k r] by blast
  have pe: "pushes_edit ?e item" using e assms(3,4,6) by (auto simp: pushes_edit_def agrees_def)
  have others: "\<forall>h'. h' \<noteq> h \<longrightarrow> idle (paired (mem_rows s') c (rs_items sn) h')"
    using assms(7) by (simp add: s'(3) paired_def)
  have push: "rm_push rem c [change_new c (edit_change h ?e)] r1 = (r2, Inr [res])"
    using assms(11) e(2) by (simp add: edit_change_def)
  obtain s'' where s'': "client_sync mem_ops rem c opts \<lparr>cl_storage = s', cl_remote = r\<rparr>
      = Some (\<lparr>cl_storage = s'', cl_remote = r2\<rparr>,
          Returned (Inr (sync_report_default\<lparr>sr_pushed := 1, sr_events := [ContentChanged h]\<rparr>)))"
    "mem_rows s'' = (mem_rows s')((c, h) \<mapsto> content_rebased_placement ?e (pr_revision res))"
    using mem_cur.delivering_sync[OF s'(2) assms(8)[folded s'(4)] assms(9) others _ assms(5) pe assms(10) push assms(12,13)] s'(3)
    by auto
  moreover have "p_flags ?e = b_flags b" using assms(3,6) by (auto simp: agrees_def)
  ultimately show ?thesis
    using s'(1,3) e
    by (intro exI[of _ "\<lparr>cl_storage = s', cl_remote = r\<rparr>"] exI[of _ "\<lparr>cl_storage = s'', cl_remote = r2\<rparr>"]
          exI[of _ "content_rebased_placement ?e (pr_revision res)"]) (simp add: content_rebased_placement_def)
qed

theorem offline_edit_is_delivered_witness:
  "\<exists>cl' cl'' q. client_mutate mem_ops (sample_remote [\<lparr>ri_handle = Handle ''1'', ri_flags = flags_default, ri_revision = None\<rparr>])
        (CollectionId ''inbox'') (MEdit (Handle ''1'') \<lparr>o_hash = Hash ''y'', o_size = 1\<rparr> [7] None None)
        \<lparr>cl_storage = sample_store [sample_placement ''1''], cl_remote = 0\<rparr> = Some (cl', Returned (Inr ()))
    \<and> client_sync mem_ops (sample_remote [\<lparr>ri_handle = Handle ''1'', ri_flags = flags_default, ri_revision = None\<rparr>])
        (CollectionId ''inbox'') sync_options_default cl' = Some (cl'', Returned (Inr (sync_report_default
        \<lparr>sr_pushed := 1, sr_events := [ContentChanged (Handle ''1'')]\<rparr>)))
    \<and> cl_remote cl'' = 1 \<and> mem_rows (cl_storage cl'') (CollectionId ''inbox'', Handle ''1'') = Some q
    \<and> p_status q = Clean \<and> p_object q = Some (Hash ''y'')"
proof -
  let ?i = "\<lparr>ri_handle = Handle ''1'', ri_flags = flags_default, ri_revision = None\<rparr>"
  let ?c = "CollectionId ''inbox''" and ?s = "sample_store [sample_placement ''1'']" and ?rem = "sample_remote [?i]"
  let ?sn = "\<lparr>rs_items = [?i], rs_vanished = [], rs_complete = True, rs_checkpoint = Checkpoint [1]\<rparr>"
  let ?res = "\<lparr>pr_handle = Handle ''1'', pr_outcome = Accepted, pr_assigned = None, pr_revision = Some ''2''\<rparr>"
  have rows: "mem_rows ?s = [(?c, Handle ''1'') \<mapsto> sample_placement ''1'']"
    by (simp add: sample_store_def mem_rows_def sample_placement_def fun_eq_iff)
  have row: "mem_rows ?s (?c, Handle ''1'') = Some (sample_placement ''1'')" by (simp add: rows)
  have synced: "p_base (sample_placement ''1'') = Some sample_base"
    "b_object sample_base \<noteq> Some (o_hash \<lparr>o_hash = Hash ''y'', o_size = 1\<rparr>)"
    "List.find (\<lambda>i. ri_handle i = Handle ''1'') (rs_items ?sn) = Some ?i" "agrees (sample_placement ''1'') ?i"
    by (simp_all add: sample_placement_def sample_base_def agrees_def)
  have others: "\<forall>h'. h' \<noteq> Handle ''1'' \<longrightarrow> idle (paired (mem_rows ?s) ?c (rs_items ?sn) h')"
    by (simp add: rows paired_def idle_def)
  have served: "rm_enumerate ?rem ?c (if opt_full sync_options_default then None else mem_cursor ?s ?c) 0 = (0, Inr ?sn)"
    "rs_complete ?sn" "may_push_content sync_options_default"
    "rm_push ?rem ?c [change_new ?c (Update (Handle ''1'') (o_hash \<lparr>o_hash = Hash ''y'', o_size = 1\<rparr>) (b_revision sample_base))] 0
      = (1, Inr [?res])"
    "pr_handle ?res = Handle ''1''" "pr_outcome ?res = Accepted"
    by (simp_all add: sample_remote_def may_push_content_def sync_options_default_def push_rights_all_def)
  from offline_edit_is_delivered[OF sample_store_inv row synced others served, of "[7]" None None]
  show ?thesis
  proof (elim exE conjE)
    fix cl' cl'' q
    assume "client_mutate mem_ops ?rem ?c (MEdit (Handle ''1'') \<lparr>o_hash = Hash ''y'', o_size = 1\<rparr> [7] None None)
        \<lparr>cl_storage = ?s, cl_remote = 0\<rparr> = Some (cl', Returned (Inr ()))"
      "client_sync mem_ops ?rem ?c sync_options_default cl' = Some (cl'', Returned (Inr (sync_report_default
        \<lparr>sr_pushed := 1, sr_events := [ContentChanged (Handle ''1'')]\<rparr>)))"
      "cl_remote cl'' = 1" "mem_rows (cl_storage cl'') = (mem_rows ?s)((?c, Handle ''1'') \<mapsto> q)"
      "p_status q = Clean" "p_object q = Some (o_hash \<lparr>o_hash = Hash ''y'', o_size = 1\<rparr>)"
    then show ?thesis by (intro exI[of _ cl'] exI[of _ cl''] exI[of _ q]) simp
  qed
qed

end
