(* ===== verification/Sync_Delta.thy ===== *)
theory Sync_Delta
  imports Sync_Mirror
begin

text \<open>
  Incremental against full enumeration. A snapshot that lists only what changed since the
  cursor leads a sync to the same report, pushes, rows and cursor as the complete listing it
  stands for.
\<close>

section \<open>Whether a run is full is invisible to the merge\<close>

definition with_full :: "bool \<Rightarrow> sync \<Rightarrow> sync" where
  "with_full f s = s\<lparr>sy_opts := (sy_opts s)\<lparr>opt_full := f\<rparr>\<rparr>"

interpretation wf: sync_view "with_full f" for f
  by unfold_locales
    (simp_all add: with_full_def may_push_flags_def may_push_content_def may_push_add_def may_push_remove_def recording)

lemma sync_new_full: "sync_new c (opts\<lparr>opt_full := f\<rparr>) = with_full f (sync_new c opts)"
  by (simp add: sync_new_def with_full_def)

lemma with_full_fields [simp]: "sy_writes (with_full f s) = sy_writes s"
  by (simp add: with_full_def)

lemma sync_spec_full:
  assumes "rm_enumerate rem c (if f then None else ld_checkpoint ld) r = (r1, Inr sn)"
    and "merge_all (candidates (opened ld sn)) (sync_new c opts) = Some s"
    and "push_rounds rem r1 s = Some (r2, t)"
  shows "sync_spec rem c (opts\<lparr>opt_full := f\<rparr>) ld r
    = Some (r2, sy_writes t @ [SetCheckpoint c (rs_checkpoint sn)], sy_report t)"
  using assms by (simp add: sync_spec_def sync_new_full wf.merge_all_view wf.push_rounds_view)

section \<open>What a delta leaves unsaid\<close>

text \<open>The state the remote holds of an item it does not mention: the best one known.\<close>

definition known_item :: "placement \<Rightarrow> remote_item option" where
  "known_item p = map_option (\<lambda>b. \<lparr>ri_handle = p_handle p, ri_flags = b_flags b,
     ri_revision = option_or (p_conflict_revision p) (b_revision b)\<rparr>) (p_base p)"

definition settled :: "placement \<Rightarrow> bool" where
  "settled p \<longleftrightarrow> p_conflict_revision p = None \<and> (\<exists>b. p_base p = Some b \<and> p_flags p = b_flags b)"

lemma settled_agrees: "p_status p = Clean \<Longrightarrow> settled p \<Longrightarrow> known_item p = Some item \<Longrightarrow> agrees p item"
  by (auto simp: settled_def known_item_def agrees_def)

text \<open>The listing a delta stands for, over the rows it was asked against.\<close>

definition delta_item :: "rows \<Rightarrow> collection_id \<Rightarrow> remote_snapshot \<Rightarrow> handle \<Rightarrow> remote_item option" where
  "delta_item m c sn h =
     (if h \<in> set (rs_vanished sn) then None
      else case List.find (\<lambda>i. ri_handle i = h) (rs_items sn) of
             Some i \<Rightarrow> Some i
           | None \<Rightarrow> Option.bind (m (c, h)) known_item)"

definition delta_pair :: "rows \<Rightarrow> collection_id \<Rightarrow> remote_snapshot \<Rightarrow> handle \<Rightarrow> candidate" where
  "delta_pair m c sn h = \<lparr>ca_handle = h, ca_local = m (c, h), ca_remote = delta_item m c sn h\<rparr>"

text \<open>Narrowing keeps a joined handle with the item the delta stands for, or finds it idle.\<close>

lemma narrow_delta:
  assumes "mg_vanished mg = fset_of_list (rs_vanished sn)"
    and "\<And>p. m (c, h) = Some p \<Longrightarrow> p_handle p = h \<and> (p_status p = Clean \<longrightarrow> settled p)"
  shows "(case narrow mg (paired m c (rs_items sn) h) of
      Some cand \<Rightarrow> cand = delta_pair m c sn h | None \<Rightarrow> idle (delta_pair m c sn h))"
proof (cases "h \<in> set (rs_vanished sn)")
  case True
  with assms(1) show ?thesis by (simp add: narrow_def paired_def delta_pair_def delta_item_def fset_of_list_elem)
next
  case False
  note [simp] = narrow_def paired_def delta_pair_def delta_item_def fset_of_list_elem
  show ?thesis
  proof (cases "List.find (\<lambda>i. ri_handle i = h) (rs_items sn)")
    case None
    show ?thesis
    proof (cases "m (c, h)")
      case (Some p)
      note p = assms(2)[OF this]
      show ?thesis
      proof (cases "p_status p = Clean")
        case True
        then have "settled p" using p by simp
        then obtain item where "known_item p = Some item" by (auto simp: settled_def known_item_def)
        with True \<open>settled p\<close> False None Some assms(1) settled_agrees[of p item] show ?thesis by (simp add: idle_def)
      qed (use p False None Some assms(1) in \<open>simp add: known_item_def\<close>)
    qed (use False None assms(1) in \<open>simp add: idle_def\<close>)
  qed (use False assms(1) in simp)
qed

lemma strict_sorted_candidates:
  assumes "sorted_wrt (<) (map ca_handle as)" "sorted_wrt (<) (map ca_handle bs)" "set as = set bs"
  shows "as = bs"
proof -
  have "map ca_handle as = map ca_handle bs" using assms by (intro strict_sorted_equal) auto
  moreover have "inj_on ca_handle (set as \<union> set bs)" using assms by (simp add: distinct_map strict_sorted_iff)
  ultimately show ?thesis using map_inj_on by blast
qed

lemma sorted_filter_handles:
  "sorted_wrt (<) (map ca_handle cs) \<Longrightarrow> sorted_wrt (<) (map ca_handle (filter P cs))"
  by (induction cs) auto

lemma sorted_map_filter:
  assumes "\<And>c c'. g c = Some c' \<Longrightarrow> ca_handle c' = ca_handle c"
  shows "sorted_wrt (<) (map ca_handle cs) \<Longrightarrow> sorted_wrt (<) (map ca_handle (List.map_filter g cs))"
proof (induction cs)
  case (Cons c cs)
  have "ca_handle ` set (List.map_filter g cs) \<subseteq> ca_handle ` set cs"
    using assms by (auto simp: List.map_filter_def)
  with Cons assms[of c] show ?case by (cases "g c") (auto simp: List.map_filter_simps)
qed (simp add: List.map_filter_simps)

text \<open>What narrowing a join leaves to act on.\<close>

lemma acting_candidates:
  assumes join: "\<forall>cand \<in> set js. cand = p (ca_handle cand)"
    and narrowed: "\<And>h. case g (p h) of Some cand \<Rightarrow> cand = q h | None \<Rightarrow> idle (q h)"
    and rest: "\<And>h. h \<notin> ca_handle ` set js \<Longrightarrow> idle (q h)"
  shows "set (filter (\<lambda>c. \<not> idle c) (List.map_filter g js)) = {cand. \<not> idle cand \<and> (\<exists>h. cand = q h)}"
proof (intro set_eqI iffI)
  fix cand assume "cand \<in> set (filter (\<lambda>c. \<not> idle c) (List.map_filter g js))"
  then obtain c where c: "c \<in> set js" "g c = Some cand" "\<not> idle cand" by (auto simp: List.map_filter_def)
  then have "cand = q (ca_handle c)" using join narrowed[of "ca_handle c"] by (metis option.simps(5))
  with c(3) show "cand \<in> {cand. \<not> idle cand \<and> (\<exists>h. cand = q h)}" by blast
next
  fix cand assume "cand \<in> {cand. \<not> idle cand \<and> (\<exists>h. cand = q h)}"
  then obtain h where h: "cand = q h" "\<not> idle cand" by blast
  then have "h \<in> ca_handle ` set js" using rest by blast
  then have "p h \<in> set js" using join by force
  moreover have "g (p h) = Some cand" using narrowed[of h] h by (cases "g (p h)") auto
  ultimately show "cand \<in> set (filter (\<lambda>c. \<not> idle c) (List.map_filter g js))"
    using h(2) by (force simp: List.map_filter_def)
qed

section \<open>The two runs\<close>

context cursor_storage
begin

text \<open>The candidates a full and a delta snapshot leave to act on are the same.\<close>

lemma delta_candidates:
  assumes "inv s" "st_load sto s c ScopeAll = Inr ld" "rs_complete full" "\<not> rs_complete delta"
    "\<And>h. List.find (\<lambda>i. ri_handle i = h) (rs_items full) = delta_item (rows s) c delta h"
    "\<And>h p. rows s (c, h) = Some p \<Longrightarrow> p_status p = Clean \<Longrightarrow> settled p"
  shows "filter (\<lambda>c. \<not> idle c) (candidates (opened ld full)) = filter (\<lambda>c. \<not> idle c) (candidates (opened ld delta))"
proof -
  let ?f = "opened ld full" and ?d = "opened ld delta" and ?pair = "delta_pair (rows s) c delta"
  note jf = opened_join[OF assms(1,2), of full] and jd = opened_join[OF assms(1,2), of delta]
  have cf: "candidates ?f = List.map_filter Some (join_all (mg_join ?f))"
    using assms(3) by (simp add: candidates_def opened_def List.map_filter_def)
  have cd: "candidates ?d = List.map_filter (narrow ?d) (join_all (mg_join ?d))"
    using assms(4) by (simp add: candidates_def opened_def)
  have full: "set (filter (\<lambda>c. \<not> idle c) (candidates ?f)) = {cand. \<not> idle cand \<and> (\<exists>h. cand = ?pair h)}"
    unfolding cf
  proof (rule acting_candidates[OF jf(1)])
    show "idle (?pair h)" if "h \<notin> ca_handle ` set (join_all (mg_join ?f))" for h
      using that find_remote_None[of h "rs_items full"]
      by (simp add: jf(3) delta_pair_def idle_def assms(5)[symmetric])
  qed (simp add: paired_def delta_pair_def assms(5))
  have "set (filter (\<lambda>c. \<not> idle c) (candidates ?d)) = {cand. \<not> idle cand \<and> (\<exists>h. cand = ?pair h)}"
    unfolding cd
  proof (rule acting_candidates[OF jd(1)])
    show "case narrow ?d (paired (rows s) c (rs_items delta) h) of Some cand \<Rightarrow> cand = ?pair h | None \<Rightarrow> idle (?pair h)" for h
      using keyed[OF assms(1)] assms(6) by (intro narrow_delta) (auto simp: opened_def)
    show "idle (?pair h)" if "h \<notin> ca_handle ` set (join_all (mg_join ?d))" for h
      using that find_remote_None[of h "rs_items delta"] by (simp add: jd(3) delta_pair_def delta_item_def idle_def)
  qed
  with full have sets: "set (filter (\<lambda>c. \<not> idle c) (candidates ?f)) = set (filter (\<lambda>c. \<not> idle c) (candidates ?d))" by blast
  have "sorted_wrt (<) (map ca_handle (candidates ?f))" "sorted_wrt (<) (map ca_handle (candidates ?d))"
    unfolding cf cd using jf(2) jd(2) narrow_keeps by (auto intro!: sorted_map_filter)
  with sets show ?thesis by (blast intro: strict_sorted_candidates sorted_filter_handles)
qed

lemma delta_sync:
  assumes "inv s" "rm_enumerate rem c None r = (r1, Inr full)" "rm_enumerate rem c (cursor s c) r = (r1, Inr delta)"
    "rs_complete full" "\<not> rs_complete delta" "rs_checkpoint delta = rs_checkpoint full"
    "\<And>h. List.find (\<lambda>i. ri_handle i = h) (rs_items full) = delta_item (rows s) c delta h"
    "\<forall>h p. rows s (c, h) = Some p \<longrightarrow> p_status p = Clean \<longrightarrow> settled p"
    "remote_up rem"
  shows "\<exists>s1 s2 r' report.
      client_sync sto rem c (opts\<lparr>opt_full := True\<rparr>) \<lparr>cl_storage = s, cl_remote = r\<rparr>
        = Some (\<lparr>cl_storage = s1, cl_remote = r'\<rparr>, Returned (Inr report))
    \<and> client_sync sto rem c (opts\<lparr>opt_full := False\<rparr>) \<lparr>cl_storage = s, cl_remote = r\<rparr>
        = Some (\<lparr>cl_storage = s2, cl_remote = r'\<rparr>, Returned (Inr report))
    \<and> inv s2 \<and> rows s1 = rows s2 \<and> cursor s1 = cursor s2"
proof -
  obtain ld where ld: "st_load sto s c ScopeAll = Inr ld" "ld_checkpoint ld = cursor s c" using load_all[OF assms(1)] .
  obtain v where v: "merge_all (candidates (opened ld full)) (sync_new c opts) = Some v" using merge_all_total by blast
  then have v': "merge_all (candidates (opened ld delta)) (sync_new c opts) = Some v"
    using delta_candidates[OF assms(1) ld(1) assms(4,5,7)] assms(8)
      merge_all_filter[of "candidates (opened ld full)"] merge_all_filter[of "candidates (opened ld delta)"] by simp
  obtain r' t where t: "push_rounds rem r1 v = Some (r', t)" using push_rounds_total[OF assms(9), of r1 v] by auto
  have "rm_enumerate rem c (if True then None else ld_checkpoint ld) r = (r1, Inr full)"
    "rm_enumerate rem c (if False then None else ld_checkpoint ld) r = (r1, Inr delta)"
    using assms(2,3) ld(2) by simp_all
  note specs = sync_spec_full[OF this(1) v t] sync_spec_full[OF this(2) v' t, unfolded assms(6)]
  from sync_runs_spec[OF assms(1) ld(1) specs(1)] sync_runs_spec[OF assms(1) ld(1) specs(2)]
  show ?thesis by metis
qed

end

section \<open>Incremental against full\<close>

text \<open>
  C6: an incremental sync is a full sync. Take a delta that lists what changed and names what
  vanished, and the complete listing it stands for: every handle the delta neither lists nor
  names is listed as the local row last knew it (its base, at the revision a conflict
  observed), and a handle without a base is not listed. When the clean rows hold the flags
  of their base and no call of the remote fails, a sync that resumes from its cursor and a full one end with the same report,
  the same pushes received by the remote, the same rows and the same cursor, whatever was
  staged offline.
\<close>

theorem delta_sync_is_full_sync:
  assumes "mem_inv s"
    "rm_enumerate rem c None r = (r1, Inr full)" "rm_enumerate rem c (mem_cursor s c) r = (r1, Inr delta)"
    "rs_complete full" "\<not> rs_complete delta" "rs_checkpoint delta = rs_checkpoint full"
    "\<And>h. List.find (\<lambda>i. ri_handle i = h) (rs_items full) = delta_item (mem_rows s) c delta h"
    "\<And>h p. mem_rows s (c, h) = Some p \<Longrightarrow> p_status p = Clean \<Longrightarrow> settled p"
    "remote_up rem"
  shows "\<exists>s1 s2 r' report.
      client_sync mem_ops rem c (opts\<lparr>opt_full := True\<rparr>) \<lparr>cl_storage = s, cl_remote = r\<rparr>
        = Some (\<lparr>cl_storage = s1, cl_remote = r'\<rparr>, Returned (Inr report))
    \<and> client_sync mem_ops rem c (opts\<lparr>opt_full := False\<rparr>) \<lparr>cl_storage = s, cl_remote = r\<rparr>
        = Some (\<lparr>cl_storage = s2, cl_remote = r'\<rparr>, Returned (Inr report))
    \<and> mem_rows s1 = mem_rows s2 \<and> mem_cursor s1 = mem_cursor s2"
proof -
  have "\<forall>h p. mem_rows s (c, h) = Some p \<longrightarrow> p_status p = Clean \<longrightarrow> settled p" using assms(8) by blast
  from mem_cur.delta_sync[OF assms(1-7) this assms(9), of opts] show ?thesis by blast
qed

text \<open>A collection with an edited row, a clean one and one that vanished, and a remote with a new item.\<close>

definition sample_edited :: placement where
  "sample_edited = (sample_placement ''1'')\<lparr>p_status := Dirty, p_object := Some (Hash ''y'')\<rparr>"

definition delta_store :: mem_storage where
  "delta_store = mem_apply (SetCheckpoint (CollectionId ''inbox'') (Checkpoint [0]))
     (sample_store [sample_edited, sample_placement ''2'', sample_placement ''3''])"

definition delta_remote :: "(nat, unit) remote_ops" where
  "delta_remote = (sample_remote [])\<lparr>rm_enumerate := \<lambda>c ck r. (r, Inr (if ck = None
     then \<lparr>rs_items = [sample_item ''4'', sample_item ''1'', sample_item ''2''], rs_vanished = [], rs_complete = True,
           rs_checkpoint = Checkpoint [1]\<rparr>
     else \<lparr>rs_items = [sample_item ''4''], rs_vanished = [Handle ''3''], rs_complete = False,
           rs_checkpoint = Checkpoint [1]\<rparr>))\<rparr>"

lemma sample_store_rows: "mem_rows (sample_store ps) = fold apply_row (map UpsertPlacement ps) Map.empty"
  unfolding sample_store_def by (subst conjunct2[OF mem_fold_ok]) (simp_all add: mem_inv_def mem_rows_def)

lemma delta_store_rows:
  "mem_inv delta_store" "mem_cursor delta_store (CollectionId ''inbox'') = Some (Checkpoint [0])"
  "mem_rows delta_store = [(CollectionId ''inbox'', Handle ''1'') \<mapsto> sample_edited,
     (CollectionId ''inbox'', Handle ''2'') \<mapsto> sample_placement ''2'', (CollectionId ''inbox'', Handle ''3'') \<mapsto> sample_placement ''3'']"
proof -
  show "mem_inv delta_store" unfolding delta_store_def by (rule conjunct1[OF mem_apply_ok]) simp
  show "mem_cursor delta_store (CollectionId ''inbox'') = Some (Checkpoint [0])"
    by (simp add: delta_store_def mem_cursor_def)
  have keyed: "p_collection sample_edited = CollectionId ''inbox''" "p_handle sample_edited = Handle ''1''"
    "p_collection (sample_placement h) = CollectionId ''inbox''" "p_handle (sample_placement h) = Handle h" for h
    by (simp_all add: sample_edited_def sample_placement_def)
  have "mem_rows delta_store = mem_rows (sample_store [sample_edited, sample_placement ''2'', sample_placement ''3''])"
    by (simp add: delta_store_def mem_rows_def)
  then show "mem_rows delta_store = [(CollectionId ''inbox'', Handle ''1'') \<mapsto> sample_edited,
     (CollectionId ''inbox'', Handle ''2'') \<mapsto> sample_placement ''2'', (CollectionId ''inbox'', Handle ''3'') \<mapsto> sample_placement ''3'']"
    by (simp add: sample_store_rows keyed)
qed

theorem delta_sync_is_full_sync_witness:
  "\<exists>s1 s2 r' report.
      client_sync mem_ops delta_remote (CollectionId ''inbox'') (sync_options_default\<lparr>opt_full := True\<rparr>)
          \<lparr>cl_storage = delta_store, cl_remote = 0\<rparr>
        = Some (\<lparr>cl_storage = s1, cl_remote = r'\<rparr>, Returned (Inr report))
    \<and> client_sync mem_ops delta_remote (CollectionId ''inbox'') (sync_options_default\<lparr>opt_full := False\<rparr>)
          \<lparr>cl_storage = delta_store, cl_remote = 0\<rparr>
        = Some (\<lparr>cl_storage = s2, cl_remote = r'\<rparr>, Returned (Inr report))
    \<and> mem_rows s1 = mem_rows s2 \<and> mem_cursor s1 = mem_cursor s2"
proof -
  let ?c = "CollectionId ''inbox''" and ?m = "mem_rows delta_store"
  let ?full = "\<lparr>rs_items = [sample_item ''4'', sample_item ''1'', sample_item ''2''], rs_vanished = [], rs_complete = True,
      rs_checkpoint = Checkpoint [1]\<rparr>"
  let ?delta = "\<lparr>rs_items = [sample_item ''4''], rs_vanished = [Handle ''3''], rs_complete = False,
      rs_checkpoint = Checkpoint [1]\<rparr>"
  have known: "known_item (sample_placement h) = Some (sample_item h)" "known_item sample_edited = Some (sample_item ''1'')"
    and settled: "settled (sample_placement h)" for h
    by (simp_all add: known_item_def settled_def sample_edited_def sample_placement_def sample_base_def sample_item_def)
  have items: "List.find (\<lambda>i. ri_handle i = h) (rs_items ?full) = delta_item ?m ?c ?delta h" for h
    by (simp add: delta_item_def delta_store_rows(3) known) (auto simp: sample_item_def)
  have clean: "settled p" if "?m (?c, h) = Some p" "p_status p = Clean" for h p
    using that settled by (auto simp: delta_store_rows(3) sample_edited_def split: if_splits)
  have "rm_enumerate delta_remote ?c None 0 = (0, Inr ?full)"
    "rm_enumerate delta_remote ?c (mem_cursor delta_store ?c) 0 = (0, Inr ?delta)"
    "rs_complete ?full" "\<not> rs_complete ?delta" "rs_checkpoint ?delta = rs_checkpoint ?full"
    by (simp_all add: delta_remote_def delta_store_rows(2))
  moreover have "remote_up delta_remote" by (simp add: remote_up_def delta_remote_def sample_remote_def)
  ultimately show ?thesis
    using items clean by (intro delta_sync_is_full_sync[OF delta_store_rows(1), of _ _ _ 0 ?full ?delta]) blast+
qed

end
