(* ===== verification/Sync_Pull.thy ===== *)
theory Sync_Pull
  imports Sync_Delta
begin

text \<open>
  A replica with nothing staged. Whatever happened on the remote, one sync of a collection whose
  rows are clean brings it in step with the listing and pushes nothing.
\<close>

section \<open>A row in step with an item\<close>

definition holds :: "placement option \<Rightarrow> remote_item option \<Rightarrow> bool" where
  "holds l i \<longleftrightarrow>
     (case (l, i) of
        (None, None) \<Rightarrow> True
      | (Some p, Some item) \<Rightarrow>
          p_status p = Clean \<and> p_conflict_revision p = None \<and> p_flags p = ri_flags item
          \<and> (\<exists>b. p_base p = Some b \<and> b_flags b = ri_flags item \<and> b_revision b = ri_revision item)
      | _ \<Rightarrow> False)"

lemma holds_simps [simp]:
  "holds None i \<longleftrightarrow> i = None" "\<not> holds (Some p) None"
  "holds (Some p) (Some item) \<longleftrightarrow>
     p_status p = Clean \<and> p_conflict_revision p = None \<and> p_flags p = ri_flags item
     \<and> (\<exists>b. p_base p = Some b \<and> b_flags b = ri_flags item \<and> b_revision b = ri_revision item)"
  by (auto simp: holds_def split: option.splits)

definition in_step :: "rows \<Rightarrow> collection_id \<Rightarrow> (handle \<Rightarrow> remote_item option) \<Rightarrow> bool" where
  "in_step m c listing \<longleftrightarrow> (\<forall>h. holds (m (c, h)) (listing h))"

text \<open>A row with nothing staged and an item that can be pulled over it.\<close>

definition pullable :: "placement option \<Rightarrow> remote_item option \<Rightarrow> bool" where
  "pullable l i \<longleftrightarrow>
     (\<forall>p. l = Some p \<longrightarrow> p_status p = Clean \<and> settled p)
     \<and> (\<forall>item. i = Some item \<longrightarrow> ri_flags item \<noteq> Unknown)
     \<and> (\<forall>p b item. l = Some p \<longrightarrow> p_base p = Some b \<longrightarrow> i = Some item \<longrightarrow> ri_revision item = None \<longrightarrow> b_revision b = None)"

text \<open>What pulling records: writes of the one handle, nothing to push.\<close>

definition pulls :: "sync \<Rightarrow> handle \<Rightarrow> placement option \<Rightarrow> remote_item option \<Rightarrow> sync \<Rightarrow> bool" where
  "pulls s h l i s' \<longleftrightarrow>
     (\<exists>ws rp. s' = s\<lparr>sy_writes := sy_writes s @ ws, sy_report := rp\<rparr>
        \<and> (\<forall>m. m (sy_collection s, h) = l \<longrightarrow> (\<exists>q. holds q i \<and> fold apply_row ws m = m((sy_collection s, h) := q)))
        \<and> (\<forall>op \<in> set ws. \<not> is_checkpoint op))"

lemma pulls_write:
  assumes "holds (Some q) i" "p_collection q = sy_collection s" "p_handle q = h"
  shows "pulls s h l i (s\<lparr>sy_writes := sy_writes s @ [UpsertPlacement q], sy_report := rp\<rparr>)"
  using assms unfolding pulls_def by (intro exI[of _ "[UpsertPlacement q]"] exI[of _ rp]) (auto intro!: exI[of _ "Some q"])

lemma pulls_rewrite:
  assumes "holds (Some q) i" "p_collection q = sy_collection s" "p_handle q = h"
    and "p_collection u = sy_collection s" "p_handle u = h"
  shows "pulls s h l i (s\<lparr>sy_writes := sy_writes s @ [UpsertPlacement u, UpsertPlacement q], sy_report := rp\<rparr>)"
  using assms unfolding pulls_def
  by (intro exI[of _ "[UpsertPlacement u, UpsertPlacement q]"] exI[of _ rp]) (auto intro!: exI[of _ "Some q"])

lemma pulls_drop: "pulls s h l None (s\<lparr>sy_writes := sy_writes s @ [DropPlacement (sy_collection s) h reason], sy_report := rp\<rparr>)"
  unfolding pulls_def
  by (intro exI[of _ "[DropPlacement (sy_collection s) h reason]"] exI[of _ rp]) (auto intro!: exI[of _ None])

lemma pulls_idle: "holds l i \<Longrightarrow> pulls s h l i s"
  unfolding pulls_def by (intro exI[of _ "[]"] exI[of _ "sy_report s"]) (auto intro!: exI[of _ l])

lemma merge_candidate_pulls:
  assumes "pullable l i" "\<And>p. l = Some p \<Longrightarrow> p_collection p = sy_collection s \<and> p_handle p = h"
    "\<And>item. i = Some item \<Longrightarrow> ri_handle item = h"
  shows "\<exists>s'. merge_candidate \<lparr>ca_handle = h, ca_local = l, ca_remote = i\<rparr> s = Some s' \<and> pulls s h l i s'"
proof (cases l; cases i)
  fix item assume "l = None" "i = Some item"
  then show ?thesis using assms(3)
    by (auto simp: merge_candidate_def merge_table recording pull_add_def pulled_placement_def
        intro!: pulls_write)
next
  fix p assume l: "l = Some p" "i = None"
  then have "\<not> vanished_edit p" "p_status p \<noteq> Tombstone" "p_base p \<noteq> None"
    using assms(1) by (auto simp: pullable_def vanished_edit_def settled_def)
  with l show ?thesis
    by (auto simp: merge_candidate_def merge_table merge_vanished_def recording intro!: pulls_drop)
next
  fix p item assume l: "l = Some p" "i = Some item"
  obtain b where p: "p_status p = Clean" "p_conflict_revision p = None" "p_base p = Some b" "p_flags p = b_flags b"
    "ri_flags item \<noteq> Unknown" "ri_revision item = None \<longrightarrow> b_revision b = None"
    using assms(1) l by (auto simp: pullable_def settled_def)
  have key: "p_collection p = sy_collection s" "p_handle p = h" using assms(2) l by auto
  let ?u = "refreshed_placement p item"
  show ?thesis
  proof (cases "ri_revision item = None \<or> ri_revision item = b_revision b"; cases "b_flags b = ri_flags item")
    assume "ri_revision item = None \<or> ri_revision item = b_revision b" "b_flags b = ri_flags item"
    then show ?thesis using l p pulls_idle[of l i s h]
      by (auto simp: merge_candidate_def merge_table merge_present_def reconcile_content_def reconcile_flags_def Let_def)
  next
    assume "ri_revision item = None \<or> ri_revision item = b_revision b" "b_flags b \<noteq> ri_flags item"
    then show ?thesis using l p key
      by (auto simp: merge_candidate_def merge_table merge_present_def reconcile_content_def reconcile_flags_def Let_def
          recording pull_flags_def pulled_flags_placement_def settled_status_def flags_base_def intro!: pulls_write)
  next
    assume "\<not> (ri_revision item = None \<or> ri_revision item = b_revision b)" "b_flags b = ri_flags item"
    then show ?thesis using l p key
      by (auto simp: merge_candidate_def merge_table merge_present_def reconcile_content_def reconcile_flags_def Let_def
          recording pull_content_def refreshed_placement_def intro!: pulls_write)
  next
    assume "\<not> (ri_revision item = None \<or> ri_revision item = b_revision b)" "b_flags b \<noteq> ri_flags item"
    then have "merge_candidate \<lparr>ca_handle = h, ca_local = l, ca_remote = i\<rparr> s
      = Some (pull_flags ?u (ri_flags item) (fst (pull_content p item s))
          \<lparr>sy_report := sy_report (emit (FlagsChanged h) (count_pulled (fst (pull_content p item s))))\<rparr>)"
      using l p key
      by (simp add: merge_candidate_def merge_table merge_present_def reconcile_content_def reconcile_flags_def Let_def
          recording pull_content_def refreshed_placement_def pull_flags_def)
    moreover have "pulls s h l i (s\<lparr>sy_writes := sy_writes s @ [UpsertPlacement ?u, UpsertPlacement (pulled_flags_placement ?u (ri_flags item))],
        sy_report := rp\<rparr>)" for rp
      using p key l
      by (intro pulls_rewrite)
        (simp_all add: pulled_flags_placement_def refreshed_placement_def settled_status_def flags_base_def)
    ultimately show ?thesis by (simp add: pull_flags_def pull_content_def recording Let_def)
  qed
qed (auto simp: merge_candidate_def merge_table intro!: pulls_idle)

section \<open>A whole sync of a collection with nothing staged\<close>

lemma find_SomeD: "List.find P xs = Some x \<Longrightarrow> P x \<and> x \<in> set xs"
  by (auto simp: find_Some_iff)

definition pulls_all :: "sync \<Rightarrow> candidate list \<Rightarrow> sync \<Rightarrow> bool" where
  "pulls_all s cs s' \<longleftrightarrow>
     (\<exists>ws rp. s' = s\<lparr>sy_writes := sy_writes s @ ws, sy_report := rp\<rparr> \<and> (\<forall>op \<in> set ws. \<not> is_checkpoint op)
        \<and> (\<forall>m. (\<forall>c \<in> set cs. m (sy_collection s, ca_handle c) = ca_local c) \<longrightarrow>
             (\<forall>c \<in> set cs. holds (fold apply_row ws m (sy_collection s, ca_handle c)) (ca_remote c))
             \<and> (\<forall>k. k \<notin> Pair (sy_collection s) ` ca_handle ` set cs \<longrightarrow> fold apply_row ws m k = m k)))"

lemma pulls_all_Cons:
  assumes "pulls s (ca_handle c) (ca_local c) (ca_remote c) s1" "pulls_all s1 cs s2" "ca_handle c \<notin> ca_handle ` set cs"
  shows "pulls_all s (c # cs) s2"
proof -
  let ?k = "\<lambda>c. (sy_collection s, ca_handle c)"
  obtain ws rp where s1: "s1 = s\<lparr>sy_writes := sy_writes s @ ws, sy_report := rp\<rparr>" "\<forall>op \<in> set ws. \<not> is_checkpoint op"
    "\<And>m. m (?k c) = ca_local c \<Longrightarrow> \<exists>q. holds q (ca_remote c) \<and> fold apply_row ws m = m(?k c := q)"
    using assms(1) unfolding pulls_def by blast
  then have coll: "sy_collection s1 = sy_collection s" by simp
  obtain ws' rp' where s2: "s2 = s1\<lparr>sy_writes := sy_writes s1 @ ws', sy_report := rp'\<rparr>" "\<forall>op \<in> set ws'. \<not> is_checkpoint op"
    "\<And>m. (\<forall>c \<in> set cs. m (?k c) = ca_local c) \<Longrightarrow> (\<forall>c \<in> set cs. holds (fold apply_row ws' m (?k c)) (ca_remote c))
             \<and> (\<forall>k. k \<notin> Pair (sy_collection s) ` ca_handle ` set cs \<longrightarrow> fold apply_row ws' m k = m k)"
    using assms(2) unfolding pulls_all_def coll by blast
  have "(\<forall>c' \<in> set (c # cs). holds (fold apply_row (ws @ ws') m (?k c')) (ca_remote c'))
      \<and> (\<forall>k. k \<notin> Pair (sy_collection s) ` ca_handle ` set (c # cs) \<longrightarrow> fold apply_row (ws @ ws') m k = m k)"
    if m: "\<forall>c' \<in> set (c # cs). m (?k c') = ca_local c'" for m
  proof -
    obtain q m1 where q: "holds q (ca_remote c)" "fold apply_row ws m = m1" "m1 (?k c) = q" "\<And>k. k \<noteq> ?k c \<Longrightarrow> m1 k = m k"
      using s1(3)[of m] m by force
    have "\<forall>c' \<in> set cs. m1 (?k c') = ca_local c'" using m assms(3) q(4) by (auto simp: image_iff)
    note rest = s2(3)[OF this]
    have "?k c \<notin> Pair (sy_collection s) ` ca_handle ` set cs" using assms(3) by auto
    then have "fold apply_row ws' m1 (?k c) = q" using rest q(3) by blast
    with rest q show ?thesis by auto
  qed
  with s1(1,2) s2(1,2) show ?thesis
    unfolding pulls_all_def by (intro exI[of _ "ws @ ws'"] exI[of _ rp']) auto
qed

lemma merge_all_pulls:
  assumes "distinct (map ca_handle cs)" "\<forall>c \<in> set cs. pullable (ca_local c) (ca_remote c)"
    "\<forall>c \<in> set cs. \<forall>p. ca_local c = Some p \<longrightarrow> p_collection p = sy_collection s \<and> p_handle p = ca_handle c"
    "\<forall>c \<in> set cs. \<forall>i. ca_remote c = Some i \<longrightarrow> ri_handle i = ca_handle c"
  shows "\<exists>s'. merge_all cs s = Some s' \<and> pulls_all s cs s'"
  using assms
proof (induction cs arbitrary: s)
  case Nil
  then show ?case by (auto simp: pulls_all_def intro!: exI[of _ "[]"] exI[of _ "sy_report s"])
next
  case (Cons c cs)
  have "\<exists>s1. merge_candidate c s = Some s1 \<and> pulls s (ca_handle c) (ca_local c) (ca_remote c) s1"
    using merge_candidate_pulls[of "ca_local c" "ca_remote c" s "ca_handle c"] Cons.prems by (cases c) auto
  then obtain s1 where s1: "merge_candidate c s = Some s1" "pulls s (ca_handle c) (ca_local c) (ca_remote c) s1" by blast
  then have "sy_collection s1 = sy_collection s" by (auto simp: pulls_def)
  then obtain s2 where "merge_all cs s1 = Some s2" "pulls_all s1 cs s2" using Cons.IH[of s1] Cons.prems by auto
  with s1 pulls_all_Cons[OF s1(2)] Cons.prems(1) show ?case by auto
qed

context cursor_storage
begin

lemma clean_sync:
  assumes "inv s" "rm_enumerate rem c (if opt_full opts then None else cursor s c) r = (r1, Inr sn)" "rs_complete sn"
    "\<And>h. pullable (rows s (c, h)) (List.find (\<lambda>i. ri_handle i = h) (rs_items sn))"
  shows "\<exists>s' report. client_sync sto rem c opts \<lparr>cl_storage = s, cl_remote = r\<rparr>
        = Some (\<lparr>cl_storage = s', cl_remote = r1\<rparr>, Returned (Inr report))
    \<and> inv s' \<and> in_step (rows s') c (\<lambda>h. List.find (\<lambda>i. ri_handle i = h) (rs_items sn))
    \<and> (\<forall>c' h. c' \<noteq> c \<longrightarrow> rows s' (c', h) = rows s (c', h)) \<and> cursor s' = (cursor s)(c \<mapsto> rs_checkpoint sn)"
proof -
  obtain ld where ld: "st_load sto s c ScopeAll = Inr ld" "ld_checkpoint ld = cursor s c" using load_all[OF assms(1)] .
  note cands = candidates_complete[OF assms(1) ld(1) assms(3)]
  let ?cs = "candidates (opened ld sn)" and ?find = "\<lambda>h. List.find (\<lambda>i. ri_handle i = h) (rs_items sn)"
  have sides: "ca_local cand = rows s (c, ca_handle cand)" "ca_remote cand = ?find (ca_handle cand)" if "cand \<in> set ?cs" for cand
  proof -
    have "cand = paired (rows s) c (rs_items sn) (ca_handle cand)" using cands(1) that by blast
    then have "ca_local cand = ca_local (paired (rows s) c (rs_items sn) (ca_handle cand))"
      "ca_remote cand = ca_remote (paired (rows s) c (rs_items sn) (ca_handle cand))" by simp_all
    then show "ca_local cand = rows s (c, ca_handle cand)" "ca_remote cand = ?find (ca_handle cand)"
      by (simp_all add: paired_def)
  qed
  obtain v where v: "merge_all ?cs (sync_new c opts) = Some v" "pulls_all (sync_new c opts) ?cs v"
  proof -
    have "\<forall>cand \<in> set ?cs. pullable (ca_local cand) (ca_remote cand)" using sides assms(4) by simp
    moreover have "\<forall>cand \<in> set ?cs. \<forall>p. ca_local cand = Some p \<longrightarrow>
        p_collection p = sy_collection (sync_new c opts) \<and> p_handle p = ca_handle cand"
      using sides(1) keyed[OF assms(1)] by (simp add: sync_new_def)
    moreover have "\<forall>cand \<in> set ?cs. \<forall>i. ca_remote cand = Some i \<longrightarrow> ri_handle i = ca_handle cand"
      using sides(2) find_SomeD by fastforce
    ultimately show ?thesis using merge_all_pulls[OF cands(2)] that by blast
  qed
  then obtain ws rp where ws: "v = (sync_new c opts)\<lparr>sy_writes := ws, sy_report := rp\<rparr>" "\<forall>op \<in> set ws. \<not> is_checkpoint op"
    "\<forall>cand \<in> set ?cs. holds (fold apply_row ws (rows s) (c, ca_handle cand)) (ca_remote cand)"
    "\<forall>k. k \<notin> Pair c ` ca_handle ` set ?cs \<longrightarrow> fold apply_row ws (rows s) k = rows s k"
    using sides by (auto simp: pulls_all_def sync_new_def)
  have "holds (fold apply_row ws (rows s) (c, h)) (?find h)" for h
  proof (cases "h \<in> ca_handle ` set ?cs")
    case True
    with ws(3) sides show ?thesis by fastforce
  next
    case False
    then have "rows s (c, h) = None" "?find h = None" unfolding cands(3) by (auto intro: find_remote_None)
    with ws(4) False show ?thesis by (auto simp: image_iff)
  qed
  moreover have "push_rounds rem r1 v = Some (r1, v)" using ws(1) by (simp add: push_rounds_quiet sync_new_def)
  then have "sync_spec rem c opts ld r = Some (r1, ws @ [SetCheckpoint c (rs_checkpoint sn)], rp)"
    using v(1) assms(2)[folded ld(2)] ws(1) by (simp add: sync_spec_def sync_new_def)
  note sync_runs_spec[OF assms(1) ld(1) this]
  moreover have "fold apply_row ws (rows s) (c', h) = rows s (c', h)" if "c' \<noteq> c" for c' h using ws(4) that by auto
  ultimately show ?thesis using ws(2) by (auto simp: in_step_def fold_cursor_none)
qed

end

section \<open>Over the in-memory storage\<close>

text \<open>
  C7: a replica with nothing staged converges. When the rows of a collection are clean and hold
  the flags of their base, then whatever has happened on the remote, one sync against its
  complete listing leaves exactly the listed handles, each clean at the listed flags and
  revision, pushes nothing, touches no other collection and stores the cursor of the listing.
  The two provisos on the listing are that its flags are known and that a server that reports no
  revision reported none before.
\<close>

theorem clean_replica_converges:
  assumes "mem_inv s" "rm_enumerate rem c (if opt_full opts then None else mem_cursor s c) r = (r1, Inr sn)" "rs_complete sn"
    "\<And>h. pullable (mem_rows s (c, h)) (List.find (\<lambda>i. ri_handle i = h) (rs_items sn))"
  shows "\<exists>s' report. client_sync mem_ops rem c opts \<lparr>cl_storage = s, cl_remote = r\<rparr>
        = Some (\<lparr>cl_storage = s', cl_remote = r1\<rparr>, Returned (Inr report))
    \<and> in_step (mem_rows s') c (\<lambda>h. List.find (\<lambda>i. ri_handle i = h) (rs_items sn))
    \<and> (\<forall>c' h. c' \<noteq> c \<longrightarrow> mem_rows s' (c', h) = mem_rows s (c', h)) \<and> mem_cursor s' = (mem_cursor s)(c \<mapsto> rs_checkpoint sn)"
  using mem_cur.clean_sync[OF assms] by blast

text \<open>A row whose body changed upstream, one that vanished, and a new item.\<close>

theorem clean_replica_converges_witness:
  "\<exists>s' report. client_sync mem_ops (sample_remote [(sample_item ''1'')\<lparr>ri_revision := Some ''9''\<rparr>, sample_item ''3''])
        (CollectionId ''inbox'') sync_options_default
        \<lparr>cl_storage = sample_store [sample_placement ''1'', sample_placement ''2''], cl_remote = 0\<rparr>
      = Some (\<lparr>cl_storage = s', cl_remote = 0\<rparr>, Returned (Inr report))
    \<and> in_step (mem_rows s') (CollectionId ''inbox'')
        (\<lambda>h. List.find (\<lambda>i. ri_handle i = h) [(sample_item ''1'')\<lparr>ri_revision := Some ''9''\<rparr>, sample_item ''3''])"
proof -
  let ?is = "[(sample_item ''1'')\<lparr>ri_revision := Some ''9''\<rparr>, sample_item ''3'']" and ?c = "CollectionId ''inbox''"
  let ?s = "sample_store [sample_placement ''1'', sample_placement ''2'']"
  let ?sn = "\<lparr>rs_items = ?is, rs_vanished = [], rs_complete = True, rs_checkpoint = Checkpoint [1]\<rparr>"
  have rows: "mem_rows ?s = [(?c, Handle ''1'') \<mapsto> sample_placement ''1'', (?c, Handle ''2'') \<mapsto> sample_placement ''2'']"
    by (simp add: sample_store_rows sample_placement_def)
  have "pullable (mem_rows ?s (?c, h)) (List.find (\<lambda>i. ri_handle i = h) (rs_items ?sn))" for h
    unfolding rows by (auto simp: pullable_def settled_def sample_placement_def sample_base_def sample_item_def flags_default_def)
  moreover have "rm_enumerate (sample_remote ?is) ?c (if opt_full sync_options_default then None else mem_cursor ?s ?c) 0 = (0, Inr ?sn)"
    by (simp add: sample_remote_def)
  moreover have "rs_complete ?sn" by simp
  ultimately show ?thesis
    using clean_replica_converges[of ?s "sample_remote ?is" ?c sync_options_default 0 0 ?sn] sample_store_inv by simp blast
qed

end
