(* ===== verification/Mem_Remote.thy ===== *)
theory Mem_Remote
  imports Sync_Pull
begin

text \<open>
  The in-memory remote of the integration tests (\<open>tests/common/mod.rs\<close>, \<open>MemRemote\<close>): a server
  with content revisions, optimistic concurrency and delta snapshots from a numeric cursor. It
  discharges what the theorems about runs assume of a remote: it never fails, and the delta it
  answers is the change of its own listing since the cursor.
\<close>

section \<open>Decimal numbers\<close>

text \<open>\<open>usize::to_string\<close> and \<open>str::parse::<usize>\<close> on a 64-bit target.\<close>

definition dec_digit :: "nat \<Rightarrow> char" where
  "dec_digit n = ''0123456789'' ! (n mod 10)"

fun dec_digits :: "nat \<Rightarrow> string" where
  "dec_digits n = (if n < 10 then [dec_digit n] else dec_digits (n div 10) @ [dec_digit n])"

declare dec_digits.simps [simp del]

definition is_digit :: "u8 \<Rightarrow> bool" where
  "is_digit b \<longleftrightarrow> 48 \<le> b \<and> b \<le> 57"

definition dec_val :: "u8 list \<Rightarrow> nat" where
  "dec_val bs = foldl (\<lambda>n b. 10 * n + (unat b - 48)) 0 bs"

definition parse_usize :: "u8 list \<Rightarrow> nat option" where
  "parse_usize bs =
     (let ds = (if bs \<noteq> [] \<and> tl bs \<noteq> [] \<and> hd bs = 43 then tl bs else bs)
      in if ds \<noteq> [] \<and> list_all is_digit ds \<and> dec_val ds < 2 ^ 64 then Some (dec_val ds) else None)"

lemma dec_digits_ok:
  "dec_digits n \<noteq> [] \<and> list_all is_digit (as_bytes (dec_digits n)) \<and> dec_val (as_bytes (dec_digits n)) = n"
proof (induction n rule: dec_digits.induct)
  case (1 n)
  have digit: "is_digit (of_char (dec_digit d)) \<and> unat (of_char (dec_digit d) :: u8) = 48 + d mod 10" for d
  proof -
    have "d mod 10 \<in> {0, 1, 2, 3, 4, 5, 6, 7, 8, 9}"
      unfolding insert_iff empty_iff by presburger
    then show ?thesis by (auto simp: dec_digit_def is_digit_def word_le_nat_alt)
  qed
  show ?case
    using 1 digit[of n] by (cases "n < 10") (simp_all add: dec_digits.simps[of n] as_bytes_def dec_val_def)
qed

lemma dec_digits_no_plus: "hd (as_bytes (dec_digits n)) \<noteq> 43"
  using dec_digits_ok[of n] by (cases "as_bytes (dec_digits n)") (auto simp: as_bytes_def is_digit_def word_le_nat_alt)

lemma parse_dec: "n < 2 ^ 64 \<Longrightarrow> parse_usize (as_bytes (dec_digits n)) = Some n"
  using dec_digits_ok[of n] dec_digits_no_plus[of n] by (simp add: parse_usize_def as_bytes_def Let_def)

section \<open>The server\<close>

record server_item =
  si_link :: link_id
  si_flags :: flags
  si_body :: "u8 list"
  si_seq :: nat
  si_rev :: nat

record mem_remote =
  mr_items :: "(collection_id, (handle, server_item) btree_map) btree_map"
  mr_full_fetches :: "handle list"
  mr_calls :: nat
  mr_next_appended :: nat
  mr_push_batches :: "nat list"
  mr_mutable :: bool
  mr_refused_appends :: "link_id fset"
  mr_seq :: nat
  mr_vanished :: "(collection_id, (nat \<times> handle) list) btree_map"

definition mem_remote_default :: mem_remote where
  "mem_remote_default =
     \<lparr>mr_items = [], mr_full_fetches = [], mr_calls = 0, mr_next_appended = 0, mr_push_batches = [],
      mr_mutable = False, mr_refused_appends = {||}, mr_seq = 0, mr_vanished = []\<rparr>"

text \<open>What a lookup of a collection yields, nothing when it does not exist.\<close>

definition mr_members :: "mem_remote \<Rightarrow> collection_id \<Rightarrow> (handle, server_item) btree_map" where
  "mr_members r c = (case map_of (mr_items r) c of Some m \<Rightarrow> m | None \<Rightarrow> [])"

definition mr_gone :: "mem_remote \<Rightarrow> collection_id \<Rightarrow> (nat \<times> handle) list" where
  "mr_gone r c = (case map_of (mr_vanished r) c of Some vs \<Rightarrow> vs | None \<Rightarrow> [])"

abbreviation mr_get :: "mem_remote \<Rightarrow> collection_id \<Rightarrow> handle \<Rightarrow> server_item option" where
  "mr_get r c h \<equiv> map_of (mr_members r c) h"

definition mr_put :: "collection_id \<Rightarrow> handle \<Rightarrow> server_item \<Rightarrow> mem_remote \<Rightarrow> mem_remote" where
  "mr_put c h i r = r\<lparr>mr_items := bt_insert c (bt_insert h i (mr_members r c)) (mr_items r)\<rparr>"

text \<open>A removal, stamped.\<close>

definition mr_drop :: "collection_id \<Rightarrow> handle \<Rightarrow> nat \<Rightarrow> mem_remote \<Rightarrow> mem_remote" where
  "mr_drop c h n r =
     r\<lparr>mr_items := bt_insert c (bt_remove h (mr_members r c)) (mr_items r),
       mr_vanished := bt_insert c (mr_gone r c @ [(n, h)]) (mr_vanished r)\<rparr>"

definition mr_bump :: "mem_remote \<Rightarrow> mem_remote" where
  "mr_bump r = r\<lparr>mr_seq := mr_seq r + 1\<rparr>"

definition mr_revision :: "mem_remote \<Rightarrow> nat \<Rightarrow> string option" where
  "mr_revision r k = (if mr_mutable r then Some (dec_digits k) else None)"

section \<open>What happens on the server\<close>

definition mr_seed :: "string \<Rightarrow> string \<Rightarrow> string \<Rightarrow> string list \<Rightarrow> u8 list \<Rightarrow> mem_remote \<Rightarrow> mem_remote" where
  "mr_seed coll h link fl body r =
     (let r = mr_bump r;
          n = (case mr_get r (CollectionId coll) (Handle h) of Some i \<Rightarrow> si_rev i + 1 | None \<Rightarrow> 0)
      in mr_put (CollectionId coll) (Handle h)
           \<lparr>si_link = LinkId link, si_flags = flags_from_iter fl, si_body = body, si_seq = mr_seq r, si_rev = n\<rparr> r)"

definition mr_set_flags :: "string \<Rightarrow> string \<Rightarrow> string list \<Rightarrow> mem_remote \<Rightarrow> mem_remote option" where
  "mr_set_flags coll h fl r =
     (let r = mr_bump r in
      do {
        item \<leftarrow> mr_get r (CollectionId coll) (Handle h);
        Some (mr_put (CollectionId coll) (Handle h) (item\<lparr>si_flags := flags_from_iter fl, si_seq := mr_seq r\<rparr>) r)
      })"

definition mr_edit :: "string \<Rightarrow> string \<Rightarrow> u8 list \<Rightarrow> mem_remote \<Rightarrow> mem_remote option" where
  "mr_edit coll h body r =
     (let r = mr_bump r in
      do {
        item \<leftarrow> mr_get r (CollectionId coll) (Handle h);
        Some (mr_put (CollectionId coll) (Handle h)
               (item\<lparr>si_body := body, si_seq := mr_seq r, si_rev := si_rev item + 1\<rparr>) r)
      })"

definition mr_remove :: "string \<Rightarrow> string \<Rightarrow> mem_remote \<Rightarrow> mem_remote option" where
  "mr_remove coll h r =
     (let r = mr_bump r in
      do {
        item \<leftarrow> mr_get r (CollectionId coll) (Handle h);
        Some (mr_drop (CollectionId coll) (Handle h) (mr_seq r) r)
      })"

text \<open>A handle-space change: every member moves onto a fresh handle, in order.\<close>

definition renumbered :: "nat \<Rightarrow> nat \<Rightarrow> handle" where
  "renumbered generation k = Handle (''v'' @ dec_digits generation @ ''-'' @ dec_digits k)"

definition mr_renumber ::
  "string \<Rightarrow> nat \<Rightarrow> mem_remote \<Rightarrow> mem_remote \<times> (handle, handle) btree_map" where
  "mr_renumber coll generation r =
     (let r = mr_bump r;
          old = mr_members r (CollectionId coll);
          (members, mapping) =
            fold (\<lambda>(k, h, i) (members, mapping).
                (bt_insert (renumbered generation k) (i\<lparr>si_seq := mr_seq r\<rparr>) members,
                 bt_insert h (renumbered generation k) mapping))
              (enumerate 0 old) ([], [])
      in (r\<lparr>mr_items := bt_insert (CollectionId coll) members (mr_items r)\<rparr>, mapping))"

definition mr_link_holder :: "mem_remote \<Rightarrow> collection_id \<Rightarrow> link_id option \<Rightarrow> handle option \<Rightarrow> handle option" where
  "mr_link_holder r c link except =
     do {
       link \<leftarrow> link;
       members \<leftarrow> map_of (mr_items r) c;
       map_option fst (List.find (\<lambda>(h, i). si_link i = link \<and> Some h \<noteq> except) members)
     }"

definition mr_holds_link :: "mem_remote \<Rightarrow> collection_id \<Rightarrow> link_id option \<Rightarrow> handle option \<Rightarrow> bool" where
  "mr_holds_link r c link except \<longleftrightarrow> mr_link_holder r c link except \<noteq> None"

definition mem_hash :: "u8 list \<Rightarrow> hash" where
  "mem_hash body = Hash (pad_left 16 (CHR ''0'') (hex_digits (unat (fold dg_byte body 1469598103934665603))))"

section \<open>The three calls\<close>

definition mr_item :: "mem_remote \<Rightarrow> handle \<Rightarrow> server_item \<Rightarrow> remote_item" where
  "mr_item r h i = \<lparr>ri_handle = h, ri_flags = si_flags i, ri_revision = mr_revision r (si_rev i)\<rparr>"

definition mr_called :: "mem_remote \<Rightarrow> mem_remote" where
  "mr_called r = r\<lparr>mr_calls := mr_calls r + 1\<rparr>"

text \<open>A cursor that is no number is no cursor; bytes that are no UTF-8 are no number either.\<close>

definition mr_enumerate ::
  "collection_id \<Rightarrow> checkpoint option \<Rightarrow> mem_remote \<Rightarrow> mem_remote \<times> (unit + remote_snapshot)" where
  "mr_enumerate c cursor r =
     (let r = mr_called r;
          members = mr_members r c;
          since = Option.bind cursor (\<lambda>ck. parse_usize (checkpoint_bytes ck))
      in (r, Inr
        (case since of
           Some n \<Rightarrow>
             \<lparr>rs_items = map (\<lambda>(h, i). mr_item r h i) (filter (\<lambda>(h, i). n < si_seq i) members),
              rs_vanished = map snd (filter (\<lambda>(k, h). n < k \<and> map_of members h = None) (mr_gone r c)),
              rs_complete = False, rs_checkpoint = Checkpoint (as_bytes (dec_digits (mr_seq r)))\<rparr>
         | None \<Rightarrow>
             \<lparr>rs_items = map (\<lambda>(h, i). mr_item r h i) members, rs_vanished = [], rs_complete = True,
              rs_checkpoint = Checkpoint (as_bytes (dec_digits (mr_seq r)))\<rparr>)))"

definition mr_fetched :: "tier \<Rightarrow> mem_remote \<Rightarrow> handle \<Rightarrow> server_item \<Rightarrow> fetched_item" where
  "mr_fetched tier r h item =
     \<lparr>fi_handle = h, fi_link_id = si_link item, fi_meta = Meta (''headers:'' @ handle_str h), fi_sort_key = sort_key_default,
      fi_body = (case tier of TierMeta \<Rightarrow> None | TierFull \<Rightarrow> Some (Inline (mem_hash (si_body item)) (si_body item))),
      fi_revision = mr_revision r (si_rev item)\<rparr>"

definition mr_fetch ::
  "collection_id \<Rightarrow> handle list \<Rightarrow> tier \<Rightarrow> mem_remote \<Rightarrow> mem_remote \<times> (unit + fetched_item list)" where
  "mr_fetch c hs tier r =
     (let r = mr_called r;
          found = filter (\<lambda>h. mr_get r c h \<noteq> None) hs
      in (r\<lparr>mr_full_fetches := mr_full_fetches r @ (case tier of TierMeta \<Rightarrow> [] | TierFull \<Rightarrow> found)\<rparr>,
          Inr (List.map_filter (\<lambda>h. map_option (mr_fetched tier r h) (mr_get r c h)) hs)))"

definition accepted :: "handle \<Rightarrow> handle option \<Rightarrow> string option \<Rightarrow> push_result" where
  "accepted h assigned revision =
     \<lparr>pr_handle = h, pr_outcome = Accepted, pr_assigned = assigned, pr_revision = revision\<rparr>"

definition rejected :: "handle \<Rightarrow> push_result" where
  "rejected h = \<lparr>pr_handle = h, pr_outcome = Rejected, pr_assigned = None, pr_revision = None\<rparr>"

text \<open>The precondition of a guarded change fails on a server that keeps revisions.\<close>

definition mr_stale :: "mem_remote \<Rightarrow> string option \<Rightarrow> server_item \<Rightarrow> bool" where
  "mr_stale r if_match item \<longleftrightarrow> mr_mutable r \<and> if_match \<noteq> Some (dec_digits (si_rev item))"

definition mr_push_flags :: "collection_id \<Rightarrow> handle \<Rightarrow> flags \<Rightarrow> mem_remote \<Rightarrow> mem_remote \<times> push_result" where
  "mr_push_flags c h fl r =
     (let r = mr_bump r;
          r = (case mr_get r c h of
                 Some item \<Rightarrow> mr_put c h (item\<lparr>si_flags := fl, si_seq := mr_seq r\<rparr>) r
               | None \<Rightarrow> r)
      in (r, accepted h None None))"

definition mr_push_remove ::
  "collection_id \<Rightarrow> handle \<Rightarrow> collection_id option \<Rightarrow> link_id option \<Rightarrow> string option \<Rightarrow> mem_remote
     \<Rightarrow> mem_remote \<times> push_result" where
  "mr_push_remove c h to link if_match r =
     (let to = Option.bind to (\<lambda>target. if mr_holds_link r target link (Some h) then None else Some target);
          stale = (case mr_get r c h of Some item \<Rightarrow> mr_stale r if_match item | None \<Rightarrow> False)
      in if stale then (r, rejected h)
         else (let r = mr_bump r;
                   r = (case mr_get r c h of
                          Some item \<Rightarrow>
                            (let r = mr_drop c h (mr_seq r) r
                             in case to of
                                  Some target \<Rightarrow>
                                    mr_put target (Handle (handle_str h @ ''-moved'')) (item\<lparr>si_seq := mr_seq r\<rparr>) r
                                | None \<Rightarrow> r)
                        | None \<Rightarrow> r)
               in (r, accepted h None None)))"

definition mr_push_update ::
  "collection_id \<Rightarrow> handle \<Rightarrow> hash \<Rightarrow> string option \<Rightarrow> mem_remote \<Rightarrow> mem_remote \<times> push_result" where
  "mr_push_update c h obj if_match r =
     (case mr_get r c h of
        None \<Rightarrow> (r, rejected h)
      | Some item \<Rightarrow>
          if mr_stale r if_match item then (r, rejected h)
          else (let n = si_rev item + 1;
                    r = mr_bump r
                in (mr_put c h (item\<lparr>si_body := as_bytes (hash_str obj), si_rev := n, si_seq := mr_seq r\<rparr>) r,
                    accepted h None (mr_revision r n))))"

text \<open>An append takes a fresh handle, a copy the handle of its origin with a suffix.\<close>

definition mr_append ::
  "collection_id \<Rightarrow> link_id option \<Rightarrow> flags \<Rightarrow> hash \<Rightarrow> mem_remote \<Rightarrow> mem_remote \<times> handle" where
  "mr_append c link fl obj r =
     (let r = mr_bump r;
          r = r\<lparr>mr_next_appended := mr_next_appended r + 1\<rparr>;
          new = Handle (''app-'' @ dec_digits (mr_next_appended r));
          link = (case link of Some l \<Rightarrow> l | None \<Rightarrow> LinkId (handle_str new))
      in (mr_put c new \<lparr>si_link = link, si_flags = fl, si_body = as_bytes (hash_str obj), si_seq = mr_seq r, si_rev = 0\<rparr> r,
          new))"

definition mr_copy :: "collection_id \<Rightarrow> origin \<Rightarrow> server_item \<Rightarrow> mem_remote \<Rightarrow> mem_remote \<times> handle" where
  "mr_copy c o' item r =
     (let r = mr_bump r;
          new = Handle (handle_str (or_handle o') @ ''-copy'')
      in (mr_put c new (item\<lparr>si_seq := mr_seq r\<rparr>) r, new))"

definition mr_push_add ::
  "collection_id \<Rightarrow> handle \<Rightarrow> link_id option \<Rightarrow> flags \<Rightarrow> origin option \<Rightarrow> hash option \<Rightarrow> mem_remote
     \<Rightarrow> mem_remote \<times> push_result" where
  "mr_push_add c h link fl origin obj r =
     (let refused = (case link of Some l \<Rightarrow> l |\<in>| mr_refused_appends r | None \<Rightarrow> False);
          answer = (\<lambda>(r, new). (r, accepted h (Some new)
             (Option.bind (mr_get r c new) (\<lambda>i. mr_revision r (si_rev i)))))
      in if refused then (r, rejected h)
         else (case origin of
                 Some o' \<Rightarrow>
                   (case mr_get r (or_collection o') (or_handle o') of
                      None \<Rightarrow> (r, rejected h)
                    | Some item \<Rightarrow> answer (mr_copy c o' item r))
               | None \<Rightarrow>
                   (case obj of
                      None \<Rightarrow> (r, accepted h None None)
                    | Some obj \<Rightarrow> answer (mr_append c link fl obj r))))"

fun mr_push_one :: "collection_id \<Rightarrow> change_kind \<Rightarrow> mem_remote \<Rightarrow> mem_remote \<times> push_result" where
  "mr_push_one c (SetFlags h fl) r = mr_push_flags c h fl r"
| "mr_push_one c (Remove h to link if_match) r = mr_push_remove c h to link if_match r"
| "mr_push_one c (Update h obj if_match) r = mr_push_update c h obj if_match r"
| "mr_push_one c (Add h link fl origin obj) r = mr_push_add c h link fl origin obj r"

fun mr_push_all :: "collection_id \<Rightarrow> change list \<Rightarrow> mem_remote \<Rightarrow> mem_remote \<times> push_result list" where
  "mr_push_all c [] r = (r, [])"
| "mr_push_all c (ch # chs) r =
     (let (r, res) = mr_push_one c (ch_kind ch) r;
          (r, results) = mr_push_all c chs r
      in (r, res # results))"

definition mr_push ::
  "collection_id \<Rightarrow> change list \<Rightarrow> mem_remote \<Rightarrow> mem_remote \<times> (unit + push_result list)" where
  "mr_push c chs r =
     (let r = mr_called r;
          r = r\<lparr>mr_push_batches := mr_push_batches r @ [length chs]\<rparr>
      in apsnd Inr (mr_push_all c chs r))"

definition mem_server :: "(mem_remote, unit) remote_ops" where
  "mem_server = \<lparr>rm_enumerate = mr_enumerate, rm_fetch = mr_fetch, rm_push = mr_push\<rparr>"

lemma mem_server_up: "remote_up mem_server"
  by (simp add: remote_up_def mem_server_def mr_enumerate_def mr_push_def Let_def apsnd_def map_prod_def case_prod_unfold)

section \<open>The history of the server\<close>

lemma mr_put_fields [simp]:
  "mr_members (mr_put c h i r) c' = (if c' = c then bt_insert h i (mr_members r c) else mr_members r c')"
  "mr_gone (mr_put c h i r) = mr_gone r" "mr_seq (mr_put c h i r) = mr_seq r" "mr_mutable (mr_put c h i r) = mr_mutable r"
  by (simp_all add: mr_put_def mr_members_def mr_gone_def fun_eq_iff)

lemma mr_drop_fields [simp]:
  "mr_members (mr_drop c h n r) c' = (if c' = c then bt_remove h (mr_members r c) else mr_members r c')"
  "mr_gone (mr_drop c h n r) c' = (if c' = c then mr_gone r c @ [(n, h)] else mr_gone r c')"
  "mr_seq (mr_drop c h n r) = mr_seq r" "mr_mutable (mr_drop c h n r) = mr_mutable r"
  by (simp_all add: mr_drop_def mr_members_def mr_gone_def)

lemma mr_bump_fields [simp]:
  "mr_members (mr_bump r) = mr_members r" "mr_gone (mr_bump r) = mr_gone r" "mr_seq (mr_bump r) = Suc (mr_seq r)"
  "mr_mutable (mr_bump r) = mr_mutable r" "mr_next_appended (mr_bump r) = mr_next_appended r"
  by (simp_all add: mr_bump_def mr_members_def mr_gone_def fun_eq_iff)

lemma mr_counts [simp]:
  "mr_members (r\<lparr>mr_calls := n\<rparr>) = mr_members r" "mr_gone (r\<lparr>mr_calls := n\<rparr>) = mr_gone r"
  "mr_members (r\<lparr>mr_next_appended := n\<rparr>) = mr_members r" "mr_gone (r\<lparr>mr_next_appended := n\<rparr>) = mr_gone r"
  "mr_members (r\<lparr>mr_push_batches := ns\<rparr>) = mr_members r" "mr_gone (r\<lparr>mr_push_batches := ns\<rparr>) = mr_gone r"
  "mr_members (r\<lparr>mr_full_fetches := hs\<rparr>) = mr_members r" "mr_gone (r\<lparr>mr_full_fetches := hs\<rparr>) = mr_gone r"
  by (simp_all add: mr_members_def mr_gone_def fun_eq_iff)

text \<open>Members in order, none stamped past the counter, their flags known.\<close>

definition mr_inv :: "mem_remote \<Rightarrow> bool" where
  "mr_inv r \<longleftrightarrow> (\<forall>c. bt_wf (mr_members r c)) 
     \<and> (\<forall>c h i. mr_get r c h = Some i \<longrightarrow> si_seq i \<le> mr_seq r \<and> si_flags i \<noteq> Unknown)"

text \<open>
  What a state owes to an earlier one: whatever is not as it was bears a later stamp, a
  member on itself and a removal in the list of the vanished.
\<close>

definition stamped :: "mem_remote \<Rightarrow> mem_remote \<Rightarrow> collection_id \<Rightarrow> handle \<Rightarrow> bool" where
  "stamped r0 r c h \<longleftrightarrow>
     (\<exists>i. mr_get r c h = Some i \<and> mr_seq r0 < si_seq i)
     \<or> mr_get r c h = None \<and> (\<exists>n. mr_seq r0 < n \<and> (n, h) \<in> set (mr_gone r c))"

text \<open>Whatever was recorded as vanished since bears a later stamp too.\<close>

definition gone_since :: "mem_remote \<Rightarrow> mem_remote \<Rightarrow> bool" where
  "gone_since r0 r \<longleftrightarrow>
     (\<forall>c n h. (n, h) \<in> set (mr_gone r c) \<longrightarrow> (n, h) \<in> set (mr_gone r0 c) \<or> mr_seq r0 < n)"

lemma gone_since_trans: "gone_since r0 r1 \<Longrightarrow> gone_since r1 r2 \<Longrightarrow> mr_seq r0 \<le> mr_seq r1 \<Longrightarrow> gone_since r0 r2"
  unfolding gone_since_def by (meson le_less_trans)

lemma gone_since_put_bump [simp]:
  "gone_since r r" "gone_since r0 (mr_bump r) = gone_since r0 r" "gone_since r0 (mr_put c h i r) = gone_since r0 r"
  by (simp_all add: gone_since_def)

lemma gone_since_drop: "gone_since r0 r \<Longrightarrow> mr_seq r0 < n \<Longrightarrow> gone_since r0 (mr_drop c h n r)"
  by (auto simp: gone_since_def)

definition follows :: "mem_remote \<Rightarrow> mem_remote \<Rightarrow> bool" where
  "follows r0 r \<longleftrightarrow>
     mr_mutable r = mr_mutable r0 \<and> mr_seq r0 \<le> mr_seq r \<and> (\<forall>c. set (mr_gone r0 c) \<subseteq> set (mr_gone r c))
     \<and> gone_since r0 r \<and> (\<forall>c h. mr_get r c h = mr_get r0 c h \<or> stamped r0 r c h)"

lemma follows_refl [simp, intro]: "follows r r"
  by (simp add: follows_def)

lemma follows_trans:
  assumes "follows r0 r1" "follows r1 r2"
  shows "follows r0 r2"
proof -
  have le: "mr_seq r0 \<le> mr_seq r1" and gone: "set (mr_gone r1 c) \<subseteq> set (mr_gone r2 c)" for c
    using assms by (simp_all add: follows_def)
  have "mr_get r2 c h = mr_get r0 c h \<or> stamped r0 r2 c h" for c h
  proof (cases "mr_get r2 c h = mr_get r1 c h")
    case True
    have "mr_get r1 c h = mr_get r0 c h \<or> stamped r0 r1 c h" using assms(1) by (simp add: follows_def)
    with True gone[of c] show ?thesis by (auto simp: stamped_def)
  next
    case False
    with assms(2) have "stamped r1 r2 c h" by (auto simp: follows_def)
    with le show ?thesis by (auto simp: stamped_def intro: le_less_trans)
  qed
  moreover have "set (mr_gone r0 c) \<subseteq> set (mr_gone r2 c)" for c
    using assms unfolding follows_def by (meson order_trans)
  moreover have "gone_since r0 r2" using assms gone_since_trans by (auto simp: follows_def)
  ultimately show ?thesis using assms by (auto simp: follows_def)
qed

definition advances :: "mem_remote \<Rightarrow> mem_remote \<Rightarrow> bool" where
  "advances r0 r \<longleftrightarrow> (mr_inv r0 \<longrightarrow> mr_inv r) \<and> follows r0 r"

lemma advances_refl [simp, intro]: "advances r r"
  by (simp add: advances_def)

lemma advances_trans [trans]: "advances r0 r1 \<Longrightarrow> advances r1 r2 \<Longrightarrow> advances r0 r2"
  using follows_trans by (auto simp: advances_def)

lemma advances_bump: "advances r (mr_bump r)"
  by (auto simp: advances_def follows_def mr_inv_def stamped_def intro: le_SucI)

lemma advances_put:
  assumes "advances r0 r" "mr_seq r0 < si_seq i" "si_seq i \<le> mr_seq r" "mr_inv r0 \<Longrightarrow> si_flags i \<noteq> Unknown"
  shows "advances r0 (mr_put c h i r)"
proof -
  have "mr_inv r0 \<Longrightarrow> mr_inv r \<Longrightarrow> mr_inv (mr_put c h i r)" using assms(3,4) by (auto simp: mr_inv_def)
  moreover have "stamped r0 (mr_put c h i r) c' h' \<longleftrightarrow> c' = c \<and> h' = h \<or> stamped r0 r c' h'" for c' h'
    using assms(2) by (auto simp: stamped_def)
  ultimately show ?thesis using assms(1) by (auto simp: advances_def follows_def)
qed

lemma advances_drop:
  assumes "advances r0 r" "mr_seq r0 < n"
  shows "advances r0 (mr_drop c h n r)"
proof -
  have "mr_inv r \<Longrightarrow> mr_inv (mr_drop c h n r)" by (auto simp: mr_inv_def)
  moreover have "c' = c \<and> h' = h \<or> stamped r0 r c' h' \<Longrightarrow> stamped r0 (mr_drop c h n r) c' h'" for c' h'
    using assms(2) by (auto simp: stamped_def)
  moreover have "c' = c \<and> h' = h \<or> mr_get (mr_drop c h n r) c' h' = mr_get r c' h'" for c' h'
    by auto
  moreover have "set (mr_gone r c') \<subseteq> set (mr_gone (mr_drop c h n r) c')" for c' by auto
  moreover have "gone_since r0 (mr_drop c h n r)"
    using assms gone_since_drop by (simp add: advances_def follows_def)
  ultimately show ?thesis using assms(1) unfolding advances_def follows_def
    by (metis mr_drop_fields(3,4) order_trans)
qed

lemma advances_same:
  "mr_members r' = mr_members r \<Longrightarrow> mr_gone r' = mr_gone r \<Longrightarrow> mr_seq r' = mr_seq r \<Longrightarrow> mr_mutable r' = mr_mutable r \<Longrightarrow>
     advances r r'"
  by (auto simp: advances_def follows_def mr_inv_def gone_since_def)

text \<open>Every change starts by taking a new stamp, and stamps what it changes with it.\<close>

lemma advances_stamped_put:
  "si_seq i = Suc (mr_seq r) \<Longrightarrow> (mr_inv r \<Longrightarrow> si_flags i \<noteq> Unknown) \<Longrightarrow> advances r (mr_put c h i (mr_bump r))"
  by (rule advances_put[OF advances_bump]) (auto simp: mr_inv_def dest: le_SucI)

lemma mr_inv_flags: "mr_inv r \<Longrightarrow> mr_get r c h = Some i \<Longrightarrow> si_flags i \<noteq> Unknown"
  by (auto simp: mr_inv_def)

lemma advances_seed: "advances r (mr_seed coll h link fl body r)"
  by (simp add: mr_seed_def Let_def advances_stamped_put flags_from_iter_def)

lemma advances_set_flags: "mr_set_flags coll h fl r = Some r' \<Longrightarrow> advances r r'"
  by (auto simp: mr_set_flags_def Let_def flags_from_iter_def intro!: advances_stamped_put split: Option.bind_splits)

lemma advances_edit: "mr_edit coll h body r = Some r' \<Longrightarrow> advances r r'"
  by (auto simp: mr_edit_def Let_def intro!: advances_stamped_put dest: mr_inv_flags split: Option.bind_splits)

lemma advances_remove: "mr_remove coll h r = Some r' \<Longrightarrow> advances r r'"
  by (auto simp: mr_remove_def Let_def intro!: advances_drop advances_bump split: Option.bind_splits)

text \<open>What a client pushes of its own knowledge: never unknown flags.\<close>

fun known_change :: "change_kind \<Rightarrow> bool" where
  "known_change (SetFlags h fl) = (fl \<noteq> Unknown)"
| "known_change (Add h link fl origin obj) = (fl \<noteq> Unknown)"
| "known_change _ = True"

lemma advances_push_flags: "fl \<noteq> Unknown \<Longrightarrow> advances r (fst (mr_push_flags c h fl r))"
  by (auto simp: mr_push_flags_def Let_def advances_bump intro!: advances_stamped_put split: option.split)

lemma advances_push_remove: "advances r (fst (mr_push_remove c h to link if_match r))"
proof -
  have "advances r (mr_drop c h (Suc (mr_seq r)) (mr_bump r))" by (intro advances_drop advances_bump) simp
  then show ?thesis
    unfolding mr_push_remove_def Let_def
    by (auto simp: advances_bump intro!: advances_put dest: mr_inv_flags split: option.split)
qed

lemma advances_push_update: "advances r (fst (mr_push_update c h obj if_match r))"
  by (auto simp: mr_push_update_def Let_def intro!: advances_stamped_put dest: mr_inv_flags split: option.split)

lemma advances_append: "fl \<noteq> Unknown \<Longrightarrow> advances r (fst (mr_append c link fl obj r))"
proof -
  have "advances r ((mr_bump r)\<lparr>mr_next_appended := n\<rparr>)" for n
    by (rule advances_trans[OF advances_bump]) (rule advances_same, simp_all)
  then show "fl \<noteq> Unknown \<Longrightarrow> advances r (fst (mr_append c link fl obj r))"
    by (auto simp: mr_append_def Let_def intro!: advances_put split: option.split)
qed

lemma advances_push_add: "fl \<noteq> Unknown \<Longrightarrow> advances r (fst (mr_push_add c h link fl origin obj r))"
  using advances_append[of fl r c link]
  by (auto simp: mr_push_add_def Let_def mr_copy_def case_prod_unfold intro!: advances_stamped_put dest: mr_inv_flags
      split: option.split)

lemma advances_push_one: "known_change kind \<Longrightarrow> advances r (fst (mr_push_one c kind r))"
  by (cases kind) (simp_all add: advances_push_flags advances_push_remove advances_push_update advances_push_add)

lemma advances_push_all: "\<forall>ch \<in> set chs. known_change (ch_kind ch) \<Longrightarrow> advances r (fst (mr_push_all c chs r))"
proof (induction chs arbitrary: r)
  case (Cons ch chs)
  then show ?case
    using advances_trans[OF advances_push_one[of "ch_kind ch" r c]] by (simp add: Let_def case_prod_unfold)
qed simp

lemma advances_called: "advances r (mr_called r)"
  by (rule advances_same) (simp_all add: mr_called_def)

lemma advances_push: "\<forall>ch \<in> set chs. known_change (ch_kind ch) \<Longrightarrow> advances r (fst (mr_push c chs r))"
proof -
  have "advances r ((mr_called r)\<lparr>mr_push_batches := ns\<rparr>)" for ns
    by (rule advances_same) (simp_all add: mr_called_def)
  then show "\<forall>ch \<in> set chs. known_change (ch_kind ch) \<Longrightarrow> advances r (fst (mr_push c chs r))"
    using advances_trans[OF _ advances_push_all] by (simp add: mr_push_def Let_def)
qed

lemma advances_fetch: "advances r (fst (mr_fetch c hs tier r))"
  by (rule advances_same) (simp_all add: mr_fetch_def mr_called_def Let_def)

text \<open>Everything that can happen to a server short of a change of its handle space.\<close>

inductive server_step :: "mem_remote \<Rightarrow> mem_remote \<Rightarrow> bool" where
  seed: "server_step r (mr_seed coll h link fl body r)"
| set_flags: "mr_set_flags coll h fl r = Some r' \<Longrightarrow> server_step r r'"
| edit: "mr_edit coll h body r = Some r' \<Longrightarrow> server_step r r'"
| remove: "mr_remove coll h r = Some r' \<Longrightarrow> server_step r r'"
| enumerate: "rm_enumerate mem_server c cursor r = (r', res) \<Longrightarrow> server_step r r'"
| fetch: "rm_fetch mem_server c hs tier r = (r', res) \<Longrightarrow> server_step r r'"
| push: "rm_push mem_server c chs r = (r', res) \<Longrightarrow> \<forall>ch \<in> set chs. known_change (ch_kind ch) \<Longrightarrow> server_step r r'"

lemma server_step_advances: "server_step r r' \<Longrightarrow> advances r r'"
proof (induction rule: server_step.induct)
  case (push c chs r r' res)
  then have "r' = fst (mr_push c chs r)" by (simp add: mem_server_def)
  then show ?case using push by (simp add: advances_push)
next
  case (fetch c hs tier r r' res)
  then have "r' = fst (mr_fetch c hs tier r)" by (simp add: mem_server_def)
  then show ?case by (simp add: advances_fetch)
qed (auto simp: advances_seed advances_set_flags advances_edit advances_remove mem_server_def mr_enumerate_def Let_def advances_called)

lemma server_history_advances: "server_step\<^sup>*\<^sup>* r0 r \<Longrightarrow> advances r0 r"
  by (induction rule: rtranclp_induct) (auto intro: advances_trans server_step_advances)

section \<open>The delta is what changed\<close>

definition mr_listing :: "mem_remote \<Rightarrow> collection_id \<Rightarrow> handle \<Rightarrow> remote_item option" where
  "mr_listing r c h = map_option (mr_item r h) (mr_get r c h)"

lemma find_item:
  "bt_wf m \<Longrightarrow> List.find (\<lambda>i. ri_handle i = h) (map (\<lambda>(h, i). mr_item r h i) (filter (\<lambda>(h, i). P i) m))
     = (case map_of m h of Some i \<Rightarrow> if P i then Some (mr_item r h i) else None | None \<Rightarrow> None)"
proof (induction m)
  case (Cons e m)
  obtain h' i where e: "e = (h', i)" by (cases e)
  have "h \<noteq> h' \<or> map_of m h = None" using Cons.prems by (auto simp: e bt_wf_def map_of_eq_None_iff)
  with Cons e show ?case by (auto simp: bt_wf_def mr_item_def split: option.splits)
qed simp

lemma mr_called_fields [simp]:
  "mr_members (mr_called r) = mr_members r" "mr_gone (mr_called r) = mr_gone r" "mr_seq (mr_called r) = mr_seq r"
  "mr_mutable (mr_called r) = mr_mutable r" "mr_item (mr_called r) = mr_item r"
  by (simp_all add: mr_called_def mr_item_def[abs_def] mr_revision_def)

lemma mr_listing_called [simp]: "mr_listing (mr_called r) = mr_listing r"
  by (simp add: mr_listing_def fun_eq_iff)

definition mr_cursor :: "mem_remote \<Rightarrow> checkpoint" where
  "mr_cursor r = Checkpoint (as_bytes (dec_digits (mr_seq r)))"

text \<open>Without a cursor, or with one that is no number, the listing is complete.\<close>

lemma full_lists_all:
  assumes "mr_inv r" "Option.bind cursor (\<lambda>ck. parse_usize (checkpoint_bytes ck)) = None"
  shows "\<exists>sn. rm_enumerate mem_server c cursor r = (mr_called r, Inr sn) \<and> rs_complete sn
    \<and> (\<forall>h. List.find (\<lambda>i. ri_handle i = h) (rs_items sn) = mr_listing r c h) \<and> rs_checkpoint sn = mr_cursor r"
proof -
  have "bt_wf (mr_members r c)" using assms(1) by (simp add: mr_inv_def)
  from find_item[OF this, of _ r "\<lambda>i. True"] assms(2) show ?thesis
    by (auto simp: mem_server_def mr_enumerate_def Let_def mr_listing_def mr_cursor_def split: option.split)
qed

text \<open>From the cursor of an earlier state, it is what changed since.\<close>

lemma delta_lists_changes:
  assumes "mr_inv r" "follows r0 r" "mr_seq r0 < 2 ^ 64"
  shows "\<exists>sn. rm_enumerate mem_server c (Some (mr_cursor r0)) r = (mr_called r, Inr sn) \<and> \<not> rs_complete sn
    \<and> (\<forall>h. mr_listing r c h =
          (if h \<in> set (rs_vanished sn) then None
           else case List.find (\<lambda>i. ri_handle i = h) (rs_items sn) of Some i \<Rightarrow> Some i | None \<Rightarrow> mr_listing r0 c h))
    \<and> rs_checkpoint sn = mr_cursor r"
proof -
  have "bt_wf (mr_members r c)" using assms(1) by (simp add: mr_inv_def)
  note find = find_item[OF this, of _ r "\<lambda>i. mr_seq r0 < si_seq i"]
  have same: "mr_item r = mr_item r0" using assms(2) by (simp add: follows_def mr_item_def[abs_def] mr_revision_def)
  let ?gone = "map snd (filter (\<lambda>(k, h). mr_seq r0 < k \<and> mr_get r c h = None) (mr_gone r c))"
  let ?items = "map (\<lambda>(h, i). mr_item r h i) (filter (\<lambda>(h, i). mr_seq r0 < si_seq i) (mr_members r c))"
  have "mr_listing r c h = (if h \<in> set ?gone then None
      else case List.find (\<lambda>i. ri_handle i = h) ?items of Some i \<Rightarrow> Some i | None \<Rightarrow> mr_listing r0 c h)" for h
  proof -
    have changed: "mr_get r c h = mr_get r0 c h \<or> stamped r0 r c h" using assms(2) by (simp add: follows_def)
    then have later: "mr_get r0 c h = Some i" if "mr_get r c h = Some i" "\<not> mr_seq r0 < si_seq i" for i
      using that by (auto simp: stamped_def)
    have gone: "h \<in> set ?gone \<longleftrightarrow> mr_get r c h = None \<and> (\<exists>n. mr_seq r0 < n \<and> (n, h) \<in> set (mr_gone r c))"
      by (auto simp: image_iff)
    have old: "mr_listing r0 c h = map_option (mr_item r h) (mr_get r0 c h)" by (simp add: mr_listing_def same)
    show ?thesis
    proof (cases "mr_get r c h")
      case None
      then have "mr_get r0 c h = None \<or> h \<in> set ?gone" using changed gone by (auto simp: stamped_def)
      with None show ?thesis unfolding find mr_listing_def[of r] old by auto
    next
      case (Some i)
      with later[of i] show ?thesis unfolding find mr_listing_def[of r] old gone by auto
    qed
  qed
  then show ?thesis
    using parse_dec[OF assms(3)] by (simp add: mem_server_def mr_enumerate_def Let_def mr_cursor_def)
qed

text \<open>What the delta names, told apart by the server's records alone.\<close>

lemma delta_is_exact:
  assumes "mr_inv r0" "mr_inv r" "follows r0 r" "mr_seq r0 < 2 ^ 64" "\<forall>(n, h) \<in> set (mr_gone r0 c). n \<le> mr_seq r0"
    "rm_enumerate mem_server c (Some (mr_cursor r0)) r = (r', Inr sn)"
  shows "set (rs_items sn) = {mr_item r h i | h i. map_of (mr_members r c) h = Some i \<and> map_of (mr_members r0 c) h \<noteq> Some i}"
    and "distinct (map ri_handle (rs_items sn))"
    and "set (rs_vanished sn) = {h. map_of (mr_members r c) h = None
          \<and> (\<exists>n. (n, h) \<in> set (mr_gone r c) - set (mr_gone r0 c))}"
proof -
  have wf: "bt_wf (mr_members r c)" using assms(2) by (simp add: mr_inv_def)
  then have mem: "(h, i) \<in> set (mr_members r c) \<longleftrightarrow> map_of (mr_members r c) h = Some i" for h i
    by (simp add: bt.mem_entries)
  have sn: "rs_items sn = map (\<lambda>(h, i). mr_item r h i) (filter (\<lambda>(h, i). mr_seq r0 < si_seq i) (mr_members r c))"
    "rs_vanished sn = map snd (filter (\<lambda>(k, h). mr_seq r0 < k \<and> map_of (mr_members r c) h = None) (mr_gone r c))"
    using assms(6) parse_dec[OF assms(4)] by (auto simp: mem_server_def mr_enumerate_def mr_cursor_def Let_def)
  have later: "mr_seq r0 < si_seq i \<longleftrightarrow> map_of (mr_members r0 c) h \<noteq> Some i" if "map_of (mr_members r c) h = Some i" for h i
  proof
    assume "mr_seq r0 < si_seq i"
    then show "map_of (mr_members r0 c) h \<noteq> Some i" using assms(1) by (fastforce simp: mr_inv_def)
  next
    assume "map_of (mr_members r0 c) h \<noteq> Some i"
    moreover have "mr_get r c h = mr_get r0 c h \<or> stamped r0 r c h" using assms(3) by (simp add: follows_def)
    ultimately have "stamped r0 r c h" using that by simp
    with that show "mr_seq r0 < si_seq i" by (auto simp: stamped_def)
  qed
  show "set (rs_items sn) = {mr_item r h i | h i. map_of (mr_members r c) h = Some i \<and> map_of (mr_members r0 c) h \<noteq> Some i}"
    using later by (force simp: sn(1) mem)
  have "distinct (map fst (filter (\<lambda>(h, i). mr_seq r0 < si_seq i) (mr_members r c)))"
    using wf by (intro distinct_map_filter) (simp add: bt_wf_def strict_sorted_iff)
  moreover have "map ri_handle (rs_items sn) = map fst (filter (\<lambda>(h, i). mr_seq r0 < si_seq i) (mr_members r c))"
    by (simp add: sn(1) mr_item_def case_prod_unfold)
  ultimately show "distinct (map ri_handle (rs_items sn))" by simp
  have "gone_since r0 r" using assms(3) by (simp add: follows_def)
  then have "mr_seq r0 < n \<longleftrightarrow> (n, h) \<notin> set (mr_gone r0 c)" if "(n, h) \<in> set (mr_gone r c)" for n h
    using assms(5) that by (fastforce simp: gone_since_def)
  then show "set (rs_vanished sn) = {h. map_of (mr_members r c) h = None
      \<and> (\<exists>n. (n, h) \<in> set (mr_gone r c) - set (mr_gone r0 c))}"
    by (force simp: sn(2))
qed

text \<open>
  C21: a delta is exactly what changed. Whatever happened on the server since the cursor was
  handed out, members seeded, flagged, edited, removed, relocated or pushed by any client, the
  delta the server answers for that cursor lists a handle in its items exactly when it is a
  member now whose record on the server was written since, and at its current state; it names a
  handle as vanished exactly when it is no member now and a removal of it was recorded since;
  so a handle nothing happened to is in neither. Laid over what the collection listed then, it
  gives what it lists now, and the new cursor is the one of now. The counter at the cursor fits
  64 bits and stamps every removal recorded by then.
\<close>

theorem mem_delta_is_the_change:
  assumes "mr_inv r0" "server_step\<^sup>*\<^sup>* r0 r" "mr_seq r0 < 2 ^ 64" "\<forall>(n, h) \<in> set (mr_gone r0 c). n \<le> mr_seq r0"
  shows "\<exists>r' sn. rm_enumerate mem_server c (Some (mr_cursor r0)) r = (r', Inr sn) \<and> \<not> rs_complete sn
    \<and> set (rs_items sn) =
        {\<lparr>ri_handle = h, ri_flags = si_flags i,
          ri_revision = if mr_mutable r then Some (dec_digits (si_rev i)) else None\<rparr> | h i.
         map_of (mr_members r c) h = Some i \<and> map_of (mr_members r0 c) h \<noteq> Some i}
    \<and> distinct (map ri_handle (rs_items sn))
    \<and> set (rs_vanished sn) = {h. map_of (mr_members r c) h = None
          \<and> (\<exists>n. (n, h) \<in> set (mr_gone r c) - set (mr_gone r0 c))}
    \<and> (\<forall>h. mr_listing r c h =
          (if h \<in> set (rs_vanished sn) then None
           else case List.find (\<lambda>i. ri_handle i = h) (rs_items sn) of Some i \<Rightarrow> Some i | None \<Rightarrow> mr_listing r0 c h))
    \<and> rs_checkpoint sn = mr_cursor r"
proof -
  have inv: "mr_inv r" and follows: "follows r0 r"
    using server_history_advances[OF assms(2)] assms(1) by (simp_all add: advances_def)
  obtain sn where sn: "rm_enumerate mem_server c (Some (mr_cursor r0)) r = (mr_called r, Inr sn)" "\<not> rs_complete sn"
    "\<forall>h. mr_listing r c h = (if h \<in> set (rs_vanished sn) then None
        else case List.find (\<lambda>i. ri_handle i = h) (rs_items sn) of Some i \<Rightarrow> Some i | None \<Rightarrow> mr_listing r0 c h)"
    "rs_checkpoint sn = mr_cursor r"
    using delta_lists_changes[OF inv follows assms(3)] by blast
  note exact = delta_is_exact[OF assms(1) inv follows assms(3,4) sn(1), unfolded mr_item_def mr_revision_def]
  show ?thesis
    by (intro exI conjI) (rule sn(1), rule sn(2), rule exact(1), rule exact(2), rule exact(3), rule sn(3), rule sn(4))
qed

text \<open>A member seeded, the cursor taken, then the member removed and another one seeded.\<close>

theorem mem_delta_is_the_change_witness:
  "\<exists>r r' sn. mr_remove ''inbox'' ''1'' (mr_seed ''inbox'' ''1'' ''m'' [] [7] mem_remote_default) = Some r
    \<and> rm_enumerate mem_server (CollectionId ''inbox'')
        (Some (mr_cursor (mr_seed ''inbox'' ''1'' ''m'' [] [7] mem_remote_default)))
        (mr_seed ''inbox'' ''2'' ''n'' [] [8] r) = (r', Inr sn)
    \<and> \<not> rs_complete sn"
proof -
  let ?r0 = "mr_seed ''inbox'' ''1'' ''m'' [] [7] mem_remote_default"
  have "mr_inv mem_remote_default" by (simp add: mr_inv_def mem_remote_default_def mr_members_def)
  then have inv: "mr_inv ?r0" using advances_seed by (auto simp: advances_def)
  obtain r where r: "mr_remove ''inbox'' ''1'' ?r0 = Some r"
    by (simp add: mr_remove_def mr_seed_def mr_members_def mr_put_def mr_bump_def mem_remote_default_def Let_def)
  have "server_step ?r0 r" using r by (rule server_step.remove)
  then have steps: "server_step\<^sup>*\<^sup>* ?r0 (mr_seed ''inbox'' ''2'' ''n'' [] [8] r)"
    by (meson r_into_rtranclp rtranclp.rtrancl_into_rtrancl server_step.seed)
  have "mr_seq ?r0 < 2 ^ 64"
    by (simp add: mr_seed_def mr_put_def mr_bump_def mem_remote_default_def Let_def mr_members_def)
  moreover have "\<forall>(n, h) \<in> set (mr_gone ?r0 (CollectionId ''inbox'')). n \<le> mr_seq ?r0"
    by (simp add: mr_seed_def mr_put_def mr_bump_def mem_remote_default_def mr_gone_def Let_def)
  ultimately show ?thesis
    using mem_delta_is_the_change[OF inv steps, of "CollectionId ''inbox''"] r by blast
qed

end
