(* ===== verification/Replica_System.thy ===== *)
theory Replica_System
  imports Mem_Remote
begin

text \<open>
  A replica and its server as one system: the in-memory storage on one side, the in-memory remote
  with its deltas on the other, and between them the client. However the server's own changes
  interleave with syncs, every sync leaves the replica in step with the server.
\<close>

section \<open>A replica that is behind\<close>

text \<open>The rows are in step with the server as it was when the stored cursor was taken.\<close>

definition tracks :: "rows \<Rightarrow> cursors \<Rightarrow> collection_id \<Rightarrow> mem_remote \<Rightarrow> bool" where
  "tracks m k c r \<longleftrightarrow>
     (\<exists>r0. mr_inv r0 \<and> follows r0 r
        \<and> ((\<forall>h. m (c, h) = None) \<and> k c = None \<or> in_step m c (mr_listing r0 c) \<and> k c = Some (mr_cursor r0)))"

lemma tracks_fresh: "mr_inv r \<Longrightarrow> (\<And>h. m (c, h) = None) \<Longrightarrow> k c = None \<Longrightarrow> tracks m k c r"
  by (auto simp: tracks_def)

lemma tracks_follows: "tracks m k c r \<Longrightarrow> follows r r' \<Longrightarrow> tracks m k c r'"
  unfolding tracks_def using follows_trans by blast

lemma tracks_now: "mr_inv r \<Longrightarrow> in_step m c (mr_listing r c) \<Longrightarrow> k c = Some (mr_cursor r) \<Longrightarrow> tracks m k c r"
  by (auto simp: tracks_def)

lemma tracks_row:
  "tracks m k c r \<Longrightarrow> m (c, h) = Some p \<Longrightarrow> \<exists>r0. follows r0 r \<and> in_step m c (mr_listing r0 c) \<and> k c = Some (mr_cursor r0)"
  by (force simp: tracks_def)

lemma in_step_settled: "in_step m c l \<Longrightarrow> m (c, h) = Some p \<Longrightarrow> p_status p = Clean \<and> settled p"
proof -
  assume "in_step m c l" "m (c, h) = Some p"
  then have "holds (Some p) (l h)" by (auto simp: in_step_def dest: spec[of _ h])
  then show ?thesis by (cases "l h") (auto simp: settled_def)
qed

lemma in_step_known:
  assumes "in_step m c (mr_listing r c)" "\<And>p. m (c, h) = Some p \<Longrightarrow> p_handle p = h"
  shows "Option.bind (m (c, h)) known_item = mr_listing r c h"
proof -
  have "holds (m (c, h)) (mr_listing r c h)" using assms(1) by (simp add: in_step_def)
  moreover have "mr_listing r c h = Some i \<Longrightarrow> ri_handle i = h" for i by (auto simp: mr_listing_def mr_item_def)
  ultimately show ?thesis using assms(2)
    by (cases "m (c, h)"; cases "mr_listing r c h") (auto simp: known_item_def)
qed

lemma tracks_pullable:
  assumes "tracks m k c r" "mr_inv r"
  shows "pullable (m (c, h)) (mr_listing r c h)"
proof -
  obtain r0 where r0: "follows r0 r" "(\<forall>h. m (c, h) = None) \<or> in_step m c (mr_listing r0 c)"
    using assms(1) by (auto simp: tracks_def)
  have flags: "mr_listing r c h = Some i \<Longrightarrow> ri_flags i \<noteq> Unknown" for i
    using assms(2) by (auto simp: mr_listing_def mr_item_def mr_inv_def)
  have "b_revision b = None"
    if "m (c, h) = Some p" "p_base p = Some b" "mr_listing r c h = Some i" "ri_revision i = None" for p b i
  proof -
    have "\<not> mr_mutable r0" using that(3,4) r0(1) by (auto simp: mr_listing_def mr_item_def mr_revision_def follows_def split: if_splits)
    moreover have "holds (Some p) (mr_listing r0 c h)" using r0(2) that(1) by (auto simp: in_step_def dest: spec[of _ h])
    ultimately show ?thesis
      using that(2) by (cases "mr_listing r0 c h") (auto simp: mr_listing_def mr_item_def mr_revision_def)
  qed
  moreover have "m (c, h) = Some p \<Longrightarrow> p_status p = Clean \<and> settled p" for p using r0(2) in_step_settled by fastforce
  ultimately show ?thesis using flags by (auto simp: pullable_def)
qed

section \<open>One sync\<close>

lemma server_full_sync:
  assumes "mem_inv s" "mr_inv r" "tracks (mem_rows s) (mem_cursor s) c r"
    "Option.bind (if opt_full opts then None else mem_cursor s c) (\<lambda>ck. parse_usize (checkpoint_bytes ck)) = None"
  shows "\<exists>s' report. client_sync mem_ops mem_server c opts \<lparr>cl_storage = s, cl_remote = r\<rparr>
        = Some (\<lparr>cl_storage = s', cl_remote = mr_called r\<rparr>, Returned (Inr report))
    \<and> mem_inv s' \<and> in_step (mem_rows s') c (mr_listing r c)
    \<and> (\<forall>c' h. c' \<noteq> c \<longrightarrow> mem_rows s' (c', h) = mem_rows s (c', h)) \<and> mem_cursor s' = (mem_cursor s)(c \<mapsto> mr_cursor r)"
proof -
  obtain sn where sn: "rm_enumerate mem_server c (if opt_full opts then None else mem_cursor s c) r = (mr_called r, Inr sn)"
    "rs_complete sn" "\<And>h. List.find (\<lambda>i. ri_handle i = h) (rs_items sn) = mr_listing r c h" "rs_checkpoint sn = mr_cursor r"
    using full_lists_all[OF assms(2,4)] by blast
  have "pullable (mem_rows s (c, h)) (List.find (\<lambda>i. ri_handle i = h) (rs_items sn))" for h
    unfolding sn(3) using assms(2,3) by (intro tracks_pullable)
  from mem_cur.clean_sync[OF assms(1) sn(1,2) this] show ?thesis unfolding sn(3,4) .
qed

lemma server_delta_sync:
  assumes "mem_inv s" "mr_inv r" "follows r0 r" "\<forall>h. Option.bind (mem_rows s (c, h)) known_item = mr_listing r0 c h"
    "\<forall>h p. mem_rows s (c, h) = Some p \<longrightarrow> p_status p = Clean \<longrightarrow> settled p"
    "mem_cursor s c = Some (mr_cursor r0)" "mr_seq r0 < 2 ^ 64"
  shows "\<exists>s1 s2 r' report.
      client_sync mem_ops mem_server c (opts\<lparr>opt_full := True\<rparr>) \<lparr>cl_storage = s, cl_remote = r\<rparr>
        = Some (\<lparr>cl_storage = s1, cl_remote = r'\<rparr>, Returned (Inr report))
    \<and> client_sync mem_ops mem_server c (opts\<lparr>opt_full := False\<rparr>) \<lparr>cl_storage = s, cl_remote = r\<rparr>
        = Some (\<lparr>cl_storage = s2, cl_remote = r'\<rparr>, Returned (Inr report))
    \<and> mem_inv s2 \<and> mem_rows s1 = mem_rows s2 \<and> mem_cursor s1 = mem_cursor s2"
proof -
  obtain full where full: "rm_enumerate mem_server c None r = (mr_called r, Inr full)" "rs_complete full"
    "\<And>h. List.find (\<lambda>i. ri_handle i = h) (rs_items full) = mr_listing r c h" "rs_checkpoint full = mr_cursor r"
    using full_lists_all[OF assms(2), of None c] by auto
  obtain delta where delta: "rm_enumerate mem_server c (mem_cursor s c) r = (mr_called r, Inr delta)" "\<not> rs_complete delta"
    "\<And>h. mr_listing r c h = (if h \<in> set (rs_vanished delta) then None
        else case List.find (\<lambda>i. ri_handle i = h) (rs_items delta) of Some i \<Rightarrow> Some i | None \<Rightarrow> mr_listing r0 c h)"
    "rs_checkpoint delta = mr_cursor r"
    using delta_lists_changes[OF assms(2,3,7), of c] unfolding assms(6) by auto
  have "List.find (\<lambda>i. ri_handle i = h) (rs_items full) = delta_item (mem_rows s) c delta h" for h
    unfolding full(3) delta(3) delta_item_def using assms(4) by (simp split: option.split)
  then show ?thesis
    using mem_cur.delta_sync[OF assms(1) full(1) delta(1) full(2) delta(2), of opts] mem_server_up full(4) delta(4) assms(5) by simp
qed

lemma cursor_is_number: "parse_usize (checkpoint_bytes (mr_cursor r)) \<noteq> None \<Longrightarrow> mr_seq r < 2 ^ 64"
  using dec_digits_ok[of "mr_seq r"] dec_digits_no_plus[of "mr_seq r"]
  by (simp add: mr_cursor_def parse_usize_def Let_def split: if_splits)

lemma tracked_sync:
  assumes "mem_inv s" "mr_inv r" "tracks (mem_rows s) (mem_cursor s) c r"
  shows "\<exists>s' report. client_sync mem_ops mem_server c opts \<lparr>cl_storage = s, cl_remote = r\<rparr>
        = Some (\<lparr>cl_storage = s', cl_remote = mr_called r\<rparr>, Returned (Inr report))
    \<and> mem_inv s' \<and> in_step (mem_rows s') c (mr_listing r c)
    \<and> (\<forall>c' h. c' \<noteq> c \<longrightarrow> mem_rows s' (c', h) = mem_rows s (c', h)) \<and> mem_cursor s' = (mem_cursor s)(c \<mapsto> mr_cursor r)"
proof (cases "Option.bind (if opt_full opts then None else mem_cursor s c) (\<lambda>ck. parse_usize (checkpoint_bytes ck)) = None")
  case True
  then show ?thesis by (rule server_full_sync[OF assms])
next
  case False
  then have "\<not> opt_full opts" "mem_cursor s c \<noteq> None" by (cases "mem_cursor s c"; auto split: if_splits)+
  then obtain r0 where r0: "follows r0 r" "in_step (mem_rows s) c (mr_listing r0 c)" "mem_cursor s c = Some (mr_cursor r0)"
    using assms(3) by (auto simp: tracks_def)
  have "mr_seq r0 < 2 ^ 64" using False r0(3) \<open>\<not> opt_full opts\<close> cursor_is_number by simp
  moreover have "\<forall>h. Option.bind (mem_rows s (c, h)) known_item = mr_listing r0 c h"
    using in_step_known[OF r0(2)] mem.keyed[OF assms(1)] by blast
  moreover have "\<forall>h p. mem_rows s (c, h) = Some p \<longrightarrow> p_status p = Clean \<longrightarrow> settled p" using in_step_settled[OF r0(2)] by blast
  ultimately obtain s1 s2 r' report where
    runs: "client_sync mem_ops mem_server c (opts\<lparr>opt_full := True\<rparr>) \<lparr>cl_storage = s, cl_remote = r\<rparr>
        = Some (\<lparr>cl_storage = s1, cl_remote = r'\<rparr>, Returned (Inr report))"
      "client_sync mem_ops mem_server c (opts\<lparr>opt_full := False\<rparr>) \<lparr>cl_storage = s, cl_remote = r\<rparr>
        = Some (\<lparr>cl_storage = s2, cl_remote = r'\<rparr>, Returned (Inr report))"
      "mem_inv s2" "mem_rows s1 = mem_rows s2" "mem_cursor s1 = mem_cursor s2"
    using server_delta_sync[OF assms(1,2) r0(1) _ _ r0(3), of opts] by blast
  have "opts\<lparr>opt_full := False\<rparr> = opts" using \<open>\<not> opt_full opts\<close> by (cases opts) simp
  with runs server_full_sync[OF assms, of "opts\<lparr>opt_full := True\<rparr>"] show ?thesis by auto
qed

section \<open>Any interleaving\<close>

text \<open>A step of the system: something happens on the server, or the client syncs a collection.\<close>

inductive system_step ::
  "(mem_storage, mem_remote) client \<Rightarrow> (mem_storage, mem_remote) client \<Rightarrow> bool" where
  server: "server_step r r' \<Longrightarrow> system_step \<lparr>cl_storage = s, cl_remote = r\<rparr> \<lparr>cl_storage = s, cl_remote = r'\<rparr>"
| sync: "client_sync mem_ops mem_server c opts cl = Some (cl', out) \<Longrightarrow> system_step cl cl'"

definition system_inv :: "(mem_storage, mem_remote) client \<Rightarrow> bool" where
  "system_inv cl \<longleftrightarrow> mem_inv (cl_storage cl) \<and> mr_inv (cl_remote cl)
     \<and> (\<forall>c. tracks (mem_rows (cl_storage cl)) (mem_cursor (cl_storage cl)) c (cl_remote cl))"

lemma system_inv_server: "server_step r r' \<Longrightarrow> system_inv \<lparr>cl_storage = s, cl_remote = r\<rparr> \<Longrightarrow> system_inv \<lparr>cl_storage = s, cl_remote = r'\<rparr>"
  using server_step_advances[of r r'] by (auto simp: system_inv_def advances_def intro: tracks_follows)

lemma client_eta: "\<lparr>cl_storage = cl_storage cl, cl_remote = cl_remote cl\<rparr> = cl"
  by simp

lemma system_sync:
  assumes "system_inv cl"
  shows "\<exists>cl' report. client_sync mem_ops mem_server c opts cl = Some (cl', Returned (Inr report))
    \<and> system_inv cl' \<and> in_step (mem_rows (cl_storage cl')) c (mr_listing (cl_remote cl) c)
    \<and> cl_remote cl' = mr_called (cl_remote cl)"
proof -
  let ?s = "cl_storage cl" and ?r = "cl_remote cl"
  have inv: "mem_inv ?s" "mr_inv ?r" "\<And>c. tracks (mem_rows ?s) (mem_cursor ?s) c ?r" using assms by (simp_all add: system_inv_def)
  obtain s' report where s': "client_sync mem_ops mem_server c opts cl
      = Some (\<lparr>cl_storage = s', cl_remote = mr_called ?r\<rparr>, Returned (Inr report))"
    "mem_inv s'" "in_step (mem_rows s') c (mr_listing ?r c)"
    "\<forall>c' h. c' \<noteq> c \<longrightarrow> mem_rows s' (c', h) = mem_rows ?s (c', h)" "mem_cursor s' = (mem_cursor ?s)(c \<mapsto> mr_cursor ?r)"
    using tracked_sync[OF inv, of c opts] by (auto simp: client_eta)
  have called: "mr_inv (mr_called ?r)" "follows ?r (mr_called ?r)" "mr_cursor (mr_called ?r) = mr_cursor ?r"
    using advances_called[of ?r] inv(2) by (simp_all add: advances_def mr_cursor_def)
  have "tracks (mem_rows s') (mem_cursor s') c' (mr_called ?r)" for c'
  proof (cases "c' = c")
    case True
    with s'(3,5) called show ?thesis by (intro tracks_now) simp_all
  next
    case False
    then have "tracks (mem_rows s') (mem_cursor s') c' ?r" using inv(3)[of c'] s'(4,5) by (simp add: tracks_def in_step_def)
    with called(2) show ?thesis by (rule tracks_follows[rotated])
  qed
  with s' called(1) show ?thesis by (auto simp: system_inv_def)
qed

lemma system_inv_step:
  assumes "system_step cl cl'" "system_inv cl"
  shows "system_inv cl'"
  using assms
proof (induction rule: system_step.induct)
  case (server r r' s)
  then show ?case by (rule system_inv_server)
next
  case (sync c opts cl cl' out)
  with system_sync[of cl c opts] show ?case by auto
qed

definition mem_storage_default :: mem_storage where
  "mem_storage_default = \<lparr>ms_placements = [], ms_objects = [], ms_checkpoints = []\<rparr>"

lemma system_inv_new: "mr_inv r \<Longrightarrow> system_inv \<lparr>cl_storage = mem_storage_default, cl_remote = r\<rparr>"
  by (auto simp: system_inv_def mem_storage_default_def mem_inv_def mem_rows_def mem_cursor_def intro: tracks_fresh)

lemma system_reachable_inv: "system_step\<^sup>*\<^sup>* cl cl' \<Longrightarrow> system_inv cl \<Longrightarrow> system_inv cl'"
  by (induction rule: rtranclp_induct) (auto intro: system_inv_step)

lemma mem_remote_default_inv: "mr_inv mem_remote_default"
  by (simp add: mr_inv_def mem_remote_default_def mr_members_def)

text \<open>
  C3: a replica stays in step with its server. Start from an empty storage and a well-formed
  server, and let any history follow: members seeded, flagged, edited and removed on the
  server, changes pushed by other clients, and syncs of any collection with any options, each
  incremental from the cursor stored by the last. Then the next sync of a collection returns a
  report, asks the server for nothing but the enumeration, and leaves exactly the server's
  members in the storage, each clean at the flags and the revision the server holds.
\<close>

theorem replica_stays_in_step:
  assumes "mr_inv r" "system_step\<^sup>*\<^sup>* \<lparr>cl_storage = mem_storage_default, cl_remote = r\<rparr> cl"
  shows "\<exists>cl' report. client_sync mem_ops mem_server c opts cl = Some (cl', Returned (Inr report))
    \<and> in_step (mem_rows (cl_storage cl')) c (mr_listing (cl_remote cl) c)
    \<and> cl_remote cl' = mr_called (cl_remote cl)"
  using system_sync[OF system_reachable_inv[OF assms(2) system_inv_new[OF assms(1)]]] by blast

text \<open>A member seeded, synced, and then edited and a second one seeded on the server.\<close>

theorem replica_stays_in_step_witness:
  "\<exists>cl cl' report. client_sync mem_ops mem_server (CollectionId ''inbox'') sync_options_default cl = Some (cl', Returned (Inr report))
    \<and> mr_seq (cl_remote cl) = 2
    \<and> in_step (mem_rows (cl_storage cl')) (CollectionId ''inbox'') (mr_listing (cl_remote cl) (CollectionId ''inbox''))"
proof -
  let ?c = "CollectionId ''inbox''" and ?r = "mr_seed ''inbox'' ''1'' ''m'' [] [7] mem_remote_default"
  let ?cl0 = "\<lparr>cl_storage = mem_storage_default, cl_remote = ?r\<rparr>"
  have inv: "mr_inv ?r" using advances_seed mem_remote_default_inv by (auto simp: advances_def)
  obtain cl1 report where first: "client_sync mem_ops mem_server ?c sync_options_default ?cl0 = Some (cl1, Returned (Inr report))"
    and r1: "cl_remote cl1 = mr_called ?r"
    using system_sync[OF system_inv_new[OF inv], of ?c sync_options_default] by auto
  have step1: "system_step ?cl0 cl1" using first by (rule system_step.sync)
  let ?cl2 = "\<lparr>cl_storage = cl_storage cl1, cl_remote = mr_seed ''inbox'' ''2'' ''n'' [''seen''] [8] (cl_remote cl1)\<rparr>"
  have "system_step \<lparr>cl_storage = cl_storage cl1, cl_remote = cl_remote cl1\<rparr> ?cl2"
    by (intro system_step.server server_step.seed)
  then have "system_step cl1 ?cl2" unfolding client_eta .
  have "system_step\<^sup>*\<^sup>* ?cl0 ?cl2"
    by (rule rtranclp.rtrancl_into_rtrancl[OF r_into_rtranclp[where r = system_step, OF step1]]) fact
  from replica_stays_in_step[OF inv this, of ?c sync_options_default]
  obtain cl' rep where "client_sync mem_ops mem_server ?c sync_options_default ?cl2 = Some (cl', Returned (Inr rep))"
    "in_step (mem_rows (cl_storage cl')) ?c (mr_listing (cl_remote ?cl2) ?c)" by blast
  moreover have "mr_seq (cl_remote ?cl2) = 2" by (simp add: r1 mr_seed_def Let_def mem_remote_default_def)
  ultimately show ?thesis by blast
qed

end
