(* ===== verification/Server_Edit.thy ===== *)
theory Server_Edit
  imports Replica_System
begin

text \<open>
  An edit made offline in the system of client, storage and server: what the server holds once
  the next sync returns, whether that sync is full or goes from the stored cursor.
\<close>

section \<open>A guarded update on the server\<close>

lemma server_update:
  assumes "mr_get r c h = Some i"
  shows "\<exists>r2 res. rm_push mem_server c [change_new c (Update h obj (mr_revision r (si_rev i)))] r = (r2, Inr [res])
    \<and> pr_handle res = h \<and> pr_outcome res = Accepted \<and> pr_revision res = mr_revision r (si_rev i + 1)
    \<and> mr_mutable r2 = mr_mutable r
    \<and> (\<forall>c' h'. mr_get r2 c' h' = (if c' = c \<and> h' = h
          then Some (i\<lparr>si_body := as_bytes (hash_str obj), si_rev := si_rev i + 1, si_seq := mr_seq r + 1\<rparr>)
          else mr_get r c' h'))"
  using assms
  by (simp add: mem_server_def mr_push_def mr_push_update_def mr_stale_def mr_revision_def mr_called_def change_new_def
      accepted_def Let_def)

section \<open>The sync after an edit\<close>

lemma in_step_others_idle:
  assumes "in_step m c l" "\<And>h. List.find (\<lambda>i. ri_handle i = h) is = l h" "h' \<noteq> h"
  shows "idle (paired (m((c, h) \<mapsto> e)) c is h')"
proof -
  have "holds (m (c, h')) (l h')" using assms(1) by (simp add: in_step_def)
  then show ?thesis using assms(2,3)
    by (cases "m (c, h')"; cases "l h'") (auto simp: idle_def paired_def agrees_def)
qed

lemma in_step_after_update:
  assumes "in_step m c (mr_listing r c)" "mr_mutable r2 = mr_mutable r"
    "\<forall>h'. mr_get r2 c h' = (if h' = h then Some i2 else mr_get r c h')" "holds (Some q) (Some (mr_item r2 h i2))"
  shows "in_step (m((c, h) \<mapsto> q)) c (mr_listing r2 c)"
proof -
  have same: "mr_item r2 = mr_item r" using assms(2) by (simp add: mr_item_def[abs_def] mr_revision_def)
  have "holds (if h' = h then Some q else m (c, h')) (mr_listing r2 c h')" for h'
    using assms(1,3,4) by (simp add: in_step_def mr_listing_def same)
  then show ?thesis by (simp add: in_step_def)
qed

text \<open>What the server holds after the update of one member.\<close>

definition updated_at :: "collection_id \<Rightarrow> handle \<Rightarrow> hash \<Rightarrow> mem_remote \<Rightarrow> mem_remote \<Rightarrow> bool" where
  "updated_at c h obj r r' \<longleftrightarrow>
     (\<exists>i i'. mr_get r c h = Some i \<and> mr_get r' c h = Some i' \<and> si_body i' = as_bytes (hash_str obj)
        \<and> si_rev i' = si_rev i + 1 \<and> si_flags i' = si_flags i \<and> si_link i' = si_link i)
     \<and> (\<forall>c' h'. (c', h') \<noteq> (c, h) \<longrightarrow> mr_get r' c' h' = mr_get r c' h')"

abbreviation pushed_edit :: "handle \<Rightarrow> sync_report" where
  "pushed_edit h \<equiv> sync_report_default\<lparr>sr_pushed := 1, sr_events := [ContentChanged h]\<rparr>"

lemma edit_full_sync:
  assumes "mem_inv s" "mr_inv r" "in_step m c (mr_listing r c)" "m (c, h) = Some p" "p_base p = Some b"
    "b_object b \<noteq> Some (o_hash obj)" "may_push_content opts" "mem_rows s = m((c, h) \<mapsto> edit_placement p obj mt k)"
    "Option.bind (if opt_full opts then None else mem_cursor s c) (\<lambda>ck. parse_usize (checkpoint_bytes ck)) = None"
  shows "\<exists>s' r'. client_sync mem_ops mem_server c opts \<lparr>cl_storage = s, cl_remote = r\<rparr>
        = Some (\<lparr>cl_storage = s', cl_remote = r'\<rparr>, Returned (Inr (pushed_edit h)))
    \<and> in_step (mem_rows s') c (mr_listing r' c) \<and> updated_at c h (o_hash obj) r r'"
proof -
  let ?e = "edit_placement p obj mt k"
  obtain sn where sn: "rm_enumerate mem_server c (if opt_full opts then None else mem_cursor s c) r = (mr_called r, Inr sn)"
    "rs_complete sn" "\<And>h. List.find (\<lambda>i. ri_handle i = h) (rs_items sn) = mr_listing r c h"
    using full_lists_all[OF assms(2,9)] by blast
  have "holds (Some p) (mr_listing r c h)" using assms(3,4) by (auto simp: in_step_def dest: spec[of _ h])
  then obtain i where i: "mr_get r c h = Some i" "mr_listing r c h = Some (mr_item r h i)" "holds (Some p) (Some (mr_item r h i))"
    by (cases "mr_get r c h") (simp_all add: mr_listing_def)
  have item: "p_status p = Clean" "p_conflict_revision p = None" "p_flags p = si_flags i" "b_flags b = si_flags i"
    "b_revision b = mr_revision r (si_rev i)" using i(3) assms(5) by (simp_all add: mr_item_def)
  have e: "p_status ?e = Dirty" "p_base ?e = Some b" "p_conflict_revision ?e = None"
    using item(1,2) assms(5,6) by (simp_all add: edit_placement_plain)
  have pe: "pushes_edit ?e (mr_item r h i)"
    using e item assms(6) by (auto simp: pushes_edit_def mr_item_def)
  have called: "mr_get (mr_called r) c h = Some i" "mr_revision (mr_called r) = mr_revision r"
    using i(1) by (simp_all add: mr_called_def mr_revision_def fun_eq_iff)
  have change: "edit_change h ?e = Update h (o_hash obj) (mr_revision r (si_rev i))"
    using e(2) item(5) by (simp add: edit_change_def)
  obtain r2 res where res:
    "rm_push mem_server c [change_new c (edit_change h ?e)] (mr_called r) = (r2, Inr [res])"
    "pr_handle res = h" "pr_outcome res = Accepted" "pr_revision res = mr_revision r (si_rev i + 1)" "mr_mutable r2 = mr_mutable r"
    "\<forall>c' h'. mr_get r2 c' h' = (if c' = c \<and> h' = h
        then Some (i\<lparr>si_body := as_bytes (hash_str (o_hash obj)), si_rev := si_rev i + 1, si_seq := mr_seq r + 1\<rparr>)
        else mr_get r c' h')"
    using server_update[OF called(1), of "o_hash obj"] unfolding called(2) change mr_called_fields by blast
  have "\<forall>h'. h' \<noteq> h \<longrightarrow> idle (paired (mem_rows s) c (rs_items sn) h')"
    unfolding assms(8) using in_step_others_idle[OF assms(3)] sn(3) by blast
  moreover have "mem_rows s (c, h) = Some ?e" by (simp add: assms(8))
  ultimately obtain s' where s': "client_sync mem_ops mem_server c opts \<lparr>cl_storage = s, cl_remote = r\<rparr>
      = Some (\<lparr>cl_storage = s', cl_remote = r2\<rparr>, Returned (Inr (pushed_edit h)))"
    "mem_rows s' = (mem_rows s)((c, h) \<mapsto> content_rebased_placement ?e (pr_revision res))"
    using mem_cur.delivering_sync[OF assms(1) sn(1,2) _ _ _ pe assms(7) res(1-3)] sn(3) i(2) by metis
  let ?i = "i\<lparr>si_body := as_bytes (hash_str (o_hash obj)), si_rev := si_rev i + 1, si_seq := mr_seq r + 1\<rparr>"
  have "holds (Some (content_rebased_placement ?e (pr_revision res))) (Some (mr_item r2 h ?i))"
    using e item res(4,5) by (simp add: content_rebased_placement_def mr_item_def mr_revision_def Let_def)
  then have "in_step (mem_rows s') c (mr_listing r2 c)"
    using in_step_after_update[OF assms(3) res(5), of h ?i] res(6) by (simp add: s'(2) assms(8))
  moreover have "updated_at c h (o_hash obj) r r2" using i(1) res(6) by (simp add: updated_at_def)
  ultimately show ?thesis using s'(1) by blast
qed

lemma edit_sync:
  assumes "mem_inv s" "mr_inv r" "in_step m c (mr_listing r c)" "m (c, h) = Some p" "p_base p = Some b"
    "b_object b \<noteq> Some (o_hash obj)" "may_push_content opts" "mem_rows s = m((c, h) \<mapsto> edit_placement p obj mt k)"
    and r0: "follows r0 r" "in_step m c (mr_listing r0 c)" "mem_cursor s c = Some (mr_cursor r0)"
    and keyed: "\<And>h p. m (c, h) = Some p \<Longrightarrow> p_handle p = h"
  shows "\<exists>s' r'. client_sync mem_ops mem_server c opts \<lparr>cl_storage = s, cl_remote = r\<rparr>
        = Some (\<lparr>cl_storage = s', cl_remote = r'\<rparr>, Returned (Inr (pushed_edit h)))
    \<and> in_step (mem_rows s') c (mr_listing r' c) \<and> updated_at c h (o_hash obj) r r'"
proof (cases "Option.bind (if opt_full opts then None else mem_cursor s c) (\<lambda>ck. parse_usize (checkpoint_bytes ck)) = None")
  case True
  then show ?thesis by (rule edit_full_sync[OF assms(1-8)])
next
  case False
  then have opts: "\<not> opt_full opts" by auto
  then have few: "mr_seq r0 < 2 ^ 64" using False r0(3) cursor_is_number by simp
  have clean: "p_status p = Clean" "settled p" using in_step_settled[OF assms(3,4)] by simp_all
  then have "known_item (edit_placement p obj mt k) = known_item p" by (simp add: known_item_def edit_placement_plain)
  then have known: "\<forall>h'. Option.bind (mem_rows s (c, h')) known_item = mr_listing r0 c h'"
    using in_step_known[OF r0(2) keyed] assms(4) unfolding assms(8) by (metis bind.bind_lunit fun_upd_apply prod.inject)
  have "p_status (edit_placement p obj mt k) \<noteq> Clean" using clean assms(5,6) by (simp add: edit_placement_plain)
  then have settled: "\<forall>h' q. mem_rows s (c, h') = Some q \<longrightarrow> p_status q = Clean \<longrightarrow> settled q"
    using in_step_settled[OF assms(3)] unfolding assms(8) by auto
  obtain s1 s2 r' report where runs:
    "client_sync mem_ops mem_server c (opts\<lparr>opt_full := True\<rparr>) \<lparr>cl_storage = s, cl_remote = r\<rparr>
        = Some (\<lparr>cl_storage = s1, cl_remote = r'\<rparr>, Returned (Inr report))"
    "client_sync mem_ops mem_server c (opts\<lparr>opt_full := False\<rparr>) \<lparr>cl_storage = s, cl_remote = r\<rparr>
        = Some (\<lparr>cl_storage = s2, cl_remote = r'\<rparr>, Returned (Inr report))"
    "mem_rows s1 = mem_rows s2"
    using server_delta_sync[OF assms(1,2) r0(1) known settled r0(3) few, of opts] by blast
  have "opts\<lparr>opt_full := False\<rparr> = opts" using opts by (cases opts) simp
  moreover have "may_push_content (opts\<lparr>opt_full := True\<rparr>)" using assms(7) by (simp add: may_push_content_def)
  ultimately show ?thesis
    using runs edit_full_sync[OF assms(1-6) _ assms(8), of "opts\<lparr>opt_full := True\<rparr>"] by auto
qed

text \<open>
  C4: an edit made offline reaches the server. Take any history of the system, a sync of a
  collection at its end, and then an edit of one of its rows, offline and to another body than the
  one last synced. The edit succeeds without the server, and the next sync, full or incremental and
  allowed to push content, pushes one change and returns: the server then holds that member with the edited body at the
  next revision, its flags and identity as before, and no other member of any collection has
  changed; the whole collection is in step with it again, the edited row clean.
\<close>

theorem offline_edit_reaches_server:
  assumes "mr_inv r" "system_step\<^sup>*\<^sup>* \<lparr>cl_storage = mem_storage_default, cl_remote = r\<rparr> cl"
    "client_sync mem_ops mem_server c opts cl = Some (cl1, out)"
    "mem_rows (cl_storage cl1) (c, h) = Some p" "\<forall>b. p_base p = Some b \<longrightarrow> b_object b \<noteq> Some (o_hash obj)"
    "may_push_content opts'"
  shows "\<exists>cl2 cl3. client_mutate mem_ops mem_server c (MEdit h obj body m k) cl1 = Some (cl2, Returned (Inr ()))
    \<and> cl_remote cl2 = cl_remote cl1
    \<and> client_sync mem_ops mem_server c opts' cl2
        = Some (cl3, Returned (Inr (sync_report_default\<lparr>sr_pushed := 1, sr_events := [ContentChanged h]\<rparr>)))
    \<and> in_step (mem_rows (cl_storage cl3)) c (mr_listing (cl_remote cl3) c)
    \<and> updated_at c h (o_hash obj) (cl_remote cl1) (cl_remote cl3)"
proof -
  let ?s = "cl_storage cl1" and ?r = "cl_remote cl1"
  have inv: "system_inv cl1" "in_step (mem_rows ?s) c (mr_listing ?r c)"
    using system_sync[OF system_reachable_inv[OF assms(2) system_inv_new[OF assms(1)]], of c opts] assms(3) by auto
  then have store: "mem_inv ?s" "mr_inv ?r" by (simp_all add: system_inv_def)
  obtain r0 where r0: "follows r0 ?r" "in_step (mem_rows ?s) c (mr_listing r0 c)" "mem_cursor ?s c = Some (mr_cursor r0)"
    using inv(1) tracks_row[of "mem_rows ?s" "mem_cursor ?s" c ?r h p] assms(4) unfolding system_inv_def by blast
  obtain b where b: "p_base p = Some b" using in_step_settled[OF inv(2) assms(4)] by (auto simp: settled_def)
  with assms(5) have other: "b_object b \<noteq> Some (o_hash obj)" by blast
  obtain s2 where s2: "client_mutate mem_ops mem_server c (MEdit h obj body m k) \<lparr>cl_storage = ?s, cl_remote = ?r\<rparr>
      = Some (\<lparr>cl_storage = s2, cl_remote = ?r\<rparr>, Returned (Inr ()))" "mem_inv s2"
    "mem_rows s2 = (mem_rows ?s)((c, h) \<mapsto> edit_placement p obj m k)" "mem_cursor s2 = mem_cursor ?s"
    using mem_edit_stages[OF store(1) assms(4), of mem_server obj body m k ?r] by blast
  have "p_handle q = h'" if "mem_rows ?s (c, h') = Some q" for h' q using mem.keyed[OF store(1) that] by simp
  from edit_sync[OF s2(2) store(2) inv(2) assms(4) b other assms(6) s2(3) r0(1,2) r0(3)[folded s2(4)] this] s2(1)
  show ?thesis unfolding client_eta by fastforce
qed

text \<open>A member seeded, synced, and edited offline.\<close>

theorem offline_edit_reaches_server_witness:
  "\<exists>cl1 cl2 cl3 obj. client_mutate mem_ops mem_server (CollectionId ''inbox'') (MEdit (Handle ''1'') obj [9] None None) cl1
        = Some (cl2, Returned (Inr ()))
    \<and> client_sync mem_ops mem_server (CollectionId ''inbox'') sync_options_default cl2
        = Some (cl3, Returned (Inr (sync_report_default\<lparr>sr_pushed := 1, sr_events := [ContentChanged (Handle ''1'')]\<rparr>)))
    \<and> updated_at (CollectionId ''inbox'') (Handle ''1'') (o_hash obj)
        (mr_called (mr_seed ''inbox'' ''1'' ''m'' [] [7] mem_remote_default)) (cl_remote cl3)"
proof -
  let ?c = "CollectionId ''inbox''" and ?r = "mr_seed ''inbox'' ''1'' ''m'' [] [7] mem_remote_default" and ?h = "Handle ''1''"
  let ?cl = "\<lparr>cl_storage = mem_storage_default, cl_remote = ?r\<rparr>"
  have inv: "mr_inv ?r" using advances_seed mem_remote_default_inv by (auto simp: advances_def)
  obtain cl1 report where first: "client_sync mem_ops mem_server ?c sync_options_default ?cl = Some (cl1, Returned (Inr report))"
    "in_step (mem_rows (cl_storage cl1)) ?c (mr_listing ?r ?c)" "cl_remote cl1 = mr_called ?r"
    using system_sync[OF system_inv_new[OF inv], of ?c sync_options_default] by auto
  have "mr_listing ?r ?c ?h \<noteq> None" by (simp add: mr_listing_def mr_seed_def Let_def)
  then obtain p where p: "mem_rows (cl_storage cl1) (?c, ?h) = Some p"
    using first(2) by (cases "mem_rows (cl_storage cl1) (?c, ?h)") (auto simp: in_step_def dest: spec[of _ ?h])
  obtain x where x: "\<forall>b. p_base p = Some b \<longrightarrow> b_object b \<noteq> Some (Hash x)"
  proof (cases "\<exists>b. p_base p = Some b \<and> b_object b = Some (Hash ''y'')")
    case True
    with that[of "''z''"] show thesis by auto
  next
    case False
    with that[of "''y''"] show thesis by auto
  qed
  have "may_push_content sync_options_default"
    by (simp add: may_push_content_def sync_options_default_def push_rights_all_def)
  from offline_edit_reaches_server[OF inv rtranclp.rtrancl_refl first(1) p _ this, of "\<lparr>o_hash = Hash x, o_size = 1\<rparr>" "[9]" None None] x
  show ?thesis unfolding first(3) by fastforce
qed

end
