(* ===== verification/Hub.thy ===== *)
theory Hub
  imports Change
begin

text \<open>
  The multi-source hub (\<open>hub.rs\<close>): one logical item's shared content, a binding per source
  that holds it, the placements a source's load projects, and how the engine's writes fold
  back. A map is an association list in key order, so projecting visits the items in the
  order the code does.
\<close>

section \<open>Data\<close>

record source_binding =
  sb_handle :: handle
  sb_base :: "base option"
  sb_conflicted :: bool
  sb_conflict_revision :: "string option"
  sb_conflict_object :: "hash option"
  sb_shared_object :: "hash option"

datatype hub_conflict = HcManual | HcPreferIncoming | HcPreferExisting

record hub_item =
  hi_flags :: flags
  hi_object :: "hash option"
  hi_meta :: "meta option"
  hi_sort_key :: sort_key
  hi_level :: level
  hi_deleted :: bool
  hi_conflicted :: bool
  hi_conflict_object :: "hash option"
  hi_sources :: "(source_id, source_binding) btree_map"

record hub =
  hub_items :: "(link_id, hub_item) btree_map"
  hub_policy :: hub_conflict

section \<open>Projecting\<close>

definition stored_level :: "hub_item \<Rightarrow> level" where
  "stored_level i = (case hi_object i of Some _ \<Rightarrow> hi_level i | None \<Rightarrow> min (hi_level i) LvMeta)"

definition item_project :: "hub_item \<Rightarrow> collection_id \<Rightarrow> link_id \<Rightarrow> handle \<Rightarrow> placement" where
  "item_project i collection link h =
     \<lparr>p_collection = collection, p_handle = h, p_link_id = Some link, p_object = hi_object i,
      p_level = stored_level i, p_meta = hi_meta i, p_sort_key = hi_sort_key i,
      p_flags = hi_flags i, p_status = Clean, p_conflict_revision = None,
      p_conflict_object = None, p_base = None, p_origin = None\<rparr>"

definition in_sync :: "hub_item \<Rightarrow> source_binding \<Rightarrow> bool" where
  "in_sync i b \<longleftrightarrow> is_some_and (sb_base b) (\<lambda>a. b_flags a = hi_flags i \<and> b_object a = hi_object i)"

definition bound_placement :: "collection_id \<Rightarrow> link_id \<Rightarrow> hub_item \<Rightarrow> source_binding \<Rightarrow> placement" where
  "bound_placement collection link i b =
     (let st = (if sb_conflicted b then Conflict
                else if sb_base b = None \<and> hi_object i \<noteq> None then Created
                else if in_sync i b then Clean
                else Dirty)
      in (item_project i collection link (sb_handle b))
           \<lparr>p_status := st, p_conflict_revision := sb_conflict_revision b,
            p_conflict_object := sb_conflict_object b, p_base := sb_base b\<rparr>)"

definition tombstone_placement :: "collection_id \<Rightarrow> link_id \<Rightarrow> hub_item \<Rightarrow> source_binding \<Rightarrow> placement" where
  "tombstone_placement collection link i b =
     (item_project i collection link (sb_handle b))\<lparr>p_status := Tombstone, p_base := sb_base b\<rparr>"

text \<open>The handle minted for a staged copy: the link id, a control character, \<open>hub\<close>.\<close>

definition hub_handle :: "link_id \<Rightarrow> handle" where
  "hub_handle link = Handle (link_str link @ CHR 0x01 # ''hub'')"

definition created_placement :: "collection_id \<Rightarrow> link_id \<Rightarrow> hub_item \<Rightarrow> placement option" where
  "created_placement collection link i =
     (case hi_object i of
        None \<Rightarrow> None
      | Some _ \<Rightarrow>
          Some ((item_project i collection link (hub_handle link))
                  \<lparr>p_status := Created, p_level := LvFull\<rparr>))"

definition project_item :: "collection_id \<Rightarrow> source_id \<Rightarrow> link_id \<Rightarrow> hub_item \<Rightarrow> placement option" where
  "project_item collection source link i =
     (case (hi_deleted i, map_of (hi_sources i) source) of
        (True, Some b) \<Rightarrow> Some (tombstone_placement collection link i b)
      | (True, None) \<Rightarrow> None
      | (False, Some b) \<Rightarrow> Some (bound_placement collection link i b)
      | (False, None) \<Rightarrow> created_placement collection link i)"

definition hub_project :: "collection_id \<Rightarrow> source_id \<Rightarrow> hub \<Rightarrow> placement list" where
  "hub_project collection source h =
     List.map_filter (\<lambda>(link, i). project_item collection source link i) (hub_items h)"

section \<open>Absorbing\<close>

definition binding_of :: "placement \<Rightarrow> hash option \<Rightarrow> source_binding" where
  "binding_of p shared =
     (let conflicted = (p_status p = Conflict)
      in \<lparr>sb_handle = p_handle p, sb_base = p_base p, sb_conflicted = conflicted,
          sb_conflict_revision = (if conflicted then p_conflict_revision p else None),
          sb_conflict_object = (if conflicted then p_conflict_object p else None),
          sb_shared_object = shared\<rparr>)"

text \<open>The body the source last synced, and the shared body it last reconciled against.\<close>

definition prev_object :: "source_binding option \<Rightarrow> hash option" where
  "prev_object b = Option.bind (Option.bind b sb_base) b_object"

definition agreed_object :: "source_binding option \<Rightarrow> hash option" where
  "agreed_object b = option_or (Option.bind b sb_shared_object) (prev_object b)"

definition hub_reconcile_content :: "source_id \<Rightarrow> placement \<Rightarrow> hub_conflict \<Rightarrow> hub_item \<Rightarrow> hub_item" where
  "hub_reconcile_content source p policy i =
     (let b = map_of (hi_sources i) source;
          shared = hi_object i;
          incoming = p_object p;
          resolving = is_some_and b sb_conflicted \<and> p_status p \<noteq> Conflict;
          source_edited = (incoming \<noteq> prev_object b \<or> resolving);
          hub_moved = (shared \<noteq> agreed_object b);
          body_changed = (incoming \<noteq> shared);
          diverged = (source_edited \<and> hub_moved \<and> body_changed \<and> incoming \<noteq> None \<and> shared \<noteq> None)
      in if diverged then
           (case policy of
              HcManual \<Rightarrow> i\<lparr>hi_conflicted := True, hi_conflict_object := incoming\<rparr>
            | HcPreferIncoming \<Rightarrow>
                i\<lparr>hi_object := incoming, hi_conflicted := False, hi_conflict_object := None\<rparr>
            | HcPreferExisting \<Rightarrow> i\<lparr>hi_conflicted := False, hi_conflict_object := None\<rparr>)
         else if source_edited \<and> \<not> hub_moved \<and> body_changed then
           i\<lparr>hi_object := incoming, hi_conflicted := False, hi_conflict_object := None\<rparr>
         else i)"

definition hub_item_new :: "placement \<Rightarrow> hub_item" where
  "hub_item_new p =
     \<lparr>hi_flags = p_flags p, hi_object = p_object p, hi_meta = p_meta p, hi_sort_key = p_sort_key p,
      hi_level = p_level p, hi_deleted = False, hi_conflicted = False, hi_conflict_object = None,
      hi_sources = []\<rparr>"

text \<open>The shared fields a live upsert adopts before the bodies are reconciled.\<close>

definition adopt_shared :: "placement \<Rightarrow> hub_item \<Rightarrow> hub_item" where
  "adopt_shared p i =
     i\<lparr>hi_deleted := False,
       hi_flags := (if flags_is_unknown (p_flags p) then hi_flags i else p_flags p),
       hi_meta := (if p_meta p \<noteq> None then p_meta p else hi_meta i),
       hi_sort_key := (if sort_key_is_unknown (p_sort_key p) then hi_sort_key i else p_sort_key p),
       hi_level := max (hi_level i) (p_level p)\<rparr>"

definition upsert_item :: "source_id \<Rightarrow> placement \<Rightarrow> hub_conflict \<Rightarrow> hub_item \<Rightarrow> hub_item" where
  "upsert_item source p policy i =
     (if p_status p = Tombstone then
        (let agreed = Option.bind (map_of (hi_sources i) source) sb_shared_object
         in i\<lparr>hi_deleted := True,
              hi_sources := bt_insert source (binding_of p agreed) (hi_sources i)\<rparr>)
      else
        (let i = hub_reconcile_content source p policy (adopt_shared p i);
             i = i\<lparr>hi_level := stored_level i\<rparr>
         in i\<lparr>hi_sources := bt_insert source (binding_of p (hi_object i)) (hi_sources i)\<rparr>))"

definition absorb_upsert :: "source_id \<Rightarrow> placement \<Rightarrow> hub \<Rightarrow> hub" where
  "absorb_upsert source p h =
     (case p_link_id p of
        None \<Rightarrow> h
      | Some link \<Rightarrow>
          (let i = (case map_of (hub_items h) link of Some i \<Rightarrow> i | None \<Rightarrow> hub_item_new p)
           in h\<lparr>hub_items := bt_insert link (upsert_item source p (hub_policy h) i) (hub_items h)\<rparr>))"

definition drop_item :: "source_id \<Rightarrow> handle \<Rightarrow> drop_reason \<Rightarrow> hub_item \<Rightarrow> hub_item" where
  "drop_item source hn reason i =
     (if is_some_and (map_of (hi_sources i) source) (\<lambda>b. sb_handle b = hn) then
        i\<lparr>hi_deleted := (hi_deleted i \<or> reason = Deleted),
          hi_sources := bt_remove source (hi_sources i)\<rparr>
      else i)"

definition absorb_drop :: "source_id \<Rightarrow> handle \<Rightarrow> drop_reason \<Rightarrow> hub \<Rightarrow> hub" where
  "absorb_drop source hn reason h =
     h\<lparr>hub_items := map (\<lambda>(link, i). (link, drop_item source hn reason i)) (hub_items h)\<rparr>"

fun absorb_op :: "source_id \<Rightarrow> write_op \<Rightarrow> hub \<Rightarrow> hub" where
  "absorb_op source (UpsertPlacement p) h = absorb_upsert source p h"
| "absorb_op source (DropPlacement c hn reason) h = absorb_drop source hn reason h"
| "absorb_op source (StoreObject obj b) h = h"
| "absorb_op source (SetCheckpoint c ck) h = h"

definition retain_bound :: "hub \<Rightarrow> hub" where
  "retain_bound h = h\<lparr>hub_items := filter (\<lambda>(_, i). hi_sources i \<noteq> []) (hub_items h)\<rparr>"

definition absorb :: "source_id \<Rightarrow> write_op list \<Rightarrow> hub \<Rightarrow> hub" where
  "absorb source ops h = retain_bound (fold (absorb_op source) ops h)"

section \<open>Lookups and well-formedness\<close>

definition hub_wf :: "hub \<Rightarrow> bool" where
  "hub_wf h \<longleftrightarrow> bt_wf (hub_items h) \<and> (\<forall>i \<in> snd ` set (hub_items h). bt_wf (hi_sources i))"

definition binding_at :: "hub \<Rightarrow> link_id \<Rightarrow> source_id \<Rightarrow> source_binding option" where
  "binding_at h link source = Option.bind (map_of (hub_items h) link) (\<lambda>i. map_of (hi_sources i) source)"

lemma hub_reconcile_content_frame [simp]:
  "hi_sources (hub_reconcile_content s p policy i) = hi_sources i"
  "hi_deleted (hub_reconcile_content s p policy i) = hi_deleted i"
  "hi_flags (hub_reconcile_content s p policy i) = hi_flags i"
  "hi_meta (hub_reconcile_content s p policy i) = hi_meta i"
  "hi_sort_key (hub_reconcile_content s p policy i) = hi_sort_key i"
  "hi_level (hub_reconcile_content s p policy i) = hi_level i"
  by (auto simp: hub_reconcile_content_def Let_def split: hub_conflict.split)

lemma adopt_shared_frame [simp]:
  "hi_sources (adopt_shared p i) = hi_sources i" "hi_object (adopt_shared p i) = hi_object i"
  "hi_conflicted (adopt_shared p i) = hi_conflicted i"
  "hi_conflict_object (adopt_shared p i) = hi_conflict_object i"
  "hi_deleted (adopt_shared p i) = False"
  by (simp_all add: adopt_shared_def)

lemma upsert_item_sources:
  "\<exists>shared. hi_sources (upsert_item s p policy i) = bt_insert s (binding_of p shared) (hi_sources i)"
  by (auto simp: upsert_item_def Let_def)

lemma bt_wf_upsert_item: "bt_wf (hi_sources i) \<Longrightarrow> bt_wf (hi_sources (upsert_item s p policy i))"
  using upsert_item_sources[of s p policy i] by auto

lemma upsert_item_others:
  "s' \<noteq> s \<Longrightarrow> map_of (hi_sources (upsert_item s p policy i)) s' = map_of (hi_sources i) s'"
  using upsert_item_sources[of s p policy i] by auto

lemma drop_item_sources:
  "bt_wf (hi_sources i) \<Longrightarrow> bt_wf (hi_sources (drop_item s hn reason i))"
  "s' \<noteq> s \<Longrightarrow> map_of (hi_sources (drop_item s hn reason i)) s' = map_of (hi_sources i) s'"
  by (auto simp: drop_item_def)

lemma map_of_map_values: "map_of (map (\<lambda>(k, v). (k, f v)) m) k = map_option f (map_of m k)"
  by (induction m) auto

lemma map_of_filter_values:
  "bt_wf m \<Longrightarrow> map_of (filter (\<lambda>(_, v). P v) m) k
     = (case map_of m k of Some v \<Rightarrow> if P v then Some v else None | None \<Rightarrow> None)"
  by (induction m) (fastforce simp: bt_wf_def weak_map_of_SomeI split: option.splits dest: map_of_SomeD)+

lemma hub_wf_item: "hub_wf h \<Longrightarrow> map_of (hub_items h) l = Some i \<Longrightarrow> bt_wf (hi_sources i)"
  by (force simp: hub_wf_def dest: map_of_SomeD)

lemma set_bt_insert: "set (bt_insert k v m) \<subseteq> insert (k, v) (set m)"
  by (induction k v m rule: bt_insert.induct) auto

lemma absorb_op_wf: "hub_wf h \<Longrightarrow> hub_wf (absorb_op s op h)"
proof (cases op)
  case (UpsertPlacement p)
  assume wf: "hub_wf h"
  show ?thesis
  proof (cases "p_link_id p")
    case (Some l)
    define i where "i = (case map_of (hub_items h) l of Some i \<Rightarrow> i | None \<Rightarrow> hub_item_new p)"
    have "bt_wf (hi_sources i)"
      using hub_wf_item[OF wf, of l] by (auto simp: i_def hub_item_new_def split: option.split)
    with wf set_bt_insert[of l "upsert_item s p (hub_policy h) i" "hub_items h"]
    have "hub_wf (h\<lparr>hub_items := bt_insert l (upsert_item s p (hub_policy h) i) (hub_items h)\<rparr>)"
      using bt_wf_upsert_item by (fastforce simp: hub_wf_def)
    with UpsertPlacement Some show ?thesis by (simp add: absorb_upsert_def i_def)
  qed (use UpsertPlacement wf in \<open>simp add: absorb_upsert_def\<close>)
next
  case (DropPlacement c hn reason)
  assume "hub_wf h"
  with DropPlacement show ?thesis
    by (force simp: hub_wf_def absorb_drop_def bt_wf_def comp_def case_prod_unfold
          intro: drop_item_sources(1)[unfolded bt_wf_def])
qed simp_all

lemma absorb_op_binding:
  assumes "s' \<noteq> s" shows "binding_at (absorb_op s op h) l s' = binding_at h l s'"
proof (cases op)
  case (UpsertPlacement p)
  with assms show ?thesis
    by (auto simp: binding_at_def absorb_upsert_def upsert_item_others hub_item_new_def
          split: option.split)
next
  case (DropPlacement c hn reason)
  with assms show ?thesis
    by (auto simp: binding_at_def absorb_drop_def map_of_map_values drop_item_sources(2)
          bind_map_option comp_def)
qed simp_all

lemma absorb_ops_wf: "hub_wf h \<Longrightarrow> hub_wf (fold (absorb_op s) ops h)"
  by (induction ops arbitrary: h) (auto intro: absorb_op_wf)

lemma absorb_ops_binding:
  "s' \<noteq> s \<Longrightarrow> binding_at (fold (absorb_op s) ops h) l s' = binding_at h l s'"
  by (induction ops arbitrary: h) (simp_all add: absorb_op_binding)

lemma retain_item:
  "hub_wf h \<Longrightarrow> map_of (hub_items (retain_bound h)) l
     = (case map_of (hub_items h) l of
          Some i \<Rightarrow> if hi_sources i \<noteq> [] then Some i else None | None \<Rightarrow> None)"
  by (simp add: retain_bound_def hub_wf_def map_of_filter_values)

lemma retain_wf: "hub_wf h \<Longrightarrow> hub_wf (retain_bound h)"
  by (auto simp: hub_wf_def retain_bound_def bt_wf_filter)

lemma retain_binding: "hub_wf h \<Longrightarrow> binding_at (retain_bound h) l s = binding_at h l s"
  by (auto simp: binding_at_def retain_item split: option.split)

lemma mem_hub_project:
  "hub_wf h \<Longrightarrow> p \<in> set (hub_project c s h) \<longleftrightarrow>
     (\<exists>l i. map_of (hub_items h) l = Some i \<and> project_item c s l i = Some p)"
  by (force simp: hub_project_def List.map_filter_def hub_wf_def bt.mem_entries[symmetric])

section \<open>Several sources\<close>

text \<open>The item an upsert leaves under its link.\<close>

definition absorbed_item :: "source_id \<Rightarrow> placement \<Rightarrow> link_id \<Rightarrow> hub \<Rightarrow> hub_item" where
  "absorbed_item s p l h =
     upsert_item s p (hub_policy h)
       (case map_of (hub_items h) l of Some i \<Rightarrow> i | None \<Rightarrow> hub_item_new p)"

lemma bt_insert_not_Nil [simp]: "bt_insert k v m \<noteq> []"
  by (induction k v m rule: bt_insert.induct) auto

lemma absorb_upsert_item:
  assumes "hub_wf h" "p_link_id p = Some l"
  shows "map_of (hub_items (absorb s [UpsertPlacement p] h)) l = Some (absorbed_item s p l h)"
proof -
  have "hub_wf (absorb_upsert s p h)" using absorb_op_wf[of h s "UpsertPlacement p"] assms(1) by simp
  moreover have "hi_sources (absorbed_item s p l h) \<noteq> []"
    using upsert_item_sources unfolding absorbed_item_def by (metis bt_insert_not_Nil)
  ultimately show ?thesis
    using assms(2) by (simp add: absorb_def retain_item absorb_upsert_def absorbed_item_def)
qed

lemma absorb_wf: "hub_wf h \<Longrightarrow> hub_wf (absorb s ops h)"
  by (simp add: absorb_def retain_wf absorb_ops_wf)

lemma absorb_policy [simp]: "hub_policy (absorb s ops h) = hub_policy h"
proof -
  have "hub_policy (absorb_op s op h) = hub_policy h" for op h
    by (cases op) (auto simp: absorb_upsert_def absorb_drop_def split: option.split)
  then have "hub_policy (fold (absorb_op s) ops h) = hub_policy h" for h
    by (induction ops arbitrary: h) simp_all
  then show ?thesis by (simp add: absorb_def retain_bound_def)
qed

text \<open>The hub the witnesses start from: one item, held by a left and a right source.\<close>

definition sample_binding :: "string \<Rightarrow> source_binding" where
  "sample_binding h =
     \<lparr>sb_handle = Handle h, sb_base = Some sample_base, sb_conflicted = False,
      sb_conflict_revision = None, sb_conflict_object = None, sb_shared_object = Some (Hash ''x'')\<rparr>"

definition sample_hub_item :: hub_item where
  "sample_hub_item =
     \<lparr>hi_flags = flags_default, hi_object = Some (Hash ''x''), hi_meta = None,
      hi_sort_key = sort_key_default, hi_level = LvFull, hi_deleted = False, hi_conflicted = False,
      hi_conflict_object = None,
      hi_sources = [(SourceId ''l'', sample_binding ''1''), (SourceId ''r'', sample_binding ''2'')]\<rparr>"

definition sample_hub :: hub where
  "sample_hub = \<lparr>hub_items = [(LinkId ''m'', sample_hub_item)], hub_policy = HcManual\<rparr>"

lemma sample_hub_wf: "hub_wf sample_hub"
  by (simp add: hub_wf_def sample_hub_def sample_hub_item_def bt_wf_def less_char_def)

lemma sample_hub_sources [simp]:
  "map_of (hi_sources sample_hub_item) (SourceId ''l'') = Some (sample_binding ''1'')"
  "map_of (hi_sources sample_hub_item) (SourceId ''r'') = Some (sample_binding ''2'')"
  "map_of (hub_items sample_hub) (LinkId ''m'') = Some sample_hub_item"
  by (simp_all add: sample_hub_item_def sample_hub_def)

text \<open>
  C34: absorbing a source's writes is private to that source. Whatever batch it writes, the
  binding every other source holds of every item (its handle, its base, its conflict) is
  the one it had, the hub stays well-formed, and no item is left that no source holds.
\<close>

theorem absorb_other_sources:
  assumes "hub_wf h" and "s' \<noteq> s"
  shows "hub_wf (absorb s ops h)
    \<and> binding_at (absorb s ops h) l s' = binding_at h l s'
    \<and> (\<forall>i. map_of (hub_items (absorb s ops h)) l = Some i \<longrightarrow> hi_sources i \<noteq> [])"
  using assms
  by (auto simp: absorb_def retain_wf absorb_ops_wf retain_binding absorb_ops_binding retain_item
        split: option.splits if_splits)

theorem absorb_other_sources_witness:
  "binding_at (absorb (SourceId ''l'') [DropPlacement (CollectionId ''c'') (Handle ''1'') Deleted] sample_hub)
     (LinkId ''m'') (SourceId ''r'') = Some (sample_binding ''2'')"
  using absorb_other_sources[OF sample_hub_wf, of "SourceId ''r''" "SourceId ''l''"
      "[DropPlacement (CollectionId ''c'') (Handle ''1'') Deleted]" "LinkId ''m''"]
  by (simp add: binding_at_def)

text \<open>
  A genuine delete propagates and a superseded row does not. When a source drops the
  handle it holds an item under, the other source still bound to that item is projected a
  tombstone keeping the item's content and its own base, and the source that dropped it is
  projected nothing; when the drop only superseded the handle, the other source is
  projected exactly what it was before.
\<close>

theorem absorb_drop_propagates:
  assumes "hub_wf h" "s' \<noteq> s" "map_of (hub_items h) l = Some i"
    "map_of (hi_sources i) s = Some b" "map_of (hi_sources i) s' = Some b'"
  shows "(\<exists>i'. map_of (hub_items (absorb s [DropPlacement c (sb_handle b) Deleted] h)) l = Some i'
            \<and> project_item c s l i' = None
            \<and> project_item c s' l i' = Some (tombstone_placement c l i b'))
       \<and> (\<exists>i'. map_of (hub_items (absorb s [DropPlacement c (sb_handle b) Superseded] h)) l = Some i'
            \<and> project_item c s' l i' = project_item c s' l i)"
proof -
  have wf: "hub_wf (absorb_drop s (sb_handle b) r h)" for r
    using absorb_op_wf[OF assms(1), of s "DropPlacement c (sb_handle b) r"] by simp
  have "bt_remove s (hi_sources i) \<noteq> []"
    using assms(2,5) by (metis bt_get_remove fun_upd_other map_of.simps(1) option.distinct(1))
  then have item: "map_of (hub_items (absorb s [DropPlacement c (sb_handle b) r] h)) l
      = Some (i\<lparr>hi_deleted := (hi_deleted i \<or> r = Deleted), hi_sources := bt_remove s (hi_sources i)\<rparr>)"
    for r
    using assms(3,4) wf
    by (simp add: absorb_def retain_item absorb_drop_def map_of_map_values drop_item_def)
  show ?thesis
    using assms(2,5) unfolding item
    by (auto simp: project_item_def tombstone_placement_def item_project_def stored_level_def
          bound_placement_def in_sync_def Let_def split: option.splits bool.splits)
qed

theorem absorb_drop_propagates_witness:
  "\<exists>i'. map_of (hub_items (absorb (SourceId ''l'')
        [DropPlacement (CollectionId ''c'') (sb_handle (sample_binding ''1'')) Deleted] sample_hub)) (LinkId ''m'') = Some i'
     \<and> project_item (CollectionId ''c'') (SourceId ''l'') (LinkId ''m'') i' = None
     \<and> project_item (CollectionId ''c'') (SourceId ''r'') (LinkId ''m'') i'
       = Some (tombstone_placement (CollectionId ''c'') (LinkId ''m'') sample_hub_item (sample_binding ''2''))"
proof -
  have "SourceId ''r'' \<noteq> SourceId ''l''" by simp
  from absorb_drop_propagates[OF sample_hub_wf this sample_hub_sources(3,1,2)]
  show ?thesis by blast
qed

section \<open>The round trip of one source\<close>

text \<open>What a projection reports of a placement absorbed from the same source.\<close>

definition reprojected :: "collection_id \<Rightarrow> placement \<Rightarrow> placement" where
  "reprojected c p =
     p\<lparr>p_collection := c, p_origin := None,
       p_level := (if p_object p = None then min (p_level p) LvMeta else p_level p),
       p_status :=
         (if p_status p = Conflict then Conflict
          else if p_base p = None \<and> p_object p \<noteq> None then Created
          else if is_some_and (p_base p) (\<lambda>a. b_flags a = p_flags p \<and> b_object a = p_object p) then Clean
          else Dirty),
       p_conflict_revision := (if p_status p = Conflict then p_conflict_revision p else None),
       p_conflict_object := (if p_status p = Conflict then p_conflict_object p else None)\<rparr>"

lemma adopt_shared_new: "adopt_shared p (hub_item_new p) = hub_item_new p"
  by (cases "p_meta p") (auto intro: hub_item.equality simp: adopt_shared_def hub_item_new_def)

lemma hub_reconcile_content_same:
  "hi_object i = p_object p \<Longrightarrow> hub_reconcile_content s p policy i = i"
  by (simp add: hub_reconcile_content_def Let_def)

lemma hub_item_new_object [simp]: "hi_object (hub_item_new p) = p_object p"
  by (simp add: hub_item_new_def)

lemma fresh_upsert_item:
  assumes "p_status p \<noteq> Tombstone"
  shows "upsert_item s p policy (hub_item_new p)
    = (hub_item_new p)\<lparr>hi_level := stored_level (hub_item_new p),
        hi_sources := [(s, binding_of p (p_object p))]\<rparr>"
  using assms
  by (simp add: upsert_item_def adopt_shared_new hub_reconcile_content_same Let_def)
    (simp add: hub_item_new_def)

text \<open>
  C35: a storage over the hub is faithful to the engine that wrote through it. The first
  upsert of an item, absorbed from a source and projected back to it, is the placement that
  was written: every content field, the base and the handle are kept, and the status is
  recomputed from them, with a pending conflict and what it observed kept and a pending
  create read back as one, never as dirty.
\<close>

theorem absorb_project_roundtrip:
  assumes "hub_wf h" "p_link_id p = Some l" "map_of (hub_items h) l = None" "p_status p \<noteq> Tombstone"
  shows "reprojected c p \<in> set (hub_project c s (absorb s [UpsertPlacement p] h))"
proof -
  let ?i = "absorbed_item s p l h"
  have item: "map_of (hub_items (absorb s [UpsertPlacement p] h)) l = Some ?i"
    using assms(1,2) by (rule absorb_upsert_item)
  have i: "?i = (hub_item_new p)\<lparr>hi_level := stored_level (hub_item_new p),
      hi_sources := [(s, binding_of p (p_object p))]\<rparr>"
    using assms(3,4) by (simp add: absorbed_item_def fresh_upsert_item)
  have "project_item c s l ?i = Some (reprojected c p)"
    unfolding i
    by (auto intro!: placement.equality
          simp: project_item_def bound_placement_def item_project_def reprojected_def hub_item_new_def
          binding_of_def in_sync_def stored_level_def Let_def assms(2) split: option.split)
  with item show ?thesis
    using mem_hub_project[OF absorb_wf[OF assms(1)]] by blast
qed

theorem absorb_project_roundtrip_witness:
  "reprojected (CollectionId ''c'') (sample_placement ''7'')
     \<in> set (hub_project (CollectionId ''c'') (SourceId ''l'')
          (absorb (SourceId ''l'') [UpsertPlacement (sample_placement ''7'')] sample_hub))"
  by (rule absorb_project_roundtrip[OF sample_hub_wf, of _ "LinkId ''7''"])
    (simp_all add: sample_placement_def sample_hub_def)

section \<open>Reconciling the shared body\<close>

lemma upsert_item_live:
  assumes "p_status p \<noteq> Tombstone"
  shows "hi_object (upsert_item s p policy i) = hi_object (hub_reconcile_content s p policy (adopt_shared p i))"
    "hi_conflicted (upsert_item s p policy i) = hi_conflicted (hub_reconcile_content s p policy (adopt_shared p i))"
    "hi_conflict_object (upsert_item s p policy i)
       = hi_conflict_object (hub_reconcile_content s p policy (adopt_shared p i))"
    "hi_flags (upsert_item s p policy i) = (if flags_is_unknown (p_flags p) then hi_flags i else p_flags p)"
    "hi_deleted (upsert_item s p policy i) = False"
    "map_of (hi_sources (upsert_item s p policy i)) s
       = Some (binding_of p (hi_object (upsert_item s p policy i)))"
  using assms by (simp_all add: upsert_item_def Let_def) (simp add: adopt_shared_def)

lemma binding_of_simps [simp]:
  "sb_handle (binding_of p shared) = p_handle p" "sb_base (binding_of p shared) = p_base p"
  "sb_shared_object (binding_of p shared) = shared"
  "sb_conflicted (binding_of p shared) \<longleftrightarrow> p_status p = Conflict"
  by (simp_all add: binding_of_def Let_def)

text \<open>A source that agrees with the shared body folds its own in, whatever the policy.\<close>

lemma reconcile_unmoved:
  assumes "hi_object i = agreed_object (map_of (hi_sources i) s)"
  shows "hub_reconcile_content s p policy i
    = (if (p_object p \<noteq> prev_object (map_of (hi_sources i) s)
            \<or> is_some_and (map_of (hi_sources i) s) sb_conflicted \<and> p_status p \<noteq> Conflict)
          \<and> p_object p \<noteq> hi_object i
       then i\<lparr>hi_object := p_object p, hi_conflicted := False, hi_conflict_object := None\<rparr> else i)"
  using assms by (simp add: hub_reconcile_content_def Let_def)


text \<open>An edit of the sample item staged at a source.\<close>

definition sample_edit :: "string \<Rightarrow> string \<Rightarrow> placement" where
  "sample_edit h y = (sample_placement h)\<lparr>p_status := Dirty, p_object := Some (Hash y)\<rparr>"

lemma sample_edit_fields [simp]:
  "p_status (sample_edit h y) = Dirty" "p_object (sample_edit h y) = Some (Hash y)"
  "p_base (sample_edit h y) = Some sample_base"
  by (simp_all add: sample_edit_def sample_placement_def)



text \<open>
  Two sources editing the same body. The first edit is adopted and reads as locally
  dirty at the other source, against that source's own base, so that its next sync pushes
  it. The second edit is a cross-source conflict and the policy decides: keeping the shared
  body and recording the diverging one, adopting the incoming one, or keeping the shared one.
\<close>

theorem absorb_two_edits:
  assumes "p_status p \<noteq> Tombstone" "p_status p' \<noteq> Tombstone" "s \<noteq> s'"
    "map_of (hi_sources i) s = Some b" "map_of (hi_sources i) s' = Some b'"
    "\<not> sb_conflicted b'" "sb_base b' = Some a'" "b_object a' = Some x"
    "hi_object i = Some x" "agreed_object (Some b) = Some x" "agreed_object (Some b') = Some x"
    "prev_object (Some b) = Some x"
    "p_object p = Some y" "p_object p' = Some z" "distinct [x, y, z]"
  shows "(\<exists>q. project_item c s' l (upsert_item s p policy i) = Some q \<and> p_status q = Dirty
            \<and> p_object q = Some y \<and> p_base q = sb_base b' \<and> p_handle q = sb_handle b')
    \<and> (hi_object (upsert_item s' p' policy (upsert_item s p policy i)),
        hi_conflicted (upsert_item s' p' policy (upsert_item s p policy i)),
        hi_conflict_object (upsert_item s' p' policy (upsert_item s p policy i)))
      = (case policy of
           HcManual \<Rightarrow> (Some y, True, Some z)
         | HcPreferIncoming \<Rightarrow> (Some z, False, None)
         | HcPreferExisting \<Rightarrow> (Some y, False, None))"
proof -
  let ?i = "upsert_item s p policy i"
  have first: "hi_object ?i = Some y"
    using assms by (auto simp: upsert_item_live(1) hub_reconcile_content_def Let_def)
  have other: "map_of (hi_sources ?i) s' = Some b'"
    using assms(3,5) by (simp add: upsert_item_others)
  have "prev_object (Some b') = Some x"
    using assms(7,8) by (simp add: prev_object_def)
  with first other assms(2,11,14,15)
  have "(hi_object (upsert_item s' p' policy ?i), hi_conflicted (upsert_item s' p' policy ?i),
        hi_conflict_object (upsert_item s' p' policy ?i))
      = (case policy of
           HcManual \<Rightarrow> (Some y, True, Some z)
         | HcPreferIncoming \<Rightarrow> (Some z, False, None)
         | HcPreferExisting \<Rightarrow> (Some y, False, None))"
    by (auto simp: upsert_item_live(1-3) hub_reconcile_content_def Let_def split: hub_conflict.split)
  moreover have "\<exists>q. project_item c s' l ?i = Some q \<and> p_status q = Dirty
      \<and> p_object q = Some y \<and> p_base q = sb_base b' \<and> p_handle q = sb_handle b'"
    using first other assms
    by (auto simp: project_item_def upsert_item_live(5) bound_placement_def in_sync_def item_project_def)
  ultimately show ?thesis by simp
qed

theorem absorb_two_edits_witness:
  "hi_conflicted (upsert_item (SourceId ''r'') (sample_edit ''2'' ''z'') HcManual
     (upsert_item (SourceId ''l'') (sample_edit ''1'' ''y'') HcManual sample_hub_item))"
proof -
  have "p_status (sample_edit ''1'' ''y'') \<noteq> Tombstone" "p_status (sample_edit ''2'' ''z'') \<noteq> Tombstone"
    "SourceId ''l'' \<noteq> SourceId ''r''"
    "map_of (hi_sources sample_hub_item) (SourceId ''l'') = Some (sample_binding ''1'')"
    "map_of (hi_sources sample_hub_item) (SourceId ''r'') = Some (sample_binding ''2'')"
    "\<not> sb_conflicted (sample_binding ''2'')" "sb_base (sample_binding ''2'') = Some sample_base"
    "b_object sample_base = Some (Hash ''x'')" "hi_object sample_hub_item = Some (Hash ''x'')"
    "agreed_object (Some (sample_binding ''1'')) = Some (Hash ''x'')"
    "agreed_object (Some (sample_binding ''2'')) = Some (Hash ''x'')"
    "prev_object (Some (sample_binding ''1'')) = Some (Hash ''x'')"
    "p_object (sample_edit ''1'' ''y'') = Some (Hash ''y'')" "p_object (sample_edit ''2'' ''z'') = Some (Hash ''z'')"
    "distinct [Hash ''x'', Hash ''y'', Hash ''z'']"
    by (simp_all add: sample_binding_def sample_base_def agreed_object_def prev_object_def)
      (simp add: sample_hub_item_def)
  from absorb_two_edits[OF this, of "CollectionId ''c''" "LinkId ''m''" HcManual] show ?thesis by simp
qed

text \<open>
  C28: propagation converges. A source writes an item in agreement with its remote: clean, with
  its flags and its body as its base, the flags known. The hub takes that body when it is the
  shared one already, or when it is not the one this source synced before and either the source
  had agreed with the shared body or incoming bodies are preferred over another one. Then
  another source that writes the same flags and body, in agreement with its own remote, leaves
  both projected the item clean, each under its own handle and base and with that body and
  those flags, so neither pushes it again. (A source that had not agreed is a conflict under
  the other policies, and is left to the policy.)
\<close>

theorem absorb_converges:
  assumes "s \<noteq> s'" "p_status p = Clean" "p_status p' = Clean"
    "p_object p = hi_object i
     \<or> p_object p \<noteq> prev_object (map_of (hi_sources i) s)
       \<and> (hi_object i = agreed_object (map_of (hi_sources i) s)
          \<or> policy = HcPreferIncoming \<and> p_object p \<noteq> None \<and> hi_object i \<noteq> None)"
    "p_flags p \<noteq> Unknown" "p_flags p' = p_flags p" "p_object p' = p_object p"
    "p_base p = Some a" "b_flags a = p_flags p" "b_object a = p_object p"
    "p_base p' = Some a'" "b_flags a' = p_flags p" "b_object a' = p_object p"
  defines "j \<equiv> upsert_item s' p' policy (upsert_item s p policy i)"
  shows "\<exists>q q'. project_item c s l j = Some q \<and> project_item c s' l j = Some q'
    \<and> p_status q = Clean \<and> p_handle q = p_handle p \<and> p_base q = Some a \<and> p_flags q = p_flags p \<and> p_object q = p_object p
    \<and> p_status q' = Clean \<and> p_handle q' = p_handle p' \<and> p_base q' = Some a' \<and> p_flags q' = p_flags p \<and> p_object q' = p_object p"
proof -
  let ?i = "upsert_item s p policy i"
  have live: "p_status p \<noteq> Tombstone" "p_status p' \<noteq> Tombstone" using assms(2,3) by simp_all
  have known: "\<not> flags_is_unknown (p_flags p)" using assms(5) by (cases "p_flags p") simp_all
  have obj: "hi_object ?i = p_object p"
  proof -
    have "hi_object (hub_reconcile_content s p policy (adopt_shared p i)) = p_object p"
      using assms(4)
    proof (elim disjE conjE)
      assume "p_object p \<noteq> prev_object (map_of (hi_sources i) s)" "policy = HcPreferIncoming"
        "p_object p \<noteq> None" "hi_object i \<noteq> None"
      then show ?thesis by (simp add: hub_reconcile_content_def Let_def)
    qed (simp_all add: hub_reconcile_content_same reconcile_unmoved)
    then show ?thesis by (simp add: upsert_item_live(1)[OF live(1)])
  qed
  then have obj2: "hi_object j = p_object p"
    using assms(7) by (simp add: j_def upsert_item_live(1)[OF live(2)] hub_reconcile_content_same)
  have flags: "hi_flags j = p_flags p"
    using known assms(6) by (simp add: j_def upsert_item_live(4) live)
  have at_s: "map_of (hi_sources j) s = Some (binding_of p (p_object p))"
    using assms(1) obj by (simp add: j_def upsert_item_others upsert_item_live(6) live)
  have at_s': "map_of (hi_sources j) s' = Some (binding_of p' (p_object p))"
    using obj2 by (simp add: j_def upsert_item_live(6) live)
  have "\<not> hi_deleted j" by (simp add: j_def upsert_item_live(5)[OF live(2)])
  then show ?thesis
    using assms(2,3,8-13) obj2 flags at_s at_s'
    by (simp add: project_item_def bound_placement_def item_project_def in_sync_def)
qed

theorem absorb_converges_witness:
  "\<exists>q. project_item (CollectionId ''c'') (SourceId ''r'') (LinkId ''m'')
     (upsert_item (SourceId ''r'') (sample_placement ''2'') HcManual
       (upsert_item (SourceId ''l'') (sample_placement ''1'') HcManual sample_hub_item)) = Some q
   \<and> p_status q = Clean \<and> p_handle q = Handle ''2''"
proof -
  have same: "p_object (sample_placement ''1'') = hi_object sample_hub_item"
    by (simp add: sample_placement_def sample_hub_item_def)
  have "SourceId ''l'' \<noteq> SourceId ''r''" "p_status (sample_placement ''1'') = Clean"
    "p_status (sample_placement ''2'') = Clean"
    by (simp_all add: sample_placement_def)
  from absorb_converges[OF this disjI1[OF same], of sample_base sample_base "CollectionId ''c''" "LinkId ''m''" HcManual]
  show ?thesis by (auto simp: sample_defs)
qed

text \<open>
  An edit staged at a source while the shared body is gone is dropped. When another
  source refreshed the item and its new body is not fetched yet, the shared body is absent
  and differs from the one this source agreed with; its live upsert with a body of its own
  is then neither adopted nor recorded as a conflict, under any policy.
\<close>

theorem absorb_edit_over_refreshed_body:
  assumes "p_status p \<noteq> Tombstone" "hi_object i = None" "agreed_object (map_of (hi_sources i) s) = Some x"
    "p_object p = Some y"
  shows "hi_object (upsert_item s p policy i) = None
    \<and> hi_conflicted (upsert_item s p policy i) = hi_conflicted i
    \<and> hi_conflict_object (upsert_item s p policy i) = hi_conflict_object i"
  using assms by (simp add: upsert_item_live(1-3) hub_reconcile_content_def Let_def)

theorem absorb_edit_over_refreshed_body_witness:
  "hi_object (upsert_item (SourceId ''r'') (sample_edit ''2'' ''z'') HcManual
     (sample_hub_item\<lparr>hi_object := None\<rparr>)) = None"
proof -
  have "p_status (sample_edit ''2'' ''z'') \<noteq> Tombstone" "hi_object (sample_hub_item\<lparr>hi_object := None\<rparr>) = None"
    "agreed_object (map_of (hi_sources (sample_hub_item\<lparr>hi_object := None\<rparr>)) (SourceId ''r'')) = Some (Hash ''x'')"
    "p_object (sample_edit ''2'' ''z'') = Some (Hash ''z'')"
    by (simp_all add: agreed_object_def sample_binding_def)
  from absorb_edit_over_refreshed_body[OF this] show ?thesis by blast
qed

end
