(* ===== verification/Hub_Store.thy ===== *)
theory Hub_Store
  imports Hub Mem_Remote
begin

text \<open>
  The storage of the integration tests that wraps the hub (\<open>tests/common/mod.rs\<close>, \<open>HubStore\<close> and
  \<open>SourceStore\<close>): several sources share one hub, one object store and a list of rows the hub
  cannot key yet. A load projects the hub for one source, a write absorbs back into it. The
  shared store behind its \<open>Rc<RefCell>\<close> is the state; a source's view of it is the record of
  operations.
\<close>

section \<open>The shared store\<close>

record hub_store =
  hs_hub :: hub
  hs_residual :: "(source_id \<times> handle, placement) btree_map"
  hs_objects :: "(hash, object \<times> u8 list) btree_map"
  hs_checkpoints :: "(source_id \<times> collection_id, checkpoint) btree_map"

definition hub_store_default :: hub_store where
  "hub_store_default =
     \<lparr>hs_hub = \<lparr>hub_items = [], hub_policy = HcManual\<rparr>, hs_residual = [], hs_objects = [], hs_checkpoints = []\<rparr>"

section \<open>One source's view of it\<close>

definition source_rows :: "source_id \<Rightarrow> collection_id \<Rightarrow> hub_store \<Rightarrow> placement list" where
  "source_rows source c s =
     hub_project c source (hs_hub s)
     @ map snd (filter (\<lambda>((src, _), p). src = source \<and> p_collection p = c) (hs_residual s))"

definition source_load :: "source_id \<Rightarrow> hub_store \<Rightarrow> collection_id \<Rightarrow> load_scope \<Rightarrow> unit + loaded" where
  "source_load source s c scope =
     Inr \<lparr>ld_placements = source_rows source c s, ld_checkpoint = map_of (hs_checkpoints s) (source, c)\<rparr>"

definition source_lookup_objects ::
  "hub_store \<Rightarrow> link_id list \<Rightarrow> unit + (link_id, hash) btree_map" where
  "source_lookup_objects s links =
     Inr (bt_collect (List.map_filter (\<lambda>link.
            do { item \<leftarrow> map_of (hub_items (hs_hub s)) link; obj \<leftarrow> hi_object item; Some (link, obj) }) links))"

text \<open>An unlinked upsert of a handle the source is bound to is that item, pulled again.\<close>

definition bound_link :: "source_id \<Rightarrow> handle \<Rightarrow> hub \<Rightarrow> link_id option" where
  "bound_link source h hub =
     map_option fst (List.find (\<lambda>(link, item). is_some_and (map_of (hi_sources item) source) (\<lambda>b. sb_handle b = h))
       (hub_items hub))"

fun source_relink :: "source_id \<Rightarrow> hub \<Rightarrow> write_op \<Rightarrow> write_op" where
  "source_relink source hub (UpsertPlacement p) =
     UpsertPlacement (if p_link_id p = None then p\<lparr>p_link_id := bound_link source (p_handle p) hub\<rparr> else p)"
| "source_relink source hub op = op"

fun source_apply :: "source_id \<Rightarrow> write_op \<Rightarrow> hub_store \<Rightarrow> hub_store" where
  "source_apply source (StoreObject obj body) s =
     s\<lparr>hs_objects := bt_insert (o_hash obj) (obj, case body of Some b \<Rightarrow> b | None \<Rightarrow> []) (hs_objects s)\<rparr>"
| "source_apply source (SetCheckpoint c ck) s =
     s\<lparr>hs_checkpoints := bt_insert (source, c) ck (hs_checkpoints s)\<rparr>"
| "source_apply source (UpsertPlacement p) s =
     s\<lparr>hs_residual := (if p_link_id p \<noteq> None then bt_remove (source, p_handle p) (hs_residual s)
                       else bt_insert (source, p_handle p) p (hs_residual s))\<rparr>"
| "source_apply source (DropPlacement c h reason) s =
     s\<lparr>hs_residual := bt_remove (source, h) (hs_residual s)\<rparr>"

definition source_write :: "source_id \<Rightarrow> write_op list \<Rightarrow> hub_store \<Rightarrow> hub_store \<times> (unit + unit)" where
  "source_write source ops s =
     (let ops = map (source_relink source (hs_hub s)) ops;
          s = fold (source_apply source) ops s
      in (s\<lparr>hs_hub := absorb source ops (hs_hub s)\<rparr>, Inr ()))"

definition source_ops :: "source_id \<Rightarrow> (hub_store, unit) storage_ops" where
  "source_ops source =
     \<lparr>st_load = source_load source, st_lookup_objects = source_lookup_objects, st_write = source_write source\<rparr>"

section \<open>What a write leaves alone\<close>

lemma source_apply_hub [simp]: "hs_hub (fold (source_apply source) ops s) = hs_hub s"
proof (induction ops arbitrary: s)
  case (Cons op ops)
  have "hs_hub (source_apply source op s) = hs_hub s" by (cases op) simp_all
  with Cons show ?case by simp
qed simp

definition hs_inv :: "hub_store \<Rightarrow> bool" where
  "hs_inv s \<longleftrightarrow> hub_wf (hs_hub s) \<and> bt_wf (hs_residual s)
     \<and> (\<forall>src h p. map_of (hs_residual s) (src, h) = Some p \<longrightarrow> p_handle p = h \<and> p_link_id p = None)"

lemma source_apply_residual_inv:
  assumes "bt_wf (hs_residual s)" "\<forall>src h p. map_of (hs_residual s) (src, h) = Some p \<longrightarrow> p_handle p = h \<and> p_link_id p = None"
  shows "bt_wf (hs_residual (fold (source_apply source) ops s))
    \<and> (\<forall>src h p. map_of (hs_residual (fold (source_apply source) ops s)) (src, h) = Some p
         \<longrightarrow> p_handle p = h \<and> p_link_id p = None)"
  using assms
proof (induction ops arbitrary: s)
  case (Cons op ops)
  show ?case unfolding fold.simps comp_def by (rule Cons.IH) (use Cons.prems in \<open>cases op; auto\<close>)+
qed simp

lemma source_write_inv: "hs_inv s \<Longrightarrow> hs_inv (fst (source_write source ops s))"
  using source_apply_residual_inv[of s] by (simp add: hs_inv_def source_write_def Let_def absorb_wf)

lemma source_apply_other:
  assumes "src \<noteq> source"
  shows "map_of (hs_residual (fold (source_apply source) ops s)) (src, h) = map_of (hs_residual s) (src, h)"
    "map_of (hs_checkpoints (fold (source_apply source) ops s)) (src, c) = map_of (hs_checkpoints s) (src, c)"
proof -
  have "map_of (hs_residual (source_apply source op s)) (src, h) = map_of (hs_residual s) (src, h)
      \<and> map_of (hs_checkpoints (source_apply source op s)) (src, c) = map_of (hs_checkpoints s) (src, c)" for op s
    using assms by (cases op) simp_all
  then have "map_of (hs_residual (fold (source_apply source) ops s)) (src, h) = map_of (hs_residual s) (src, h)
      \<and> map_of (hs_checkpoints (fold (source_apply source) ops s)) (src, c) = map_of (hs_checkpoints s) (src, c)" for s
    by (induction ops arbitrary: s) simp_all
  then show "map_of (hs_residual (fold (source_apply source) ops s)) (src, h) = map_of (hs_residual s) (src, h)"
    "map_of (hs_checkpoints (fold (source_apply source) ops s)) (src, c) = map_of (hs_checkpoints s) (src, c)"
    by simp_all
qed

text \<open>
  C23: the sources of one hub do not write over each other. Whatever one source writes through
  its view of the shared store, every other source keeps its cursors, its rows that wait for a
  link id and, in every shared item, its own binding: the handle, the base and the conflict of
  that source's remote. The store stays well-formed.
\<close>

theorem source_writes_are_private:
  assumes "hs_inv s" "src \<noteq> source"
  shows "hs_inv (fst (source_write source ops s))
    \<and> map_of (hs_checkpoints (fst (source_write source ops s))) (src, c) = map_of (hs_checkpoints s) (src, c)
    \<and> map_of (hs_residual (fst (source_write source ops s))) (src, h) = map_of (hs_residual s) (src, h)
    \<and> binding_at (hs_hub (fst (source_write source ops s))) l src = binding_at (hs_hub s) l src"
proof -
  have "hub_wf (hs_hub s)" using assms(1) by (simp add: hs_inv_def)
  then have "binding_at (absorb source ops' (hs_hub s)) l src = binding_at (hs_hub s) l src" for ops'
    using assms(2) by (simp add: absorb_def retain_binding absorb_ops_binding absorb_ops_wf)
  then show ?thesis
    using source_write_inv[OF assms(1)] source_apply_other[OF assms(2)] by (simp add: source_write_def Let_def)
qed

theorem source_writes_are_private_witness:
  "binding_at (hs_hub (fst (source_write (SourceId ''l'') [DropPlacement (CollectionId ''c'') (Handle ''1'') Deleted]
      (hub_store_default\<lparr>hs_hub := sample_hub\<rparr>)))) (LinkId ''m'') (SourceId ''r'') = Some (sample_binding ''2'')"
proof -
  have "hs_inv (hub_store_default\<lparr>hs_hub := sample_hub\<rparr>)"
    using sample_hub_wf by (simp add: hs_inv_def hub_store_default_def)
  from source_writes_are_private[OF this, of "SourceId ''r''" "SourceId ''l''"
      "[DropPlacement (CollectionId ''c'') (Handle ''1'') Deleted]" undefined undefined "LinkId ''m''"]
  show ?thesis by (simp add: binding_at_def)
qed

section \<open>Rows the hub cannot key\<close>

lemma source_write_one:
  "source_write source [op] s =
     (let op = source_relink source (hs_hub s) op; s' = source_apply source op s
      in (s'\<lparr>hs_hub := absorb source [op] (hs_hub s)\<rparr>, Inr ()))"
  using source_apply_hub[of source "[source_relink source (hs_hub s) op]" s] by (simp add: source_write_def Let_def)

lemma absorb_nothing:
  "hub_wf h \<Longrightarrow> \<forall>i \<in> snd ` set (hub_items h). hi_sources i \<noteq> [] \<Longrightarrow> p_link_id p = None \<Longrightarrow> absorb source [UpsertPlacement p] h = h"
  by (cases h) (force simp: absorb_def absorb_upsert_def retain_bound_def filter_id_conv)

text \<open>
  C24: a row is not lost for want of a link id. A pulled row has none, and the hub drops it; the
  store holds it for its source until a summary brings the link id. What the source loads next
  holds the row as written and, of the others, everything but the row of that handle it
  replaces; the hub, and with it what every other source loads, is as it was.
\<close>

theorem unlinked_row_is_kept:
  assumes "hs_inv s" "\<forall>i \<in> snd ` set (hub_items (hs_hub s)). hi_sources i \<noteq> []"
    "p_link_id p = None" "bound_link source (p_handle p) (hs_hub s) = None"
  shows "\<exists>s'. source_write source [UpsertPlacement p] s = (s', Inr ()) \<and> hs_hub s' = hs_hub s
    \<and> p \<in> set (source_rows source (p_collection p) s')
    \<and> (\<forall>src h q. map_of (hs_residual s') (src, h) = Some q
         \<longleftrightarrow> (if src = source \<and> h = p_handle p then q = p else map_of (hs_residual s) (src, h) = Some q))"
proof -
  let ?s' = "s\<lparr>hs_residual := bt_insert (source, p_handle p) p (hs_residual s)\<rparr>"
  have same: "p\<lparr>p_link_id := None\<rparr> = p" using assms(3) by simp
  have "hub_wf (hs_hub s)" using assms(1) by (simp add: hs_inv_def)
  then have wrote: "source_write source [UpsertPlacement p] s = (?s', Inr ())"
    using assms(2-4) by (simp add: source_write_one Let_def absorb_nothing same)
  have "map_of (hs_residual ?s') (source, p_handle p) = Some p" by simp
  then have "((source, p_handle p), p) \<in> set (hs_residual ?s')" by (rule map_of_SomeD)
  then have "p \<in> set (source_rows source (p_collection p) ?s')"
    by (force simp: source_rows_def)
  with wrote show ?thesis by auto
qed

theorem unlinked_row_is_kept_witness:
  "\<exists>s'. source_write (SourceId ''l'') [UpsertPlacement (pulled_placement (CollectionId ''c'') (sample_item ''7''))]
      (hub_store_default\<lparr>hs_hub := sample_hub\<rparr>) = (s', Inr ())
    \<and> pulled_placement (CollectionId ''c'') (sample_item ''7'') \<in> set (source_rows (SourceId ''l'') (CollectionId ''c'') s')"
proof -
  let ?p = "pulled_placement (CollectionId ''c'') (sample_item ''7'')"
  have "hs_inv (hub_store_default\<lparr>hs_hub := sample_hub\<rparr>)"
    using sample_hub_wf by (simp add: hs_inv_def hub_store_default_def)
  moreover have "\<forall>i \<in> snd ` set (hub_items (hs_hub (hub_store_default\<lparr>hs_hub := sample_hub\<rparr>))). hi_sources i \<noteq> []"
    by (simp add: sample_hub_def sample_hub_item_def)
  moreover have "p_link_id ?p = None" "p_collection ?p = CollectionId ''c''" by (simp_all add: pulled_placement_def)
  moreover have "bound_link (SourceId ''l'') (p_handle ?p) (hs_hub (hub_store_default\<lparr>hs_hub := sample_hub\<rparr>)) = None"
    by (simp add: bound_link_def sample_hub_def sample_hub_item_def pulled_placement_def sample_item_def sample_binding_def)
  ultimately show ?thesis using unlinked_row_is_kept[of "hub_store_default\<lparr>hs_hub := sample_hub\<rparr>" ?p "SourceId ''l''"] by auto
qed

section \<open>An edit travels between sources\<close>

lemma absorb_edit_item:
  assumes "hub_wf h" "map_of (hub_items h) l = Some i" "p_link_id p = Some l"
  shows "map_of (hub_items (absorb s [StoreObject obj body, UpsertPlacement p] h)) l = Some (upsert_item s p (hub_policy h) i)"
proof -
  have "absorb s [StoreObject obj body, UpsertPlacement p] h = absorb s [UpsertPlacement p] h" by (simp add: absorb_def)
  with absorb_upsert_item[OF assms(1,3)] assms(2) show ?thesis by (simp add: absorbed_item_def)
qed

text \<open>
  C22: an edit made through one source is another source's next push. Two sources are bound to
  one shared item and agree on its body. Editing it offline through the first source's view,
  with the real mutate verb, and opening the collection through the second one's returns the
  item under the second source's own handle and base, with the edited body and dirty, which
  is the row its next sync pushes; the first source's remote was not touched.
\<close>

theorem hub_edit_travels:
  assumes "hs_inv (cl_storage cl)" "s \<noteq> s'"
    "map_of (hub_items (hs_hub (cl_storage cl))) l = Some i" "\<not> hi_deleted i"
    "map_of (hi_sources i) s = Some b" "map_of (hi_sources i) s' = Some b'"
    "\<not> sb_conflicted b" "\<not> sb_conflicted b'" "sb_base b = Some a" "sb_base b' = Some a'"
    "hi_object i = b_object a" "agreed_object (Some b) = b_object a" "b_object a \<noteq> Some (o_hash obj)" "b_object a' \<noteq> Some (o_hash obj)"
    "List.find (\<lambda>p. p_handle p = sb_handle b) (source_rows s c (cl_storage cl)) = Some (bound_placement c l i b)"
  shows "\<exists>cl' ld q. client_mutate (source_ops s) rem c (MEdit (sb_handle b) obj body m k) cl = Some (cl', Returned (Inr ()))
    \<and> cl_remote cl' = cl_remote cl
    \<and> client_open (source_ops s') rem' c \<lparr>cl_storage = cl_storage cl', cl_remote = r'\<rparr>
        = Some (\<lparr>cl_storage = cl_storage cl', cl_remote = r'\<rparr>, Returned (Inr ld))
    \<and> q \<in> set (ld_placements ld) \<and> p_handle q = sb_handle b' \<and> p_link_id q = Some l \<and> p_object q = Some (o_hash obj)
    \<and> p_status q = Dirty \<and> p_base q = sb_base b'"
proof -
  let ?st = "cl_storage cl" and ?p = "bound_placement c l i b"
  let ?e = "edit_placement ?p obj m k" and ?ops = "\<lambda>e. [StoreObject obj (Some body), UpsertPlacement e]"
  have wf: "hub_wf (hs_hub ?st)" using assms(1) by (simp add: hs_inv_def)
  have p: "p_link_id ?p = Some l" "p_base ?p = Some a" "p_status ?p \<in> {Clean, Dirty}"
    using assms(7,9) by (auto simp: bound_placement_def item_project_def Let_def)
  then have e: "p_link_id ?e = Some l" "p_status ?e = Dirty" "p_base ?e = Some a"
    using assms(13) by (auto simp: edit_placement_plain)
  define st where "st = fst (source_write s (?ops ?e) ?st)"
  have wrote: "st_write (source_ops s) (mutate_writes (mutate_new c (MEdit (sb_handle b) obj body m k)) ?p) ?st = (st, Inr ())"
    by (simp add: st_def source_ops_def source_write_def mutate_writes_def mutate_new_def Let_def)
  have load: "st_load (source_ops s) ?st c (ScopeHandles [sb_handle b])
      = Inr \<lparr>ld_placements = source_rows s c ?st, ld_checkpoint = map_of (hs_checkpoints ?st) (s, c)\<rparr>"
    by (simp add: source_ops_def source_load_def)
  have mutate: "client_mutate (source_ops s) rem c (MEdit (sb_handle b) obj body m k) cl
      = Some (cl\<lparr>cl_storage := st\<rparr>, Returned (Inr ()))"
    using client_mutate_writes[OF _ load _ wrote, where rem = rem] assms(15) by simp
  let ?i = "upsert_item s ?e (hub_policy (hs_hub ?st)) i"
  have hub: "hs_hub st = absorb s (?ops ?e) (hs_hub ?st)"
    using e(1) by (simp add: st_def source_write_def Let_def)
  have item: "map_of (hub_items (hs_hub st)) l = Some ?i" unfolding hub by (rule absorb_edit_item[OF wf assms(3) e(1)])
  have body: "hi_object ?i = Some (o_hash obj)"
    using e assms(5,9,11-13)
    by (simp add: upsert_item_live(1) reconcile_unmoved prev_object_def)
  have other: "map_of (hi_sources ?i) s' = Some b'" using assms(2,6) by (simp add: upsert_item_others)
  define q where "q = bound_placement c l ?i b'"
  have "project_item c s' l ?i = Some q"
    using e(2) other by (simp add: project_item_def upsert_item_live(5) q_def)
  then have "q \<in> set (hub_project c s' (hs_hub st))"
    using item mem_hub_project[of "hs_hub st"] wf hub absorb_wf by metis
  then have "q \<in> set (source_rows s' c st)" by (simp add: source_rows_def)
  moreover have "p_handle q = sb_handle b'" "p_link_id q = Some l" "p_object q = Some (o_hash obj)" "p_status q = Dirty"
    "p_base q = sb_base b'"
    using body assms(8,10,14) by (auto simp: q_def bound_placement_def item_project_def in_sync_def Let_def)
  moreover have "client_open (source_ops s') rem' c \<lparr>cl_storage = st, cl_remote = r'\<rparr>
      = Some (\<lparr>cl_storage = st, cl_remote = r'\<rparr>,
          Returned (Inr \<lparr>ld_placements = source_rows s' c st, ld_checkpoint = map_of (hs_checkpoints st) (s', c)\<rparr>))"
    by (rule client_open_loads) (simp add: source_ops_def source_load_def)
  ultimately show ?thesis
    using mutate by (intro exI[of _ "cl\<lparr>cl_storage := st\<rparr>"] exI[of _ "\<lparr>ld_placements = source_rows s' c st, ld_checkpoint = map_of (hs_checkpoints st) (s', c)\<rparr>"] exI[of _ q]) simp
qed

theorem hub_edit_travels_witness:
  "\<exists>cl' ld q. client_mutate (source_ops (SourceId ''l'')) mem_server (CollectionId ''c'')
        (MEdit (Handle ''1'') \<lparr>o_hash = Hash ''y'', o_size = 1\<rparr> [7] None None)
        \<lparr>cl_storage = hub_store_default\<lparr>hs_hub := sample_hub\<rparr>, cl_remote = mem_remote_default\<rparr> = Some (cl', Returned (Inr ()))
    \<and> client_open (source_ops (SourceId ''r'')) mem_server (CollectionId ''c'')
        \<lparr>cl_storage = cl_storage cl', cl_remote = mem_remote_default\<rparr>
        = Some (\<lparr>cl_storage = cl_storage cl', cl_remote = mem_remote_default\<rparr>, Returned (Inr ld))
    \<and> q \<in> set (ld_placements ld) \<and> p_handle q = Handle ''2'' \<and> p_object q = Some (Hash ''y'') \<and> p_status q = Dirty"
proof -
  let ?cl = "\<lparr>cl_storage = hub_store_default\<lparr>hs_hub := sample_hub\<rparr>, cl_remote = mem_remote_default\<rparr>"
  let ?b = "sample_binding ''1''" and ?b' = "sample_binding ''2''" and ?obj = "\<lparr>o_hash = Hash ''y'', o_size = 1\<rparr>"
  have store: "hs_inv (cl_storage ?cl)" "map_of (hub_items (hs_hub (cl_storage ?cl))) (LinkId ''m'') = Some sample_hub_item"
    using sample_hub_wf by (simp_all add: hs_inv_def hub_store_default_def)
  have item: "SourceId ''l'' \<noteq> SourceId ''r''" "\<not> hi_deleted sample_hub_item" "\<not> sb_conflicted ?b" "\<not> sb_conflicted ?b'"
    "sb_base ?b = Some sample_base" "sb_base ?b' = Some sample_base" "hi_object sample_hub_item = b_object sample_base"
    "agreed_object (Some ?b) = b_object sample_base" "b_object sample_base \<noteq> Some (o_hash ?obj)"
    by (simp_all add: sample_hub_item_def sample_binding_def sample_base_def agreed_object_def)
  have found: "List.find (\<lambda>p. p_handle p = sb_handle ?b) (source_rows (SourceId ''l'') (CollectionId ''c'') (cl_storage ?cl))
      = Some (bound_placement (CollectionId ''c'') (LinkId ''m'') sample_hub_item ?b)"
    by (simp add: source_rows_def hub_project_def hub_store_default_def List.map_filter_def sample_hub_def project_item_def item(2))
      (simp add: bound_placement_def item_project_def Let_def)
  from hub_edit_travels[OF store(1) item(1) store(2) item(2) sample_hub_sources(1,2) item(3-9) item(9) found,
      where rem = mem_server and rem' = mem_server and body = "[7]" and m = None and k = None and r' = mem_remote_default]
  show ?thesis by (auto simp: sample_binding_def)
qed

end
