(* ===== verification/Typed.thy ===== *)
theory Typed
  imports Mem_Store Sync_Laws
begin

text \<open>
  Well-formed placements, verb by verb and over whole runs: a verb driven by loads of
  well-formed rows only writes well-formed rows, so no operation of the client ever leaves the
  storage with a row that breaks the placement invariant, whatever the remote answers and
  wherever the run stops.
\<close>

section \<open>The contract\<close>

fun arg_typed :: "arg option \<Rightarrow> bool" where
  "arg_typed (Some (ArgLoad ld)) = (\<forall>p \<in> set (ld_placements ld). placement_ok p)"
| "arg_typed _ = True"

definition step_typed :: "('k \<Rightarrow> bool) \<Rightarrow> ('k, 'c, 't) step \<Rightarrow> bool" where
  "step_typed typed st \<longleftrightarrow>
     (case st of
        None \<Rightarrow> True
      | Some (c, Yielded (WantsWrite ops)) \<Rightarrow> typed c \<and> (\<forall>op \<in> set ops. op_ok op)
      | Some (c, _) \<Rightarrow> typed c)"

lemma step_typed_simps [simp]:
  "step_typed typed None"
  "step_typed typed (Some (c, Complete t)) \<longleftrightarrow> typed c"
  "step_typed typed (Some (c, Yielded (WantsWrite ops))) \<longleftrightarrow> typed c \<and> (\<forall>op \<in> set ops. op_ok op)"
  "step_typed typed (Some (c, Yielded (WantsLoad coll sc))) \<longleftrightarrow> typed c"
  "step_typed typed (Some (c, Yielded (WantsEnumerate coll ck))) \<longleftrightarrow> typed c"
  "step_typed typed (Some (c, Yielded (WantsFetch coll hs ti))) \<longleftrightarrow> typed c"
  "step_typed typed (Some (c, Yielded (WantsPush coll chs))) \<longleftrightarrow> typed c"
  "step_typed typed (Some (c, Yielded (WantsLookupObject ls))) \<longleftrightarrow> typed c"
  by (simp_all add: step_typed_def)

definition rows_ok :: "rows \<Rightarrow> bool" where
  "rows_ok m \<longleftrightarrow> (\<forall>k p. m k = Some p \<longrightarrow> placement_ok p)"

lemma rows_ok_apply: "rows_ok m \<Longrightarrow> \<forall>op \<in> set ops. op_ok op \<Longrightarrow> rows_ok (fold apply_row ops m)"
proof (induction ops arbitrary: m)
  case (Cons op ops)
  then have "rows_ok (apply_row op m)" by (cases op) (auto simp: rows_ok_def)
  with Cons show ?case by simp
qed simp

locale typed_verb = driven_verb resume inv rank finished of_arg ready
  for resume :: "'k \<Rightarrow> arg option \<Rightarrow> ('k, 'c, 't) step" and inv rank finished
    and of_arg :: "arg_error \<Rightarrow> 'c" and ready +
  fixes typed :: "'k \<Rightarrow> bool"
  assumes typed_step: "inv c \<Longrightarrow> typed c \<Longrightarrow> arg_typed a \<Longrightarrow> step_typed typed (resume c a)"
begin

lemma run_typed:
  fixes sto :: "('s, 'e) storage_ops" and rem :: "('r, 'f) remote_ops"
  assumes "replica_storage sto sinv rows"
  shows "inv c \<Longrightarrow> typed c \<Longrightarrow> arg_typed a \<Longrightarrow> sinv (cl_storage cl) \<Longrightarrow> rows_ok (rows (cl_storage cl))
    \<Longrightarrow> run sto rem resume c a cl = Some (cl', out) \<Longrightarrow> sinv (cl_storage cl') \<and> rows_ok (rows (cl_storage cl'))"
proof (induction "rank c" arbitrary: c a cl rule: wf_induct_rule[OF wf_rank_less])
  case 1
  obtain c' r where step: "resume c a = Some (c', r)"
    using no_panic[OF "1.prems"(1), of a] by fastforce
  note ok = typed_step[OF "1.prems"(1-3), unfolded step]
  show ?case
  proof (cases r)
    case (Complete t)
    with step "1.prems" show ?thesis by (cases t) (auto simp: run.simps[of _ _ _ c])
  next
    case (Yielded y)
    have inv': "inv c'" using keeps "1.prems"(1) step by blast
    have less: "(rank c', rank c) \<in> rank_less" using yield_decreases "1.prems"(1) step Yielded by blast
    have typed': "typed c'" using ok Yielded by (auto simp: step_typed_def split: yield.splits)
    obtain cl1 and res :: "('e, 'f, 'c) client_error + arg"
      where serve: "service sto rem y cl = (cl1, res)" by fastforce
    have kept: "sinv (cl_storage cl1) \<and> rows_ok (rows (cl_storage cl1)) \<and> (\<forall>b. res = Inr b \<longrightarrow> arg_typed (Some b))"
    proof (cases y)
      case (WantsLoad coll sc)
      obtain ld where ld: "st_load sto (cl_storage cl) coll sc = Inr ld"
        "\<forall>p \<in> set (ld_placements ld). rows (cl_storage cl) (coll, p_handle p) = Some p"
        using replica_storage.load_ok[OF assms "1.prems"(4)] by blast
      then have "\<forall>p \<in> set (ld_placements ld). placement_ok p" using "1.prems"(5) by (auto simp: rows_ok_def)
      with ld(1) WantsLoad serve "1.prems"(4,5) show ?thesis by (auto simp: service_def)
    next
      case (WantsWrite ops)
      have "\<forall>op \<in> set ops. op_ok op" using ok Yielded WantsWrite by (simp add: step_typed_def)
      moreover obtain s' where "st_write sto ops (cl_storage cl) = (s', Inr ())" "sinv s'"
        "rows s' = fold apply_row ops (rows (cl_storage cl))"
        using replica_storage.write_ok[OF assms "1.prems"(4)] by blast
      ultimately show ?thesis using WantsWrite serve "1.prems"(5) rows_ok_apply by (auto simp: service_def)
    qed (use serve "1.prems"(4,5) in \<open>auto simp: service_def elim!: map_ok.elims split: prod.splits\<close>)
    show ?thesis
    proof (cases res)
      case (Inl err)
      with step Yielded serve "1.prems"(6) kept show ?thesis by (simp add: run.simps[of _ _ _ c])
    next
      case (Inr b)
      have "run sto rem resume c' (Some b) cl1 = Some (cl', out)"
        using step Yielded serve Inr "1.prems"(6) by (simp add: run.simps[of _ _ _ c])
      with "1.hyps"[OF less inv' typed'] kept Inr show ?thesis by blast
    qed
  qed
qed

end

section \<open>Opening and mutating\<close>

interpretation opn_typed:
  typed_verb open_resume "\<lambda>_. True" open_rank open_finished "\<lambda>e. e" open_ready "\<lambda>_. True"
  by unfold_locales (auto simp: open_resume_def step_typed_def split: open_state.splits option.splits arg.splits)

interpretation mut_typed:
  typed_verb mutate_resume "\<lambda>_. True" mutate_rank mutate_finished MutateArg mutate_ready "\<lambda>_. True"
proof unfold_locales
  fix c a assume a: "arg_typed a"
  have "\<forall>op \<in> set ops. op_ok op" if run: "mutate_resume c a = Some (c', Yielded (WantsWrite ops))" for c' ops
  proof (cases "mutation_handle (mu_mutation c)")
    case None
    with run create_writes_ok[of _ c] show ?thesis
      by (auto simp: mutate_resume_def split: mutate_splits)
  next
    case (Some h)
    with run obtain ld p where "a = Some (ArgLoad ld)" and ops: "ops = mutate_writes c p"
      and "List.find (\<lambda>p. p_handle p = h) (ld_placements ld) = Some p"
      by (auto simp: mutate_resume_def split: mutate_splits)
    with a have "placement_ok p" by (auto simp: find_Some_iff)
    with mutate_writes_ok ops show ?thesis by blast
  qed
  then show "step_typed (\<lambda>_. True) (mutate_resume c a)"
    by (auto simp: step_typed_def split: option.splits cstate.splits yield.splits)
qed

section \<open>Upgrading\<close>

definition map_typed :: "('k, placement) btree_map \<Rightarrow> bool" where
  "map_typed m \<longleftrightarrow> (\<forall>p \<in> set (bt_values m). placement_ok p)"

lemma map_typed_Nil [simp]: "map_typed []"
  by (simp add: map_typed_def)

lemma map_typed_get: "map_typed m \<Longrightarrow> map_of m k = Some p \<Longrightarrow> placement_ok p"
  by (force simp: map_typed_def dest: map_of_SomeD)

lemma map_typed_insert [wf_intros]: "map_typed m \<Longrightarrow> placement_ok p \<Longrightarrow> map_typed (bt_insert k p m)"
  unfolding map_typed_def by (induction k p m rule: bt_insert.induct) auto

lemma map_typed_remove [wf_intros]: "map_typed m \<Longrightarrow> map_typed (bt_remove k m)"
  by (auto simp: map_typed_def bt_remove_def)

lemma map_typed_inserts:
  "map_typed m \<Longrightarrow> \<forall>e \<in> set kvs. placement_ok (snd e) \<Longrightarrow> map_typed (fold (\<lambda>(k, v). bt_insert k v) kvs m)"
proof (induction kvs arbitrary: m)
  case (Cons e kvs)
  have "map_typed (bt_insert (fst e) (snd e) m)"
    using Cons.prems by (intro map_typed_insert) simp_all
  with Cons show ?case by (simp add: case_prod_unfold)
qed simp

lemma map_typed_collect: "\<forall>e \<in> set kvs. placement_ok (snd e) \<Longrightarrow> map_typed (bt_collect kvs)"
  by (simp add: bt_collect_def map_typed_inserts)

lemma map_typed_or_inserts:
  "map_typed m \<Longrightarrow> \<forall>p \<in> set ps. placement_ok p \<Longrightarrow> map_typed (fold (\<lambda>p. bt_or_insert (f p) p) ps m)"
  by (induction ps arbitrary: m) (auto simp: bt_or_insert_def map_typed_insert)

definition upgrade_typed :: "upgrade \<Rightarrow> bool" where
  "upgrade_typed u \<longleftrightarrow> map_typed (up_placements u) \<and> (\<forall>op \<in> set (up_ops u). op_ok op)"

lemma fetch_one_typed: 
  assumes "upgrade_typed u" shows "upgrade_typed (snd (fetch_one item (cl, u)))"
proof (cases "map_of (up_placements u) (fi_handle item)")
  case None
  with assms show ?thesis by (simp add: fetch_one_def)
next
  case (Some p)
  with assms have "placement_ok p" by (auto simp: upgrade_typed_def dest: map_typed_get)
  with Some assms show ?thesis
    by (auto simp: upgrade_typed_def fetch_one_def Let_def placement_ok_def case_prod_unfold
          split: option.splits tier.splits)
qed

lemma fetch_all_typed: "upgrade_typed u \<Longrightarrow> upgrade_typed (snd (fold fetch_one items (cl, u)))"
proof (induction items arbitrary: cl u)
  case (Cons item items)
  obtain cl' u' where "fetch_one item (cl, u) = (cl', u')" by fastforce
  with Cons fetch_one_typed[of u item cl] show ?case by simp
qed simp

lemma write_fetched_typed: "upgrade_typed u \<Longrightarrow> step_typed upgrade_typed (Some (write_fetched u))"
  using fetch_all_typed[of "u\<lparr>up_fetched := []\<rparr>"]
  by (simp add: write_fetched_def step_typed_def Let_def upgrade_typed_def)

lemma lookup_one_typed: "upgrade_typed u \<Longrightarrow> upgrade_typed (fst (lookup_one kn h (u, fs)))"
  by (auto simp: lookup_one_def upgrade_typed_def link_stored_def placement_ok_def
        dest: map_typed_get split: option.splits)

lemma lookup_all_typed: "upgrade_typed u \<Longrightarrow> upgrade_typed (fst (fold (lookup_one kn) hs (u, fs)))"
proof (induction hs arbitrary: u fs)
  case (Cons h hs)
  obtain u' fs' where "lookup_one kn h (u, fs) = (u', fs')" by fastforce
  with Cons lookup_one_typed[of u kn h fs] show ?case by simp
qed simp

interpretation upg_typed:
  typed_verb upgrade_resume "\<lambda>_. True" upgrade_rank upgrade_finished "\<lambda>e. e" upgrade_ready upgrade_typed
proof unfold_locales
  fix u a assume typed: "upgrade_typed u" and a: "arg_typed a"
  have loaded: "step_typed upgrade_typed (Some (upgrade_loaded u ld))" "step_typed upgrade_typed (Some (upgrade_checked u ld))"
    if "a = Some (ArgLoad ld)" for ld
  proof -
    have ps: "\<forall>p \<in> set (ld_placements ld). placement_ok p" using a that by simp
    then have "map_typed (bt_collect (map (\<lambda>p. (p_handle p, p)) (ld_placements ld)))"
      by (intro map_typed_collect) simp
    with typed show "step_typed upgrade_typed (Some (upgrade_loaded u ld))"
      by (auto simp: upgrade_loaded_def step_typed_def upgrade_typed_def Let_def split: tier.splits)
    show "step_typed upgrade_typed (Some (upgrade_checked u ld))"
      unfolding upgrade_checked_def using typed ps
      by (intro write_fetched_typed) (simp add: upgrade_typed_def map_typed_or_inserts)
  qed
  have looked: "step_typed upgrade_typed (Some (upgrade_looked_up u kn))" for kn
    using lookup_all_typed[OF typed, of kn "pending_handles u" "[]"]
    by (auto simp: upgrade_looked_up_def step_typed_def upgrade_typed_def Let_def case_prod_unfold)
  have fetched: "step_typed upgrade_typed (Some (upgrade_fetched u items))" for items
    using typed write_fetched_typed[of "u\<lparr>up_fetched := items\<rparr>"]
    by (auto simp: upgrade_fetched_def Let_def upgrade_typed_def step_typed_def)
  show "step_typed upgrade_typed (upgrade_resume u a)"
    using typed loaded looked fetched
    by (auto simp: upgrade_resume_def upgrade_typed_def split: upgrade_state.splits option.splits arg.splits)
qed

section \<open>Rekeying\<close>

definition rebuild_typed :: "rebuild_state \<Rightarrow> bool" where
  "rebuild_typed st \<longleftrightarrow> map_typed (rb_by_link st) \<and> (\<forall>op \<in> set (rb_writes st). op_ok op)"

lemma rekeyed_ok [wf_intros]:
  "placement_ok p \<Longrightarrow> placement_ok (carry self p item r)"
  "placement_ok (fresh self item r)"
  "placement_ok p \<Longrightarrow> placement_ok (resurrect p)"
  by (auto simp: placement_ok_def carry_def fresh_def resurrect_def Let_def split: status.splits if_splits)

lemma rebuild_item_typed: "rebuild_typed st \<Longrightarrow> rebuild_typed (rebuild_item self links item st)"
  by (auto simp: rebuild_typed_def rebuild_item_def Let_def dest: map_typed_get intro: wf_intros split: option.split)

lemma rebuild_edit_typed: "placement_ok p \<Longrightarrow> rebuild_typed st \<Longrightarrow> rebuild_typed (rebuild_edit p st)"
  by (auto simp: rebuild_typed_def rebuild_edit_def intro: wf_intros)

lemma rebuild_items_typed: "rebuild_typed st \<Longrightarrow> rebuild_typed (fold (rebuild_item self links) items st)"
  by (induction items arbitrary: st) (simp_all add: rebuild_item_typed)

lemma rebuild_edits_typed:
  "\<forall>p \<in> set ps. placement_ok p \<Longrightarrow> rebuild_typed st \<Longrightarrow> rebuild_typed (fold rebuild_edit ps st)"
  by (induction ps arbitrary: st) (simp_all add: rebuild_edit_typed)

definition rekey_typed :: "rekey \<Rightarrow> bool" where
  "rekey_typed self \<longleftrightarrow> (\<forall>p \<in> set (rk_old self). placement_ok p)"

lemma rebuild_final_typed: "rekey_typed self \<Longrightarrow> rebuild_typed (rebuild_final self links)"
  unfolding rebuild_final_def
proof (intro rebuild_edits_typed rebuild_items_typed)
  assume "rekey_typed self"
  then show "\<forall>p \<in> set (old_spine self). placement_ok p" by (simp add: rekey_typed_def old_spine_def)
  then show "rebuild_typed (rebuild_start self)"
    by (auto simp: rebuild_typed_def rebuild_start_def List.map_filter_def intro!: map_typed_collect)
qed

lemma rekey_rebuilt_typed: "rekey_typed self \<Longrightarrow> step_typed rekey_typed (rekey_rebuilt self links)"
proof (cases "rebuild self links")
  case (Some r)
  assume typed: "rekey_typed self"
  obtain self' ops where r: "r = (self', ops)" by fastforce
  with Some have "\<forall>op \<in> set ops. op_ok op"
    using rebuild_ops[of self links self' ops] rebuild_final_typed[OF typed, of links]
    by (auto simp: rebuild_typed_def rebuild_drops_def)
  moreover have "rekey_typed self'"
    using Some r by (auto simp: rebuild_def rekey_typed_def Let_def split: Option.bind_splits)
  ultimately show ?thesis using Some r by (simp add: rekey_rebuilt_def step_typed_def)
qed (simp add: rekey_rebuilt_def step_typed_def)

interpretation rek_typed:
  typed_verb rekey_resume rekey_inv rekey_rank rekey_finished "\<lambda>e. e" rekey_ready rekey_typed
proof unfold_locales
  fix c a assume typed: "rekey_typed c" and a: "arg_typed a"
  have rebuilt: "step_typed rekey_typed (rekey_rebuilt (c\<lparr>rk_items := is, rk_checkpoint := ck, rk_state := st\<rparr>) links)"
    "step_typed rekey_typed (rekey_rebuilt (c\<lparr>rk_state := st\<rparr>) links)" for "is" ck st links
    using typed by (simp_all add: rekey_rebuilt_typed rekey_typed_def)
  show "step_typed rekey_typed (rekey_resume c a)"
    using typed a rebuilt
    by (auto simp: rekey_resume_def Let_def rekey_typed_def
          split: rekey_state.splits option.splits arg.splits)
qed

section \<open>Syncing\<close>

text \<open>Every placement the engine builds keeps the placement invariant.\<close>

lemma synced_ok [wf_intros]:
  "placement_ok (pulled_placement coll item)"
  "placement_ok p \<Longrightarrow> placement_ok (refreshed_placement p item)"
  "placement_ok p \<Longrightarrow> placement_ok (pulled_flags_placement p fl)"
  "placement_ok p \<Longrightarrow> placement_ok (rebased_placement p fl)"
  "placement_ok p \<Longrightarrow> placement_ok (content_rebased_placement p rv)"
  "placement_ok p \<Longrightarrow> placement_ok (placed_create p h rv)"
  "placement_ok p \<Longrightarrow> placement_ok (conflicted_placement p item)"
  "placement_ok (conflict_dup coll p obj)"
  "placement_ok p \<Longrightarrow> placement_ok (resurrected p)"
  "placement_ok p \<Longrightarrow> placement_ok (p\<lparr>p_flags := fl\<rparr>)"
  "placement_ok p \<Longrightarrow> placement_ok (p\<lparr>p_status := Clean\<rparr>)"
  "placement_ok p \<Longrightarrow> placement_ok (p\<lparr>p_conflict_revision := rv, p_conflict_object := ob\<rparr>)"
  by (auto simp: placement_ok_def pulled_placement_def refreshed_placement_def pulled_flags_placement_def
        settled_status_def rebased_placement_def content_rebased_placement_def placed_create_def
        conflicted_placement_def conflict_dup_def resurrected_def Let_def)

text \<open>What a run holds: the writes of the batch and the rows waiting for an outcome.\<close>

definition held_typed :: "sync \<Rightarrow> bool" where
  "held_typed s \<longleftrightarrow>
     (\<forall>op \<in> set (sy_writes s). op_ok op) \<and> map_typed (sy_pending_flag_pushes s)
     \<and> map_typed (sy_pending_content_pushes s) \<and> map_typed (sy_pending_creates s)"

definition outcome_typed :: "content_outcome \<Rightarrow> bool" where
  "outcome_typed out \<longleftrightarrow> (\<forall>q. out = Rewritten q \<longrightarrow> placement_ok q)"

lemma reconcile_flags_typed:
  "placement_ok p \<Longrightarrow> held_typed s \<Longrightarrow> held_typed (fst (reconcile_flags p item allow s))"
  by (auto simp: held_typed_def reconcile_flags_def Let_def recording pulling_defs wf_intros
        split: option.splits)

lemma resolve_conflict_typed:
  "placement_ok p \<Longrightarrow> held_typed s \<Longrightarrow> resolve_conflict p item s = Some r
     \<Longrightarrow> held_typed (fst r) \<and> outcome_typed (snd r)"
  by (auto simp: held_typed_def outcome_typed_def resolve_conflict_def Let_def recording pulling_defs wf_intros
        split: conflict_policy.splits if_splits option.splits Option.bind_splits)

lemma reconcile_content_typed:
  "placement_ok p \<Longrightarrow> held_typed s \<Longrightarrow> reconcile_content p item s = Some r
     \<Longrightarrow> held_typed (fst r) \<and> outcome_typed (snd r)"
  using resolve_conflict_typed[of p s item r]
  by (auto simp: held_typed_def outcome_typed_def reconcile_content_def Let_def recording pulling_defs wf_intros
        split: option.splits if_splits Option.bind_splits)

lemma merge_present_typed:
  assumes "placement_ok p" "held_typed s" "merge_present p item s = Some r"
  shows "held_typed (fst r)"
proof -
  obtain s1 out where c: "reconcile_content p item s = Some (s1, out)"
    using assms(3) by (auto simp: merge_present_def split: Option.bind_splits)
  with assms(1,2) have "held_typed s1" "outcome_typed out"
    using reconcile_content_typed[of p s item] by fastforce+
  with assms(1,3) c show ?thesis
    using reconcile_flags_typed[of p s1 item] reconcile_flags_typed[of _ s1 item Derive]
    by (cases out) (auto simp: merge_present_def outcome_typed_def Let_def case_prod_unfold)
qed

lemma merge_deleted_typed:
  "placement_ok p \<Longrightarrow> held_typed s \<Longrightarrow> merge_deleted h p item s = Some r \<Longrightarrow> held_typed (fst r)"
  by (auto simp: held_typed_def merge_deleted_def Let_def recording pulling_defs wf_intros
        split: if_splits delete_policy.splits Option.bind_splits)

lemma merge_rest_typed:
  "placement_ok p \<Longrightarrow> held_typed s \<Longrightarrow> held_typed (fst (merge_vanished h p s))"
  "placement_ok p \<Longrightarrow> held_typed s \<Longrightarrow> held_typed (fst (merge_created h p s))"
  "held_typed s \<Longrightarrow> held_typed (emit (Added h) (count_pulled (pull_add item s)))"
  "held_typed s \<Longrightarrow> held_typed (sync_drop h reason s)"
  by (auto simp: held_typed_def merge_vanished_def merge_created_def Let_def recording pulling_defs wf_intros)

lemma merge_typed:
  "merge c s = Some r \<Longrightarrow> \<forall>p. ca_local c = Some p \<longrightarrow> placement_ok p \<Longrightarrow> held_typed s \<Longrightarrow> held_typed (fst r)"
  by (auto simp: merge_table merge_rest_typed dest: merge_present_typed merge_deleted_typed
        split: option.splits if_splits)

definition sync_typed :: "sync \<Rightarrow> bool" where
  "sync_typed s \<longleftrightarrow>
     held_typed s \<and> map_typed (sy_local s) \<and> (\<forall>m. sy_merging s = Some m \<longrightarrow> map_typed (jn_local (mg_join m)))"

lemma sync_typed_frame [simp]:
  "sync_typed (s\<lparr>sy_state := st\<rparr>) = sync_typed s"
  "sync_typed (s\<lparr>sy_report := rp\<rparr>) = sync_typed s"
  "sync_typed (s\<lparr>sy_checkpoint := ck\<rparr>) = sync_typed s"
  "sync_typed (s\<lparr>sy_next_checkpoint := ck\<rparr>) = sync_typed s"
  "sync_typed (s\<lparr>sy_pushes := chs\<rparr>) = sync_typed s"
  "sync_typed (s\<lparr>sy_in_flight := hs\<rparr>) = sync_typed s"
  "sync_typed s \<Longrightarrow> sync_typed (s\<lparr>sy_merging := None\<rparr>)"
  by (simp_all add: sync_typed_def held_typed_def)

lemma join_next_typed:
  "join_next j = Some (c, j') \<Longrightarrow> map_typed (jn_local j) \<Longrightarrow>
     map_typed (jn_local j') \<and> (\<forall>p. ca_local c = Some p \<longrightarrow> placement_ok p)"
  unfolding map_typed_def by (force simp: join_next_def split: list.splits if_splits)

lemma merging_next_typed:
  "merging_next m = (r, m') \<Longrightarrow> map_typed (jn_local (mg_join m)) \<Longrightarrow>
     map_typed (jn_local (mg_join m')) \<and> (\<forall>c p. r = Some c \<longrightarrow> ca_local c = Some p \<longrightarrow> placement_ok p)"
proof (induction m arbitrary: r m' rule: merging_next.induct)
  case (1 m)
  show ?case
  proof (cases "join_next (mg_join m)")
    case None
    with "1.prems" show ?thesis by (simp add: merging_next.simps[of m])
  next
    case (Some cj)
    then obtain c j where j: "join_next (mg_join m) = Some (c, j)" by (cases cj) auto
    note typed = join_next_typed[OF j "1.prems"(2)]
    let ?m = "m\<lparr>mg_join := j\<rparr>"
    consider (complete) "mg_complete m" | (kept) c' where "\<not> mg_complete m" "narrow ?m c = Some c'"
      | (later) "\<not> mg_complete m" "narrow ?m c = None"
      by (cases "narrow ?m c") blast+
    then show ?thesis
    proof cases
      case complete
      with "1.prems"(1) j have "r = Some c \<and> m' = ?m" by (simp add: merging_next.simps[of m])
      with typed show ?thesis by simp
    next
      case kept
      with "1.prems"(1) j have "r = Some c' \<and> m' = ?m" by (simp add: merging_next.simps[of m])
      with typed narrow_keeps[OF kept(2)] show ?thesis by simp
    next
      case later
      with "1.prems"(1) j have "merging_next (m\<lparr>mg_join := j\<rparr>) = (r, m')"
        by (simp add: merging_next.simps[of m])
      with "1.IH"[OF j refl refl] later typed show ?thesis by simp
    qed
  qed
qed

lemma merge_candidate_typed:
  assumes "merge_candidate c s = Some s'" "sync_typed s" "\<forall>p. ca_local c = Some p \<longrightarrow> placement_ok p"
  shows "sync_typed s'"
proof -
  obtain s1 k where m: "merge c s = Some (s1, k)" "same_frame s s1"
    using merge_total by blast
  then have "held_typed s1" using merge_typed[OF m(1)] assms(2,3) by (simp add: sync_typed_def)
  with m assms(1,2) show ?thesis
    by (cases k) (auto simp: merge_candidate_def sync_typed_def same_frame_def held_typed_def)
qed

lemma batch_typed:
  assumes "sync_typed s"
  shows "sync_typed (fst (batch s)) \<and> (\<forall>op \<in> set (snd (batch s)). op_ok op)"
  using assms by (auto simp: batch_def sync_typed_def held_typed_def Let_def split: option.split)

lemma sync_step_typed: "sync_typed s \<Longrightarrow> step_typed sync_typed (Some (sync_step s))"
  using batch_typed[of "s\<lparr>sy_state := SyPendingWrite\<rparr>"]
  by (auto simp: sync_step_def step_typed_def sync_typed_def held_typed_def Let_def case_prod_unfold)

lemma merge_step_typed: "sync_typed s \<Longrightarrow> step_typed sync_typed (merge_step s)"
proof (induction s rule: merge_step.induct)
  case (1 s)
  obtain c s1 where next_s: "next_candidate s = (c, s1)" by fastforce
  with "1.prems" have typed: "sync_typed s1" "\<forall>c' p. c = Some c' \<longrightarrow> ca_local c' = Some p \<longrightarrow> placement_ok p"
    by (auto simp: next_candidate_def sync_typed_def held_typed_def dest!: merging_next_typed
          split: option.splits prod.splits)
  show ?case
  proof (cases c)
    case None
    have "sync_typed (s1\<lparr>sy_merging := None, sy_next_checkpoint := ck\<rparr>)" for ck
      using typed(1) by simp
    with next_s None sync_step_typed show ?thesis
      by (simp add: merge_step.simps[of s] split: option.split)
  next
    case (Some c0)
    show ?thesis
    proof (cases "merge_candidate c0 s1")
      case None
      with next_s Some show ?thesis by (simp add: merge_step.simps[of s] step_typed_def)
    next
      case s2: (Some s2)
      have "\<forall>p. ca_local c0 = Some p \<longrightarrow> placement_ok p" using typed(2) Some by blast
      with s2 typed(1) have typed2: "sync_typed s2" by (rule merge_candidate_typed)
      show ?thesis
      proof (cases "WRITE_CHUNK \<le> length (sy_writes s2)")
        case True
        with next_s Some s2
        have "merge_step s = (let (s, b) = batch (s2\<lparr>sy_state := SyMerging\<rparr>) in Some (s, Yielded (WantsWrite b)))"
          by (simp add: merge_step.simps[of s])
        with batch_typed[of "s2\<lparr>sy_state := SyMerging\<rparr>"] typed2 show ?thesis by (simp add: case_prod_unfold Let_def)
      next
        case False
        with next_s Some s2 have "merge_step s = merge_step s2"
          by (simp add: merge_step.simps[of s])
        with "1.IH"[OF next_s[symmetric] Some s2 False typed2] show ?thesis by simp
      qed
    qed
  qed
qed

text \<open>Settling the outcomes of a chunk.\<close>

lemma settle_typed:
  "sync_typed s \<Longrightarrow> sync_typed (fst (settle_flags r s))"
  "sync_typed s \<Longrightarrow> sync_typed (fst (settle_content r s))"
  "sync_typed s \<Longrightarrow> sync_typed (fst (settle_drop r s))"
  "sync_typed s \<Longrightarrow> sync_typed (fst (settle_create r s))"
  by (auto simp: sync_typed_def held_typed_def settle_flags_def settle_content_def settle_drop_def
        settle_create_def Let_def recording pulling_defs wf_intros dest: map_typed_get split: option.split)

lemma settle_result_typed: "sync_typed s \<Longrightarrow> sync_typed (settle_result r s)"
proof -
  assume "sync_typed s"
  then have "sync_typed (fst (settle_create r (fst (settle_drop r (fst (settle_content r (fst (settle_flags r s))))))))"
    by (intro settle_typed)
  with \<open>sync_typed s\<close> show ?thesis
    by (cases "pr_outcome r")
      (simp_all add: settle_result_def Let_def case_prod_unfold)
qed

lemma settle_results_typed: "sync_typed s \<Longrightarrow> sync_typed (fold settle_result results s)"
  by (induction results arbitrary: s) (simp_all add: settle_result_typed)

lemma forget_pending_typed: "sync_typed s \<Longrightarrow> sync_typed (forget_pending h s)"
  by (simp add: forget_pending_def sync_typed_def held_typed_def map_typed_remove)

lemma forget_all_typed: "sync_typed s \<Longrightarrow> sync_typed (fold forget_pending hs s)"
  by (induction hs arbitrary: s) (simp_all add: forget_pending_typed)

lemma settle_chunk_typed: "sync_typed s \<Longrightarrow> sync_typed (settle_chunk results s)"
  by (simp add: settle_chunk_def Let_def forget_all_typed settle_results_typed)

interpretation syn_typed:
  typed_verb sync_resume sync_inv sync_rank sync_finished "\<lambda>e. e" sync_ready sync_typed
proof unfold_locales
  fix s a assume typed: "sync_typed s" and a: "arg_typed a"
  have loaded: "sync_typed (s\<lparr>sy_local := bt_collect (map (\<lambda>p. (p_handle p, p)) (ld_placements ld))\<rparr>)"
    if "a = Some (ArgLoad ld)" for ld
  proof -
    have "map_typed (bt_collect (map (\<lambda>p. (p_handle p, p)) (ld_placements ld)))"
      using a that by (intro map_typed_collect) simp
    with typed show ?thesis by (simp add: sync_typed_def held_typed_def)
  qed
  have opened: "step_typed sync_typed (merge_step (open_merge sn s))" for sn
    using typed by (intro merge_step_typed) (simp add: sync_typed_def held_typed_def open_merge_def join_new_def)
  have settled: "sync_typed (fst (batch ((settle_chunk rs s)\<lparr>sy_state := SyPendingWrite\<rparr>)))
      \<and> (\<forall>op \<in> set (snd (batch ((settle_chunk rs s)\<lparr>sy_state := SyPendingWrite\<rparr>))). op_ok op)" for rs
    using settle_chunk_typed[OF typed] by (intro batch_typed) simp
  show "step_typed sync_typed (sync_resume s a)"
  proof (cases "sy_state s")
    case SyPendingEnumerate
    with typed opened show ?thesis by (auto simp: sync_resume_def split: option.split arg.split)
  next
    case SyMerging
    with typed merge_step_typed show ?thesis by (auto simp: sync_resume_def split: option.split arg.split)
  next
    case SyPendingPush
    with typed settled show ?thesis
      by (auto simp: sync_resume_def Let_def case_prod_unfold split: option.split arg.split)
  next
    case SyPendingWrite
    with typed sync_step_typed show ?thesis by (auto simp: sync_resume_def split: option.split arg.split)
  next
    case SyPendingLoad
    with typed loaded show ?thesis by (auto simp: sync_resume_def Let_def split: option.split arg.split)
  qed (use typed in \<open>auto simp: sync_resume_def split: option.split arg.split\<close>)
qed

section \<open>Sessions of the client\<close>

text \<open>
  One operation of the client, however it ends, and with whatever outcome. The remote is the
  caller's and changes state as its methods say.
\<close>

inductive client_step :: "('s, 'e) storage_ops \<Rightarrow> ('r, 'f) remote_ops \<Rightarrow> ('s, 'r) client \<Rightarrow> ('s, 'r) client \<Rightarrow> bool"
  for sto rem where
  step_open: "client_open sto rem coll cl = Some (cl', out) \<Longrightarrow> client_step sto rem cl cl'"
| step_mutate: "client_mutate sto rem coll m cl = Some (cl', out) \<Longrightarrow> client_step sto rem cl cl'"
| step_upgrade: "client_upgrade sto rem coll hs tier cl = Some (cl', out) \<Longrightarrow> client_step sto rem cl cl'"
| step_rekey: "client_rekey sto rem coll cl = Some (cl', out) \<Longrightarrow> client_step sto rem cl cl'"
| step_sync: "client_sync sto rem coll opts cl = Some (cl', out) \<Longrightarrow> client_step sto rem cl cl'"

inductive_cases client_stepE: "client_step sto rem cl cl'"

lemma fresh_verbs_typed:
  "upgrade_typed (upgrade_new coll hs tier)" "rekey_typed (rekey_new coll)" "rekey_inv (rekey_new coll)"
  "sync_typed (sync_new coll opts)" "sync_inv (sync_new coll opts)"
  by (simp_all add: upgrade_typed_def upgrade_new_def rekey_typed_def rekey_inv_def rekey_new_def
      sync_typed_def held_typed_def sync_new_def sync_inv_def)

context replica_storage
begin

lemma step_keeps_rows_ok:
  assumes "client_step sto rem cl cl'" and ok: "inv (cl_storage cl)" "rows_ok (rows (cl_storage cl))"
  shows "inv (cl_storage cl') \<and> rows_ok (rows (cl_storage cl'))"
  using assms(1)
proof cases
  case (step_open coll out)
  then show ?thesis
    unfolding client_open_def by (rule opn_typed.run_typed[OF replica_storage_axioms _ _ _ ok, rotated 3]) simp_all
next
  case (step_mutate coll m out)
  then show ?thesis
    unfolding client_mutate_def by (rule mut_typed.run_typed[OF replica_storage_axioms _ _ _ ok, rotated 3]) simp_all
next
  case (step_upgrade coll hs tier out)
  then show ?thesis
    unfolding client_upgrade_def
    by (rule upg_typed.run_typed[OF replica_storage_axioms _ _ _ ok, rotated 3]) (simp_all add: fresh_verbs_typed)
next
  case (step_rekey coll out)
  then show ?thesis
    unfolding client_rekey_def
    by (rule rek_typed.run_typed[OF replica_storage_axioms _ _ _ ok, rotated 3]) (simp_all add: fresh_verbs_typed)
next
  case (step_sync coll opts out)
  then show ?thesis
    unfolding client_sync_def
    by (rule syn_typed.run_typed[OF replica_storage_axioms _ _ _ ok, rotated 3]) (simp_all add: fresh_verbs_typed)
qed

lemma session_keeps_rows_ok:
  "(client_step sto rem)\<^sup>*\<^sup>* cl cl' \<Longrightarrow> inv (cl_storage cl) \<Longrightarrow> rows_ok (rows (cl_storage cl))
    \<Longrightarrow> inv (cl_storage cl') \<and> rows_ok (rows (cl_storage cl'))"
  by (induction rule: rtranclp_induct) (auto dest: step_keeps_rows_ok)

lemma load_well_formed:
  assumes "inv s" "rows_ok (rows s)" "st_load sto s c sc = Inr ld" "p \<in> set (ld_placements ld)"
  shows "placement_ok p \<and> p_collection p = c"
  using assms load_ok[OF assms(1), of c sc] keyed[OF assms(1)] by (fastforce simp: rows_ok_def)

end

text \<open>
  C8: no session of the client ever leaves a malformed row in the storage. Over the in-memory
  storage, from rows that keep the placement invariant (a full item holds a body, a pending
  create has no base), any number of opens, mutations, upgrades, rekeys and syncs of any
  collections, in any order, leaves rows that keep it, filed under their own collection and
  handle: whatever the remote answers, with any options, and whether each operation
  succeeds, is refused or stops half way at an error of the remote.
\<close>

theorem client_sessions_well_formed:
  assumes "mem_inv s" "rows_ok (mem_rows s)"
    and "(client_step mem_ops rem)\<^sup>*\<^sup>* (client_new s r) cl'"
  shows "mem_inv (cl_storage cl') \<and> rows_ok (mem_rows (cl_storage cl'))
    \<and> (\<exists>ld. mem_load (cl_storage cl') c sc = Inr ld
           \<and> list_all (\<lambda>p. placement_ok p \<and> p_collection p = c) (ld_placements ld))"
proof -
  have kept: "mem_inv (cl_storage cl')" "rows_ok (mem_rows (cl_storage cl'))"
    using mem.session_keeps_rows_ok[OF assms(3)] assms(1,2) by (simp_all add: client_new_def)
  moreover obtain ld where "mem_load (cl_storage cl') c sc = Inr ld" by (simp add: mem_load_def)
  ultimately show ?thesis
    using mem.load_well_formed[OF kept, of c sc ld] by (simp add: mem_ops_def list_all_iff)
qed

theorem client_sessions_well_formed_witness:
  "\<forall>rem :: (unit, unit) remote_ops. \<exists>cl' ld.
     client_mutate mem_ops rem (CollectionId ''inbox'') (MRemove (Handle ''1''))
       (client_new \<lparr>ms_placements = [((CollectionId ''inbox'', Handle ''1''), sample_placement ''1'')],
                    ms_objects = [], ms_checkpoints = []\<rparr> ()) = Some (cl', Returned (Inr ()))
     \<and> mem_load (cl_storage cl') (CollectionId ''inbox'') ScopeAll = Inr ld
     \<and> list_all (\<lambda>p. placement_ok p \<and> p_collection p = CollectionId ''inbox'') (ld_placements ld)"
proof
  fix rem :: "(unit, unit) remote_ops"
  let ?s = "\<lparr>ms_placements = [((CollectionId ''inbox'', Handle ''1''), sample_placement ''1'')],
      ms_objects = [], ms_checkpoints = []\<rparr>"
  have s: "mem_inv ?s" "mem_rows ?s (CollectionId ''inbox'', Handle ''1'') = Some (sample_placement ''1'')"
    by (simp_all add: mem_inv_def mem_rows_def bt_wf_def sample_placement_def)
  obtain cl' where cl': "client_mutate mem_ops rem (CollectionId ''inbox'') (MRemove (Handle ''1''))
      (client_new ?s ()) = Some (cl', Returned (Inr ()))"
    using mem.mutate_applies_writes[of "client_new ?s ()" "CollectionId ''inbox''" "Handle ''1''"
        "sample_placement ''1''" "MRemove (Handle ''1'')" rem] s
    by (auto simp: client_new_def)
  have ok: "rows_ok (mem_rows ?s)"
    by (simp add: rows_ok_def mem_rows_def placement_ok_def sample_defs)
  have session: "(client_step mem_ops rem)\<^sup>*\<^sup>* (client_new ?s ()) cl'"
    using step_mutate[OF cl'] by (rule r_into_rtranclp)
  have "\<exists>ld. mem_load (cl_storage cl') (CollectionId ''inbox'') ScopeAll = Inr ld
      \<and> list_all (\<lambda>p. placement_ok p \<and> p_collection p = CollectionId ''inbox'') (ld_placements ld)"
    by (rule client_sessions_well_formed[OF s(1) ok session, THEN conjunct2, THEN conjunct2])
  with cl'
  show "\<exists>cl' ld. client_mutate mem_ops rem (CollectionId ''inbox'') (MRemove (Handle ''1''))
      (client_new ?s ()) = Some (cl', Returned (Inr ()))
     \<and> mem_load (cl_storage cl') (CollectionId ''inbox'') ScopeAll = Inr ld
     \<and> list_all (\<lambda>p. placement_ok p \<and> p_collection p = CollectionId ''inbox'') (ld_placements ld)"
    by blast
qed

end
