(* ===== verification/Mailbox.thy ===== *)
theory Mailbox
  imports Sync_Mirror Typed
begin

text \<open>
  The example client (\<open>examples/mailbox_lifecycle.rs\<close>): a storage that answers every load with
  the whole collection, an IMAP-like server that keeps no revisions and always enumerates
  completely, and the story the example plays over both. The storage is a second model of the
  storage contracts; the server closes the loop the library leaves to its caller, so that what
  is pushed can be read back on the server.

  A seam method of the example that panics (an unknown collection or handle, a change that is
  not a flag change) unwinds through the driver; its error type has no value of its own, so the
  model lets the panic be the one error of the seam.
\<close>

section \<open>The storage\<close>

record box_storage =
  bx_placements :: "(collection_id \<times> handle, placement) btree_map"
  bx_objects :: "(hash, u8 list) btree_map"
  bx_checkpoints :: "(collection_id, checkpoint) btree_map"

definition box_storage_default :: box_storage where
  "box_storage_default = \<lparr>bx_placements = [], bx_objects = [], bx_checkpoints = []\<rparr>"

definition box_load :: "box_storage \<Rightarrow> collection_id \<Rightarrow> load_scope \<Rightarrow> unit + loaded" where
  "box_load s c sc =
     Inr \<lparr>ld_placements = map snd (filter (\<lambda>e. fst (fst e) = c) (bx_placements s)),
          ld_checkpoint = map_of (bx_checkpoints s) c\<rparr>"

definition box_lookup_objects :: "box_storage \<Rightarrow> link_id list \<Rightarrow> unit + (link_id, hash) btree_map" where
  "box_lookup_objects s links =
     Inr (fold (\<lambda>link known.
            case List.map_filter (\<lambda>p. if p_link_id p = Some link then p_object p else None)
                   (bt_values (bx_placements s)) of
              [] \<Rightarrow> known
            | hash # _ \<Rightarrow> bt_insert link hash known) links [])"

fun box_apply :: "write_op \<Rightarrow> box_storage \<Rightarrow> box_storage" where
  "box_apply (UpsertPlacement p) s =
     s\<lparr>bx_placements := bt_insert (p_collection p, p_handle p) p (bx_placements s)\<rparr>"
| "box_apply (DropPlacement c h _) s = s\<lparr>bx_placements := bt_remove (c, h) (bx_placements s)\<rparr>"
| "box_apply (StoreObject obj body) s =
     s\<lparr>bx_objects := bt_insert (o_hash obj) (case body of Some b \<Rightarrow> b | None \<Rightarrow> []) (bx_objects s)\<rparr>"
| "box_apply (SetCheckpoint c ck) s = s\<lparr>bx_checkpoints := bt_insert c ck (bx_checkpoints s)\<rparr>"

definition box_write :: "write_op list \<Rightarrow> box_storage \<Rightarrow> box_storage \<times> (unit + unit)" where
  "box_write ops s = (fold box_apply ops s, Inr ())"

definition box_ops :: "(box_storage, unit) storage_ops" where
  "box_ops = \<lparr>st_load = box_load, st_lookup_objects = box_lookup_objects, st_write = box_write\<rparr>"

definition box_inv :: "box_storage \<Rightarrow> bool" where
  "box_inv s \<longleftrightarrow> bt_wf (bx_placements s)
     \<and> (\<forall>c h p. map_of (bx_placements s) (c, h) = Some p \<longrightarrow> p_collection p = c \<and> p_handle p = h)"

definition box_rows :: "box_storage \<Rightarrow> rows" where
  "box_rows s = map_of (bx_placements s)"

definition box_cursor :: "box_storage \<Rightarrow> cursors" where
  "box_cursor s = map_of (bx_checkpoints s)"

lemma box_fold_ok:
  "box_inv s \<Longrightarrow> box_inv (fold box_apply ops s) \<and> box_rows (fold box_apply ops s) = fold apply_row ops (box_rows s)
     \<and> box_cursor (fold box_apply ops s) = fold apply_cursor ops (box_cursor s)"
proof (induction ops arbitrary: s)
  case (Cons op ops)
  have "box_inv (box_apply op s) \<and> box_rows (box_apply op s) = apply_row op (box_rows s)
      \<and> box_cursor (box_apply op s) = apply_cursor op (box_cursor s)"
    using Cons.prems by (cases op) (auto simp: box_inv_def box_rows_def box_cursor_def)
  with Cons.IH show ?case by simp
qed simp

text \<open>Loading more than the scope asks for is within the contract.\<close>

interpretation box: replica_storage box_ops box_inv box_rows
proof
  fix s c sc
  assume inv: "box_inv s"
  then have mem: "((c, h), p) \<in> set (bx_placements s) \<longleftrightarrow> box_rows s (c, h) = Some p" for h p
    by (simp add: box_inv_def box_rows_def bt.mem_entries)
  show "\<exists>ld. st_load box_ops s c sc = Inr ld
      \<and> (\<forall>h p. box_rows s (c, h) = Some p \<longrightarrow> in_scope sc p \<longrightarrow> p \<in> set (ld_placements ld))
      \<and> (\<forall>p \<in> set (ld_placements ld). box_rows s (c, p_handle p) = Some p)"
    using inv mem by (force simp: box_ops_def box_load_def box_inv_def box_rows_def)
next
  show "box_inv s \<Longrightarrow> \<exists>s'. st_write box_ops ops s = (s', Inr ()) \<and> box_inv s'
      \<and> box_rows s' = fold apply_row ops (box_rows s)" for s ops
    by (simp add: box_ops_def box_write_def box_fold_ok)
  show "box_inv s \<Longrightarrow> box_rows s (c, h) = Some p \<Longrightarrow> p_collection p = c \<and> p_handle p = h" for s c h p
    by (simp add: box_inv_def box_rows_def)
qed

interpretation box_cur: cursor_storage box_ops box_inv box_rows box_cursor
  by unfold_locales (auto simp: box_ops_def box_load_def box_write_def box_fold_ok, simp add: box_cursor_def)

section \<open>The server\<close>

record box_item =
  bi_link :: link_id
  bi_flags :: flags
  bi_body :: "u8 list"

record box_remote =
  br_collections :: "(collection_id, (handle, box_item) btree_map) btree_map"
  br_body_fetches :: nat

definition box_remote_default :: box_remote where
  "box_remote_default = \<lparr>br_collections = [], br_body_fetches = 0\<rparr>"

text \<open>The members of a collection, none when it does not exist.\<close>

definition box_members :: "box_remote \<Rightarrow> collection_id \<Rightarrow> (handle, box_item) btree_map" where
  "box_members r c = (case map_of (br_collections r) c of Some m \<Rightarrow> m | None \<Rightarrow> [])"

text \<open>\<open>seed\<close>, of a body that is valid UTF-8, which is what the lossy decoding leaves alone.\<close>

definition box_seed :: "string \<Rightarrow> string \<Rightarrow> string \<Rightarrow> string \<Rightarrow> string \<Rightarrow> box_remote \<Rightarrow> box_remote" where
  "box_seed coll h link subject body r =
     r\<lparr>br_collections := bt_insert (CollectionId coll)
         (bt_insert (Handle h)
            \<lparr>bi_link = LinkId link, bi_flags = flags_default,
             bi_body = as_bytes (''Subject: '' @ subject @ [CHR 0x0D, CHR 0x0A, CHR 0x0D, CHR 0x0A] @ body)\<rparr>
            (box_members r (CollectionId coll)))
         (br_collections r)\<rparr>"

definition box_hash :: "u8 list \<Rightarrow> hash" where
  "box_hash body = Hash (pad_left 16 (CHR ''0'') (hex_digits (unat (fold dg_byte body 1469598103934665603))))"

definition box_enumerate ::
  "collection_id \<Rightarrow> checkpoint option \<Rightarrow> box_remote \<Rightarrow> box_remote \<times> (unit + remote_snapshot)" where
  "box_enumerate c cursor r =
     (r, Inr \<lparr>rs_items = map (\<lambda>(h, i). \<lparr>ri_handle = h, ri_flags = bi_flags i, ri_revision = None\<rparr>) (box_members r c),
              rs_vanished = [], rs_complete = True, rs_checkpoint = Checkpoint (as_bytes ''cp'')\<rparr>)"

text \<open>\<open>lines().next()\<close>: up to the first newline, a carriage return before it cut.\<close>

definition first_line :: "u8 list \<Rightarrow> u8 list option" where
  "first_line body =
     (if body = [] then None
      else (let line = takeWhile (\<lambda>b. b \<noteq> 10) body
            in Some (if line \<noteq> [] \<and> last line = 13 \<and> 10 \<in> set body then butlast line else line)))"

definition of_bytes :: "u8 list \<Rightarrow> string" where
  "of_bytes bs = map (\<lambda>b. char_of (unat b)) bs"

definition box_fetch_one :: "(handle, box_item) btree_map \<Rightarrow> tier \<Rightarrow> handle \<Rightarrow> fetched_item option" where
  "box_fetch_one members tier h =
     do {
       item \<leftarrow> map_of members h;
       line \<leftarrow> first_line (bi_body item);
       Some \<lparr>fi_handle = h, fi_link_id = bi_link item, fi_meta = Meta (of_bytes line), fi_sort_key = sort_key_default,
             fi_body = (case tier of TierMeta \<Rightarrow> None | TierFull \<Rightarrow> Some (Inline (box_hash (bi_body item)) (bi_body item))),
             fi_revision = None\<rparr>
     }"

definition box_fetch ::
  "collection_id \<Rightarrow> handle list \<Rightarrow> tier \<Rightarrow> box_remote \<Rightarrow> box_remote \<times> (unit + fetched_item list)" where
  "box_fetch c hs tier r =
     (case do { members \<leftarrow> map_of (br_collections r) c; those (map (box_fetch_one members tier) hs) } of
        None \<Rightarrow> (r, Inl ())
      | Some items \<Rightarrow>
          (r\<lparr>br_body_fetches := br_body_fetches r + (case tier of TierMeta \<Rightarrow> 0 | TierFull \<Rightarrow> length hs)\<rparr>, Inr items))"

text \<open>One accepted flag change; \<open>None\<close> where the code panics.\<close>

definition box_push_one :: "collection_id \<Rightarrow> change \<Rightarrow> box_remote \<Rightarrow> (box_remote \<times> push_result) option" where
  "box_push_one c change r =
     (case ch_kind change of
        SetFlags h fl \<Rightarrow>
          do {
            members \<leftarrow> map_of (br_collections r) c;
            item \<leftarrow> map_of members h;
            Some (r\<lparr>br_collections := bt_insert c (bt_insert h (item\<lparr>bi_flags := fl\<rparr>) members) (br_collections r)\<rparr>,
                  \<lparr>pr_handle = h, pr_outcome = Accepted, pr_assigned = None, pr_revision = None\<rparr>)
          }
      | _ \<Rightarrow> None)"

fun box_push ::
  "collection_id \<Rightarrow> change list \<Rightarrow> box_remote \<Rightarrow> box_remote \<times> (unit + push_result list)" where
  "box_push c [] r = (r, Inr [])"
| "box_push c (ch # chs) r =
     (case box_push_one c ch r of
        None \<Rightarrow> (r, Inl ())
      | Some (r', res) \<Rightarrow>
          (case box_push c chs r' of
             (r'', Inl e) \<Rightarrow> (r'', Inl e)
           | (r'', Inr results) \<Rightarrow> (r'', Inr (res # results))))"

definition box_server :: "(box_remote, unit) remote_ops" where
  "box_server = \<lparr>rm_enumerate = box_enumerate, rm_fetch = box_fetch, rm_push = box_push\<rparr>"

abbreviation "inbox \<equiv> CollectionId ''inbox''"
abbreviation "archive \<equiv> CollectionId ''archive''"

section \<open>A flag set offline reaches the server\<close>

definition listed :: "handle \<Rightarrow> box_item \<Rightarrow> remote_item" where
  "listed h i = \<lparr>ri_handle = h, ri_flags = bi_flags i, ri_revision = None\<rparr>"

lemma find_listed:
  "List.find (\<lambda>i. ri_handle i = h) (map (\<lambda>(h, i). listed h i) members) = map_option (listed h) (map_of members h)"
  by (induction members) (auto simp: listed_def)

definition box_listing :: "box_remote \<Rightarrow> collection_id \<Rightarrow> remote_snapshot" where
  "box_listing r c =
     \<lparr>rs_items = map (\<lambda>(h, i). listed h i) (box_members r c), rs_vanished = [], rs_complete = True,
      rs_checkpoint = Checkpoint (as_bytes ''cp'')\<rparr>"

lemma box_enumerates: "rm_enumerate box_server c ck r = (r, Inr (box_listing r c))"
  by (simp add: box_server_def box_enumerate_def box_listing_def listed_def)

text \<open>The server once it took a flag change.\<close>

definition with_flags :: "box_remote \<Rightarrow> collection_id \<Rightarrow> handle \<Rightarrow> box_item \<Rightarrow> flags \<Rightarrow> box_remote" where
  "with_flags r c h item fl =
     r\<lparr>br_collections := bt_insert c (bt_insert h (item\<lparr>bi_flags := fl\<rparr>) (box_members r c)) (br_collections r)\<rparr>"

lemma box_takes_flags:
  assumes "map_of (br_collections r) c = Some members" "map_of members h = Some item"
  shows "rm_push box_server c [change_new c (SetFlags h fl)] r = (with_flags r c h item fl,
      Inr [\<lparr>pr_handle = h, pr_outcome = Accepted, pr_assigned = None, pr_revision = None\<rparr>])"
    "map_of (box_members (with_flags r c h item fl) c) = (map_of members)(h \<mapsto> item\<lparr>bi_flags := fl\<rparr>)"
  using assms by (simp_all add: box_server_def box_push_one_def with_flags_def box_members_def)

text \<open>
  C11: a flag set offline reaches the server. Over the example's storage and server, a client
  that never saw a collection syncs it, sets the flags of one of its messages and syncs again:
  the first run mirrors it, the mutation leaves the server as it was, the second run reports
  one change pushed, after which the server holds that message with those flags and every
  other message as before, the row is clean with them as its synced base, and a third run
  finds nothing to do.
\<close>

theorem mailbox_flag_delivery:
  assumes "box_inv s" "\<forall>h'. box_rows s (c, h') = None" "map_of (br_collections r) c = Some members"
    "map_of members h = Some item" "fl \<noteq> Unknown" "fl \<noteq> bi_flags item" "may_push_flags opts"
  shows "\<exists>cl1 cl2 cl3 cl4 first q.
      client_sync box_ops box_server c opts \<lparr>cl_storage = s, cl_remote = r\<rparr> = Some (cl1, Returned (Inr first))
    \<and> client_mutate box_ops box_server c (MSetFlags h fl) cl1 = Some (cl2, Returned (Inr ())) \<and> cl_remote cl2 = r
    \<and> client_sync box_ops box_server c opts cl2 = Some (cl3, Returned (Inr
        (sync_report_default\<lparr>sr_pushed := 1, sr_events := [FlagsChanged h]\<rparr>)))
    \<and> map_of (box_members (cl_remote cl3) c) = (map_of members)(h \<mapsto> item\<lparr>bi_flags := fl\<rparr>)
    \<and> box_rows (cl_storage cl3) (c, h) = Some q \<and> p_status q = Clean \<and> p_flags q = fl
    \<and> map_option b_flags (p_base q) = Some fl
    \<and> client_sync box_ops box_server c opts cl3 = Some (cl4, Returned (Inr sync_report_default))"
proof -
  let ?is = "rs_items (box_listing r c)" and ?r' = "with_flags r c h item fl"
  have members: "box_members r c = members" using assms(3) by (simp add: box_members_def)
  have found: "List.find (\<lambda>i. ri_handle i = h') ?is = map_option (listed h') (map_of members h')" for h'
    by (simp add: box_listing_def find_listed members)
  have found': "List.find (\<lambda>i. ri_handle i = h') (rs_items (box_listing ?r' c))
      = map_option (listed h') (((map_of members)(h \<mapsto> item\<lparr>bi_flags := fl\<rparr>)) h')" for h'
    using box_takes_flags(2)[OF assms(3,4), of fl] by (simp add: box_listing_def find_listed)
  obtain s1 first where s1: "client_sync box_ops box_server c opts \<lparr>cl_storage = s, cl_remote = r\<rparr>
      = Some (\<lparr>cl_storage = s1, cl_remote = r\<rparr>, Returned (Inr first))" "box_inv s1"
    "\<forall>h'. box_rows s1 (c, h') = mirror c ?is h'"
    using box_cur.mirroring_sync[where opts = opts and r = r, OF assms(1) box_enumerates _ assms(2)] by (auto simp: box_listing_def)
  let ?p = "pulled_placement c (listed h item)"
  let ?q = "?p\<lparr>p_flags := fl, p_status := Dirty\<rparr>"
  have p: "box_rows s1 (c, h) = Some ?p" using s1(3) found[of h] assms(4) by (simp add: mirror_def)
  obtain cl2 where cl2: "client_mutate box_ops box_server c (MSetFlags h fl) \<lparr>cl_storage = s1, cl_remote = r\<rparr>
      = Some (cl2, Returned (Inr ()))" "box_inv (cl_storage cl2)" "cl_remote cl2 = r"
    "box_rows (cl_storage cl2) = (box_rows s1)((c, h) \<mapsto> ?q)"
    using box.mutate_applies_writes[of "\<lparr>cl_storage = s1, cl_remote = r\<rparr>" c h ?p "MSetFlags h fl" box_server] s1(2) p
    by (auto simp: mutate_writes_def mutate_new_def pulled_placement_def listed_def)
  have others: "\<forall>h'. h' \<noteq> h \<longrightarrow> idle (paired (box_rows (cl_storage cl2)) c ?is h')"
    using s1(3) found
    by (auto simp: cl2(4) paired_def mirror_def idle_def agrees_def pulled_placement_def split: option.split)
  have edit: "pushes_flags ?q (listed h item)"
    using assms(5,6) by (simp add: pushes_flags_def pulled_placement_def listed_def)
  have push: "rm_push box_server c [change_new c (SetFlags h (p_flags ?q))] r = (?r',
      Inr [\<lparr>pr_handle = h, pr_outcome = Accepted, pr_assigned = None, pr_revision = None\<rparr>])"
    using box_takes_flags(1)[OF assms(3,4)] by simp
  obtain s3 where s3: "client_sync box_ops box_server c opts \<lparr>cl_storage = cl_storage cl2, cl_remote = r\<rparr>
      = Some (\<lparr>cl_storage = s3, cl_remote = ?r'\<rparr>, Returned (Inr
          (sync_report_default\<lparr>sr_pushed := 1, sr_events := [FlagsChanged h]\<rparr>)))" "box_inv s3"
    "box_rows s3 = (box_rows (cl_storage cl2))((c, h) \<mapsto> rebased_placement ?q (p_flags ?q))"
    using box_cur.flagging_sync[OF cl2(2) box_enumerates _ others _ _ edit assms(7) push] cl2(4) found[of h] assms(4)
    by (auto simp: box_listing_def)
  have agree: "\<forall>h'. idle (paired (box_rows s3) c (rs_items (box_listing ?r' c)) h')"
    using s1(3) found found'
    by (auto simp: s3(3) cl2(4) paired_def mirror_def idle_def agrees_def pulled_placement_def rebased_placement_def
          settled_status_def flags_base_def listed_def split: option.split)
  obtain s4 where s4: "client_sync box_ops box_server c opts \<lparr>cl_storage = s3, cl_remote = ?r'\<rparr>
      = Some (\<lparr>cl_storage = s4, cl_remote = ?r'\<rparr>, Returned (Inr sync_report_default))"
    using box_cur.idle_sync[where opts = opts, OF s3(2) box_enumerates _ agree] by (auto simp: box_listing_def)
  have "cl2 = \<lparr>cl_storage = cl_storage cl2, cl_remote = r\<rparr>" using cl2(3) by simp
  with s1(1) cl2(1,3) s3(1,3) s4 box_takes_flags(2)[OF assms(3,4), of fl] show ?thesis
    by (intro exI[of _ "\<lparr>cl_storage = s1, cl_remote = r\<rparr>"] exI[of _ cl2] exI[of _ "\<lparr>cl_storage = s3, cl_remote = ?r'\<rparr>"]
          exI[of _ "\<lparr>cl_storage = s4, cl_remote = ?r'\<rparr>"] exI[of _ first] exI[of _ "rebased_placement ?q fl"])
      (simp add: rebased_placement_def settled_status_def flags_base_def)
qed

theorem mailbox_flag_delivery_witness:
  "\<exists>cl1 cl2 cl3 first report.
     client_sync box_ops box_server inbox sync_options_default
       (client_new box_storage_default \<lparr>br_collections = [(inbox, [(Handle ''1'',
          \<lparr>bi_link = LinkId ''m'', bi_flags = flags_default, bi_body = as_bytes ''Subject: s''\<rparr>)])], br_body_fetches = 0\<rparr>)
       = Some (cl1, Returned (Inr first))
     \<and> client_mutate box_ops box_server inbox (MSetFlags (Handle ''1'') (flags_from_iter [''seen''])) cl1
       = Some (cl2, Returned (Inr ()))
     \<and> client_sync box_ops box_server inbox sync_options_default cl2 = Some (cl3, Returned (Inr report))
     \<and> map_of (box_members (cl_remote cl3) inbox) (Handle ''1'')
       = Some \<lparr>bi_link = LinkId ''m'', bi_flags = flags_from_iter [''seen''], bi_body = as_bytes ''Subject: s''\<rparr>"
proof -
  let ?item = "\<lparr>bi_link = LinkId ''m'', bi_flags = flags_default, bi_body = as_bytes ''Subject: s''\<rparr>"
  let ?r = "\<lparr>br_collections = [(inbox, [(Handle ''1'', ?item)])], br_body_fetches = 0\<rparr>"
  have "box_inv box_storage_default" "\<forall>h'. box_rows box_storage_default (inbox, h') = None"
    "map_of (br_collections ?r) inbox = Some [(Handle ''1'', ?item)]" "map_of [(Handle ''1'', ?item)] (Handle ''1'') = Some ?item"
    "flags_from_iter [''seen''] \<noteq> Unknown" "flags_from_iter [''seen''] \<noteq> bi_flags ?item" "may_push_flags sync_options_default"
    by (simp_all add: box_inv_def box_rows_def box_storage_default_def flags_from_iter_def flags_default_def
          may_push_flags_def sync_options_default_def push_rights_all_def)
  note run = mailbox_flag_delivery[OF this]
  from run show ?thesis
    unfolding client_new_def by (elim exE conjE, intro exI conjI) (assumption | simp)+
qed

section \<open>The story\<close>

text \<open>\<open>unwrap\<close> of an operation of the client: \<open>None\<close> is its panic.\<close>

fun box_ok :: "(('s, 'r) client \<times> ('e, 'f, 'c, 't) outcome) option \<Rightarrow> (('s, 'r) client \<times> 't) option" where
  "box_ok (Some (cl, Returned (Inr out))) = Some (cl, out)"
| "box_ok _ = None"

text \<open>What the story prints.\<close>

record lifecycle =
  lc_pulled :: nat
  lc_rows :: nat
  lc_fetched :: nat
  lc_deduped :: nat
  lc_archive_fetched :: nat
  lc_objects :: nat
  lc_downloads :: nat
  lc_pushed :: nat
  lc_server_flags :: "string fset option"
  lc_pulled_again :: nat
  lc_local_flags :: "string fset option"

definition box_main :: "lifecycle option" where
  "box_main =
     (let remote = box_seed ''inbox'' ''1'' ''msg-1'' ''Lunch tomorrow?'' ''Nope, Thursday!'' box_remote_default;
          remote = box_seed ''inbox'' ''2'' ''msg-2'' ''Invoice #42'' ''Attached.'' remote;
          remote = box_seed ''archive'' ''9'' ''msg-1'' ''Lunch tomorrow?'' ''Nope, Thursday!'' remote;
          cl = client_new box_storage_default remote
      in do {
        (cl, first) \<leftarrow> box_ok (client_sync box_ops box_server inbox sync_options_default cl);
        (cl, loaded) \<leftarrow> box_ok (client_open box_ops box_server inbox cl);
        (cl, _) \<leftarrow> box_ok (client_upgrade box_ops box_server inbox [Handle ''1'', Handle ''2''] TierMeta cl);
        (cl, full) \<leftarrow> box_ok (client_upgrade box_ops box_server inbox [Handle ''1''] TierFull cl);
        (cl, _) \<leftarrow> box_ok (client_sync box_ops box_server archive sync_options_default cl);
        (cl, _) \<leftarrow> box_ok (client_upgrade box_ops box_server archive [Handle ''9''] TierMeta cl);
        (cl, copy) \<leftarrow> box_ok (client_upgrade box_ops box_server archive [Handle ''9''] TierFull cl);
        let objects = length (bx_objects (cl_storage cl));
        let downloads = br_body_fetches (cl_remote cl);
        (cl, _) \<leftarrow> box_ok (client_mutate box_ops box_server inbox
                       (MSetFlags (Handle ''1'') (flags_from_iter [''seen''])) cl);
        (cl, pushed) \<leftarrow> box_ok (client_sync box_ops box_server inbox sync_options_default cl);
        members \<leftarrow> map_of (br_collections (cl_remote cl)) inbox;
        seen \<leftarrow> map_of members (Handle ''1'');
        other \<leftarrow> map_of members (Handle ''2'');
        let members = bt_insert (Handle ''2'') (other\<lparr>bi_flags := flags_from_iter [''flagged'']\<rparr>) members;
        let cl = cl\<lparr>cl_remote := (cl_remote cl)\<lparr>br_collections := bt_insert inbox members (br_collections (cl_remote cl))\<rparr>\<rparr>;
        (cl, last) \<leftarrow> box_ok (client_sync box_ops box_server inbox sync_options_default cl);
        local \<leftarrow> map_of (bx_placements (cl_storage cl)) (inbox, Handle ''2'');
        Some \<lparr>lc_pulled = sr_pulled first, lc_rows = length (ld_placements loaded), lc_fetched = ur_fetched full,
              lc_deduped = ur_deduped copy, lc_archive_fetched = ur_fetched copy, lc_objects = objects,
              lc_downloads = downloads, lc_pushed = sr_pushed pushed, lc_server_flags = known (bi_flags seen),
              lc_pulled_again = sr_pulled last, lc_local_flags = known (p_flags local)\<rparr>
      })"

section \<open>Playing the story\<close>

definition lunch_body :: "u8 list" where
  "lunch_body = as_bytes (''Subject: Lunch tomorrow?'' @ [CHR 0x0D, CHR 0x0A, CHR 0x0D, CHR 0x0A] @ ''Nope, Thursday!'')"

definition invoice_body :: "u8 list" where
  "invoice_body = as_bytes (''Subject: Invoice #42'' @ [CHR 0x0D, CHR 0x0A, CHR 0x0D, CHR 0x0A] @ ''Attached.'')"

text \<open>The whole client between two steps: the rows and the flags the server holds are what varies.\<close>

definition story_members :: "flags \<Rightarrow> flags \<Rightarrow> (handle, box_item) btree_map" where
  "story_members f1 f2 =
     [(Handle ''1'', \<lparr>bi_link = LinkId ''msg-1'', bi_flags = f1, bi_body = lunch_body\<rparr>),
      (Handle ''2'', \<lparr>bi_link = LinkId ''msg-2'', bi_flags = f2, bi_body = invoice_body\<rparr>)]"

definition story_archive :: "(handle, box_item) btree_map" where
  "story_archive = [(Handle ''9'', \<lparr>bi_link = LinkId ''msg-1'', bi_flags = flags_default, bi_body = lunch_body\<rparr>)]"

definition story_remote :: "flags \<Rightarrow> flags \<Rightarrow> nat \<Rightarrow> box_remote" where
  "story_remote f1 f2 n = \<lparr>br_collections = [(archive, story_archive), (inbox, story_members f1 f2)], br_body_fetches = n\<rparr>"

definition story_cp :: checkpoint where
  "story_cp = Checkpoint (as_bytes ''cp'')"

definition story_store :: "placement list \<Rightarrow> (hash, u8 list) btree_map \<Rightarrow> collection_id list \<Rightarrow> box_storage" where
  "story_store ps objects cs =
     \<lparr>bx_placements = map (\<lambda>p. ((p_collection p, p_handle p), p)) ps, bx_objects = objects,
      bx_checkpoints = map (\<lambda>c. (c, story_cp)) cs\<rparr>"

text \<open>The rows of the story, as the steps leave them.\<close>

definition probed :: "collection_id \<Rightarrow> string \<Rightarrow> placement" where
  "probed c h = pulled_placement c \<lparr>ri_handle = Handle h, ri_flags = flags_default, ri_revision = None\<rparr>"

definition headline :: "u8 list \<Rightarrow> u8 list" where
  "headline body = the (first_line body)"

definition summary :: "u8 list \<Rightarrow> meta" where
  "summary body = Meta (of_bytes (headline body))"

definition hinted :: "string \<Rightarrow> u8 list \<Rightarrow> placement \<Rightarrow> placement" where
  "hinted link body p = p\<lparr>p_link_id := Some (LinkId link), p_meta := Some (summary body), p_level := LvMeta\<rparr>"

definition hydrated :: "u8 list \<Rightarrow> placement \<Rightarrow> placement" where
  "hydrated body p =
     p\<lparr>p_object := Some (box_hash body), p_level := LvFull,
       p_base := map_option (\<lambda>b. b\<lparr>b_object := Some (box_hash body)\<rparr>) (p_base p)\<rparr>"

lemma story_start:
  "box_seed ''archive'' ''9'' ''msg-1'' ''Lunch tomorrow?'' ''Nope, Thursday!''
     (box_seed ''inbox'' ''2'' ''msg-2'' ''Invoice #42'' ''Attached.''
       (box_seed ''inbox'' ''1'' ''msg-1'' ''Lunch tomorrow?'' ''Nope, Thursday!'' box_remote_default))
   = story_remote flags_default flags_default 0"
  by (simp add: box_seed_def box_remote_default_def box_members_def story_remote_def story_archive_def story_members_def
        lunch_body_def invoice_body_def less_char_def)

lemma first_line_story:
  "first_line lunch_body = Some (headline lunch_body)" "first_line invoice_body = Some (headline invoice_body)"
  by (simp_all add: headline_def first_line_def lunch_body_def invoice_body_def as_bytes_def)

lemmas story_state =
  story_remote_def story_archive_def story_members_def story_store_def story_cp_def[symmetric]

lemmas box_eval =
  run_eval run_step_simps run_served_ok service_def box_ops_def box_server_def box_load_def box_write_def
  box_enumerate_def box_members_def less_char_def less_eq_char_def Let_def

lemmas sync_eval =
  client_sync_def sync_resume_def sync_new_def bt_collect_def sync_options_default_def open_merge_def snapshot_items_def
  join_new_def merge_step.simps next_candidate_def merging_next.simps join_next_def merge_candidate_def merge_table
  pull_add_def recording WRITE_CHUNK_def batch_def sync_step_def PUSH_CHUNK_def sync_report_default_def

lemma story_first_sync:
  "client_sync box_ops box_server inbox sync_options_default
     \<lparr>cl_storage = story_store [] [] [], cl_remote = story_remote flags_default flags_default 0\<rparr>
   = Some (\<lparr>cl_storage = story_store [probed inbox ''1'', probed inbox ''2''] [] [inbox],
            cl_remote = story_remote flags_default flags_default 0\<rparr>,
       Returned (Inr (sync_report_default\<lparr>sr_pulled := 2, sr_events := [Added (Handle ''1''), Added (Handle ''2'')]\<rparr>)))"
  unfolding client_sync_def
  by (subst run_eval) (simp add: sync_eval box_eval story_state probed_def pulled_placement_def)

lemmas upgrade_eval =
  client_upgrade_def upgrade_resume_def upgrade_new_def upgrade_arms pending_handles_def needs_upgrade_def
  is_conflicted_def is_mutable_def bt_collect_def upgrade_report_default_def fresh_links_def claimed_links_def
  List.map_filter_def fetch_one_def take_link_def count_fetched_def bt_or_insert_def lookup_one_def link_hit_def
  link_stored_def box_fetch_def box_fetch_one_def box_lookup_objects_def first_line_story

lemmas story_rows = probed_def hinted_def hydrated_def summary_def pulled_placement_def

text \<open>The inbox once its first message is hydrated; then the archive gets its copy.\<close>

definition read_1 :: placement where
  "read_1 = hydrated lunch_body (hinted ''msg-1'' lunch_body (probed inbox ''1''))"

definition read_2 :: placement where
  "read_2 = hinted ''msg-2'' invoice_body (probed inbox ''2'')"

lemma story_summaries:
  "client_upgrade box_ops box_server inbox [Handle ''1'', Handle ''2''] TierMeta
     \<lparr>cl_storage = story_store [probed inbox ''1'', probed inbox ''2''] [] [inbox],
      cl_remote = story_remote flags_default flags_default 0\<rparr>
   = Some (\<lparr>cl_storage = story_store [hinted ''msg-1'' lunch_body (probed inbox ''1''),
                read_2] [] [inbox],
            cl_remote = story_remote flags_default flags_default 0\<rparr>,
       Returned (Inr \<lparr>ur_upgraded = 2, ur_fetched = 2, ur_deduped = 0\<rparr>))"
  unfolding client_upgrade_def
  by (subst run_eval) (simp add: upgrade_eval box_eval story_state story_rows read_2_def)

lemma story_body:
  "client_upgrade box_ops box_server inbox [Handle ''1''] TierFull
     \<lparr>cl_storage = story_store [hinted ''msg-1'' lunch_body (probed inbox ''1''), read_2] [] [inbox],
      cl_remote = story_remote flags_default flags_default 0\<rparr>
   = Some (\<lparr>cl_storage = story_store [read_1, read_2] [(box_hash lunch_body, lunch_body)] [inbox],
            cl_remote = story_remote flags_default flags_default 1\<rparr>,
       Returned (Inr \<lparr>ur_upgraded = 1, ur_fetched = 1, ur_deduped = 0\<rparr>))"
  unfolding client_upgrade_def
  by (subst run_eval) (simp add: upgrade_eval box_eval story_state story_rows read_1_def read_2_def)

abbreviation story_client :: "placement list \<Rightarrow> collection_id list \<Rightarrow> flags \<Rightarrow> flags \<Rightarrow> (box_storage, box_remote) client" where
  "story_client ps cs f1 f2 \<equiv>
     \<lparr>cl_storage = story_store ps [(box_hash lunch_body, lunch_body)] cs, cl_remote = story_remote f1 f2 1\<rparr>"

lemmas story_read = read_1_def read_2_def story_rows

lemma story_archive_sync:
  "client_sync box_ops box_server archive sync_options_default
     (story_client [read_1, read_2] [inbox] flags_default flags_default)
   = Some (story_client [probed archive ''9'', read_1, read_2] [archive, inbox] flags_default flags_default,
       Returned (Inr (sync_report_default\<lparr>sr_pulled := 1, sr_events := [Added (Handle ''9'')]\<rparr>)))"
  unfolding client_sync_def
  by (subst run_eval) (simp add: sync_eval box_eval story_state story_read)

lemma story_archive_summary:
  "client_upgrade box_ops box_server archive [Handle ''9''] TierMeta
     (story_client [probed archive ''9'', read_1, read_2] [archive, inbox] flags_default flags_default)
   = Some (story_client [hinted ''msg-1'' lunch_body (probed archive ''9''), read_1, read_2] [archive, inbox]
            flags_default flags_default,
       Returned (Inr \<lparr>ur_upgraded = 1, ur_fetched = 1, ur_deduped = 0\<rparr>))"
  unfolding client_upgrade_def
  by (subst run_eval) (simp add: upgrade_eval box_eval story_state story_read)

definition copied_9 :: placement where
  "copied_9 = hydrated lunch_body (hinted ''msg-1'' lunch_body (probed archive ''9''))"

lemma story_archive_body:
  "client_upgrade box_ops box_server archive [Handle ''9''] TierFull
     (story_client [hinted ''msg-1'' lunch_body (probed archive ''9''), read_1, read_2] [archive, inbox]
        flags_default flags_default)
   = Some (story_client [copied_9, read_1, read_2] [archive, inbox] flags_default flags_default,
       Returned (Inr \<lparr>ur_upgraded = 1, ur_fetched = 0, ur_deduped = 1\<rparr>))"
  unfolding client_upgrade_def
  by (subst run_eval) (simp add: upgrade_eval box_eval story_state story_read copied_9_def)

definition flagged :: "string \<Rightarrow> placement \<Rightarrow> placement" where
  "flagged f p =
     p\<lparr>p_flags := flags_from_iter [f],
       p_base := map_option (\<lambda>b. b\<lparr>b_flags := flags_from_iter [f]\<rparr>) (p_base p)\<rparr>"

lemma story_flag:
  "client_mutate box_ops box_server inbox (MSetFlags (Handle ''1'') (flags_from_iter [''seen'']))
     (story_client [copied_9, read_1, read_2] [archive, inbox] flags_default flags_default)
   = Some (story_client [copied_9, read_1\<lparr>p_flags := flags_from_iter [''seen''], p_status := Dirty\<rparr>, read_2]
            [archive, inbox] flags_default flags_default, Returned (Inr ()))"
  unfolding client_mutate_def
  by (subst run_eval)
    (simp add: mutate_resume_def mutate_new_def mutation_scope_def mutate_writes_def box_eval story_state story_read
      copied_9_def)

lemmas present_eval =
  merge_present_def reconcile_content_def reconcile_flags_def flags_merge_def flags_default_def flags_from_iter_def
  pull_flags_def pulled_flags_placement_def flags_base_def settled_status_def may_push_flags_def push_rights_all_def
  settle_chunk_def settle_result_def settle_flags_def settle_content_def settle_drop_def settle_create_def rebase_def
  rebased_placement_def forget_pending_def bt_remove_def box_push_one_def

lemma story_push:
  "client_sync box_ops box_server inbox sync_options_default
     (story_client [copied_9, read_1\<lparr>p_flags := flags_from_iter [''seen''], p_status := Dirty\<rparr>, read_2]
        [archive, inbox] flags_default flags_default)
   = Some (story_client [copied_9, flagged ''seen'' read_1, read_2] [archive, inbox] (flags_from_iter [''seen'']) flags_default,
       Returned (Inr (sync_report_default\<lparr>sr_pushed := 1, sr_events := [FlagsChanged (Handle ''1'')]\<rparr>)))"
  unfolding client_sync_def
  by (subst run_eval)
    (simp add: sync_eval box_eval present_eval story_state story_read copied_9_def flagged_def)

lemma story_pull:
  "client_sync box_ops box_server inbox sync_options_default
     (story_client [copied_9, flagged ''seen'' read_1, read_2] [archive, inbox]
        (flags_from_iter [''seen'']) (flags_from_iter [''flagged'']))
   = Some (story_client [copied_9, flagged ''seen'' read_1, flagged ''flagged'' read_2] [archive, inbox]
            (flags_from_iter [''seen'']) (flags_from_iter [''flagged'']),
       Returned (Inr (sync_report_default\<lparr>sr_pulled := 1, sr_events := [FlagsChanged (Handle ''2'')]\<rparr>)))"
  unfolding client_sync_def
  by (subst run_eval)
    (simp add: sync_eval box_eval present_eval story_state story_read copied_9_def flagged_def)

lemma story_open:
  "client_open box_ops box_server inbox
     \<lparr>cl_storage = story_store [probed inbox ''1'', probed inbox ''2''] [] [inbox], cl_remote = r\<rparr>
   = Some (\<lparr>cl_storage = story_store [probed inbox ''1'', probed inbox ''2''] [] [inbox], cl_remote = r\<rparr>,
       Returned (Inr \<lparr>ld_placements = [probed inbox ''1'', probed inbox ''2''], ld_checkpoint = Some story_cp\<rparr>))"
  unfolding client_open_def
  by (subst run_eval) (simp add: open_resume_def open_new_def box_eval story_store_def probed_def pulled_placement_def)

lemmas story_steps =
  story_first_sync story_open story_summaries story_body story_archive_sync story_archive_summary story_archive_body
  story_flag story_push story_pull

text \<open>What the steps in between read, and the flag another client sets on the server.\<close>

lemma story_reads:
  "box_storage_default = story_store [] [] []"
  "bx_objects (story_store ps objects cs) = objects"
  "br_body_fetches (story_remote f1 f2 n) = n"
  "map_of (br_collections (story_remote f1 f2 n)) inbox = Some (story_members f1 f2)"
  "map_of (story_members f1 f2) (Handle ''1'') = Some \<lparr>bi_link = LinkId ''msg-1'', bi_flags = f1, bi_body = lunch_body\<rparr>"
  "map_of (story_members f1 f2) (Handle ''2'') = Some \<lparr>bi_link = LinkId ''msg-2'', bi_flags = f2, bi_body = invoice_body\<rparr>"
  "bt_insert (Handle ''2'') \<lparr>bi_link = LinkId ''msg-2'', bi_flags = f, bi_body = invoice_body\<rparr> (story_members f1 f2)
     = story_members f1 f"
  "(story_remote f1 f2 n)\<lparr>br_collections := bt_insert inbox (story_members f1' f2') (br_collections (story_remote f1 f2 n))\<rparr>
     = story_remote f1' f2' n"
  "map_of (bx_placements (story_store [copied_9, flagged g read_1, flagged g' read_2] objects cs)) (inbox, Handle ''2'')
     = Some (flagged g' read_2)"
  "p_flags (flagged g p) = flags_from_iter [g]"
  by (simp_all add: box_storage_default_def story_store_def story_remote_def story_members_def less_char_def
        flagged_def copied_9_def story_read)

text \<open>
  The example plays as its text says. Two messages are pulled and opened offline with no
  body; their summaries are fetched and one body downloaded; the archive's copy of that
  message is linked to the stored body with no second download; a flag set offline is pushed
  and read back on the server; and a flag another client set on the server is pulled. The
  whole stack takes part: the client's loop, the five verbs but the rekey, the storage and the
  server.
\<close>

theorem mailbox_story:
  "box_main = Some
     \<lparr>lc_pulled = 2, lc_rows = 2, lc_fetched = 1, lc_deduped = 1, lc_archive_fetched = 0, lc_objects = 1,
      lc_downloads = 1, lc_pushed = 1, lc_server_flags = Some {|''seen''|}, lc_pulled_again = 1,
      lc_local_flags = Some {|''flagged''|}\<rparr>"
  unfolding box_main_def Let_def story_start client_new_def
  by (simp add: story_reads story_steps del: One_nat_def)
    (simp add: sync_report_default_def flags_from_iter_def)

end
