(* ===== verification/Test_Prelude.thy ===== *)
theory Test_Prelude
  imports Coroutine
begin

text \<open>
  What the unit tests of the repository are written with. A test is a computation that may
  panic: an assertion that fails, an \<open>unwrap\<close> or an index that finds nothing is \<open>None\<close>, and a
  test that passes is \<open>Some ()\<close>.
\<close>

definition check :: "bool \<Rightarrow> unit option" where
  "check b = (if b then Some () else None)"

text \<open>\<open>xs[i]\<close>, \<open>xs.pop()\<close>, and \<open>map.get_mut(k)\<close> followed by an assignment through it.\<close>

definition at :: "'a list \<Rightarrow> nat \<Rightarrow> 'a option" where
  "at xs i = (if i < length xs then Some (xs ! i) else None)"

definition popped :: "'a list \<Rightarrow> 'a option" where
  "popped xs = (if xs = [] then None else Some (last xs))"

definition bt_change :: "'k::linorder \<Rightarrow> ('v \<Rightarrow> 'v) \<Rightarrow> ('k, 'v) btree_map \<Rightarrow> ('k, 'v) btree_map option" where
  "bt_change k f m = map_option (\<lambda>v. bt_insert k (f v) m) (map_of m k)"

text \<open>The placement of an upsert; any other write is unreachable in the tests.\<close>

fun upserted :: "write_op \<Rightarrow> placement option" where
  "upserted (UpsertPlacement p) = Some p"
| "upserted _ = None"

text \<open>The placement a batch upserts under a handle, if any.\<close>

definition upserted_at :: "write_op list \<Rightarrow> string \<Rightarrow> placement option" where
  "upserted_at ws h = List.find (\<lambda>p. p_handle p = Handle h) (List.map_filter upserted ws)"

text \<open>What a resume yielded, or what it completed with; anything else panics the test.\<close>

fun wants_load :: "(yield, 'r) cstate \<Rightarrow> (collection_id \<times> load_scope) option" where
  "wants_load (Yielded (WantsLoad c scope)) = Some (c, scope)"
| "wants_load _ = None"

fun wants_write :: "(yield, 'r) cstate \<Rightarrow> write_op list option" where
  "wants_write (Yielded (WantsWrite ops)) = Some ops"
| "wants_write _ = None"

fun wants_enumerate :: "(yield, 'r) cstate \<Rightarrow> (collection_id \<times> checkpoint option) option" where
  "wants_enumerate (Yielded (WantsEnumerate c cursor)) = Some (c, cursor)"
| "wants_enumerate _ = None"

fun wants_fetch :: "(yield, 'r) cstate \<Rightarrow> (handle list \<times> tier) option" where
  "wants_fetch (Yielded (WantsFetch c hs t)) = Some (hs, t)"
| "wants_fetch _ = None"

fun wants_push :: "(yield, 'r) cstate \<Rightarrow> change list option" where
  "wants_push (Yielded (WantsPush c chs)) = Some chs"
| "wants_push _ = None"

fun wants_lookup :: "(yield, 'r) cstate \<Rightarrow> link_id list option" where
  "wants_lookup (Yielded (WantsLookupObject links)) = Some links"
| "wants_lookup _ = None"

fun completed_ok :: "('y, 'e + 't) cstate \<Rightarrow> 't option" where
  "completed_ok (Complete (Inr t)) = Some t"
| "completed_ok _ = None"

fun completed_err :: "('y, 'e + 't) cstate \<Rightarrow> 'e option" where
  "completed_err (Complete (Inl e)) = Some e"
| "completed_err _ = None"

end
