(* ===== verification/Hub_Tests.thy ===== *)
theory Hub_Tests
  imports Hub Test_Prelude
begin

text \<open>
  The unit tests of \<open>hub.rs\<close>, translated one by one and run on the model: what the code's authors
  assert of the hub is what its definitions compute.
\<close>

section \<open>Fixtures\<close>

definition based_on :: "string list \<Rightarrow> base" where
  "based_on fs = \<lparr>b_flags = flags_from_iter fs, b_revision = None, b_object = None\<rparr>"

definition plain_binding :: "string \<Rightarrow> string list \<Rightarrow> source_binding" where
  "plain_binding h fs =
     \<lparr>sb_handle = Handle h, sb_base = Some (based_on fs), sb_conflicted = False,
      sb_conflict_revision = None, sb_conflict_object = None, sb_shared_object = None\<rparr>"

definition hub_with_left :: "string list \<Rightarrow> hub" where
  "hub_with_left fs =
     \<lparr>hub_items = [(LinkId ''m1'',
        \<lparr>hi_flags = flags_from_iter fs, hi_object = None, hi_meta = None, hi_sort_key = sort_key_default,
         hi_level = LvMeta, hi_deleted = False, hi_conflicted = False, hi_conflict_object = None,
         hi_sources = [(SourceId ''left'', plain_binding ''l1'' fs)]\<rparr>)],
      hub_policy = HcManual\<rparr>"

definition placements :: "hub \<Rightarrow> string \<Rightarrow> placement list" where
  "placements hub source = hub_project (CollectionId ''inbox'') (SourceId source) hub"

definition change_item :: "link_id \<Rightarrow> (hub_item \<Rightarrow> hub_item) \<Rightarrow> hub \<Rightarrow> hub option" where
  "change_item l f hub = map_option (\<lambda>items. hub\<lparr>hub_items := items\<rparr>) (bt_change l f (hub_items hub))"

definition item_at :: "hub \<Rightarrow> string \<Rightarrow> hub_item option" where
  "item_at hub l = map_of (hub_items hub) (LinkId l)"

definition source_at :: "hub_item \<Rightarrow> string \<Rightarrow> source_binding option" where
  "source_at i s = map_of (hi_sources i) (SourceId s)"

definition insert_source :: "string \<Rightarrow> source_binding \<Rightarrow> hub_item \<Rightarrow> hub_item" where
  "insert_source s b i = i\<lparr>hi_sources := bt_insert (SourceId s) b (hi_sources i)\<rparr>"

definition bind_right :: "string list \<Rightarrow> hub \<Rightarrow> hub option" where
  "bind_right fs = change_item (LinkId ''m1'') (insert_source ''right'' (plain_binding ''r1'' fs))"

definition hydrate_binding :: "source_binding \<Rightarrow> source_binding" where
  "hydrate_binding b =
     b\<lparr>sb_base := map_option (\<lambda>a. a\<lparr>b_object := Some (Hash ''body'')\<rparr>) (sb_base b),
       sb_shared_object := Some (Hash ''body'')\<rparr>"

definition hydrate_left :: "link_id \<Rightarrow> hub \<Rightarrow> hub option" where
  "hydrate_left l = change_item l (\<lambda>i. i\<lparr>hi_object := Some (Hash ''body''), hi_level := LvFull,
     hi_sources := map (\<lambda>(s, b). (s, hydrate_binding b)) (hi_sources i)\<rparr>)"

definition minted_link :: link_id where
  "minted_link = LinkId ''dup:m1#l2''"

definition mint_on_left :: "hub \<Rightarrow> hub option" where
  "mint_on_left hub =
     do {
       i \<leftarrow> item_at hub ''m1'';
       let copy = i\<lparr>hi_sources := [(SourceId ''left'', plain_binding ''l2'' [''seen''])]\<rparr>;
       hydrate_left minted_link (hub\<lparr>hub_items := bt_insert minted_link copy (hub_items hub)\<rparr>)
     }"

definition drop_of :: "string \<Rightarrow> drop_reason \<Rightarrow> write_op" where
  "drop_of h reason = DropPlacement (CollectionId ''inbox'') (Handle h) reason"

section \<open>Projection and deletes\<close>

definition in_agreement_items_project_clean_without_a_body :: "unit option" where
  "in_agreement_items_project_clean_without_a_body =
     do {
       hub \<leftarrow> bind_right [''seen''] (hub_with_left [''seen'']);
       check (list_all (\<lambda>source. case placements hub source of
           [p] \<Rightarrow> p_status p = Clean \<and> p_level p \<noteq> LvFull \<and> p_object p = None
         | _ \<Rightarrow> False) [''left'', ''right''])
     }"

definition a_flag_change_absorbed_from_one_source_projects_dirty_on_the_other :: "unit option" where
  "a_flag_change_absorbed_from_one_source_projects_dirty_on_the_other =
     do {
       hub \<leftarrow> bind_right [] (hub_with_left []);
       p \<leftarrow> popped (placements hub ''left'');
       let pulled = p\<lparr>p_flags := flags_from_iter [''seen''], p_status := Clean, p_base := Some (based_on [''seen''])\<rparr>;
       let hub = absorb (SourceId ''left'') [UpsertPlacement pulled] hub;
       right \<leftarrow> popped (placements hub ''right'');
       check (flags_contains (p_flags right) ''seen'');
       check (p_status right = Dirty);
       b \<leftarrow> p_base right;
       check (b_flags b = flags_from_iter [])
     }"

definition an_item_missing_on_a_source_projects_a_created_append_once_hydrated :: "unit option" where
  "an_item_missing_on_a_source_projects_a_created_append_once_hydrated =
     do {
       hub \<leftarrow> change_item (LinkId ''m1'') (\<lambda>i. i\<lparr>hi_object := Some (Hash ''h1'')\<rparr>) (hub_with_left [''seen'']);
       hub \<leftarrow> change_item (LinkId ''m1'') (\<lambda>i. i\<lparr>hi_level := LvFull\<rparr>) hub;
       let right = placements hub ''right'';
       check (length right = 1);
       p \<leftarrow> at right 0;
       check (p_status p = Created);
       check (p_object p = Some (Hash ''h1''));
       check (p_base p = None)
     }"

definition a_missing_item_without_a_body_is_not_projected_no_fetch :: "unit option" where
  "a_missing_item_without_a_body_is_not_projected_no_fetch =
     check (placements (hub_with_left [''seen'']) ''right'' = [])"

definition absorbing_a_drop_removes_only_that_sources_binding :: "unit option" where
  "absorbing_a_drop_removes_only_that_sources_binding =
     do {
       hub \<leftarrow> bind_right [''seen''] (hub_with_left [''seen'']);
       let hub = absorb (SourceId ''left'') [drop_of ''l1'' Deleted] hub;
       i \<leftarrow> item_at hub ''m1'';
       check (source_at i ''left'' = None);
       check (source_at i ''right'' \<noteq> None)
     }"

definition a_minted_copy_is_offered_to_a_source_that_holds_neither :: "unit option" where
  "a_minted_copy_is_offered_to_a_source_that_holds_neither =
     do {
       hub \<leftarrow> hydrate_left (LinkId ''m1'') (hub_with_left [''seen'']);
       hub \<leftarrow> mint_on_left hub;
       let phone = placements hub ''phone'';
       check (length phone = 2);
       check (list_all (\<lambda>p. p_status p = Created \<and> p_object p = Some (Hash ''body'')) phone);
       check (length (placements hub ''left'') = 2)
     }"

definition a_drop_of_a_minted_copy_deletes_only_that_copy :: "unit option" where
  "a_drop_of_a_minted_copy_deletes_only_that_copy =
     do {
       hub \<leftarrow> hydrate_left (LinkId ''m1'') (hub_with_left [''seen'']);
       hub \<leftarrow> mint_on_left hub;
       hub \<leftarrow> bind_right [''seen''] hub;
       hub \<leftarrow> change_item minted_link (insert_source ''right'' (plain_binding ''r2'' [''seen''])) hub;
       let hub = absorb (SourceId ''left'') [drop_of ''l2'' Deleted] hub;
       minted \<leftarrow> map_of (hub_items hub) minted_link;
       check (hi_deleted minted);
       bare \<leftarrow> item_at hub ''m1'';
       check (\<not> hi_deleted bare);
       let right = placements hub ''right'';
       r2 \<leftarrow> List.find (\<lambda>p. p_handle p = Handle ''r2'') right;
       check (p_status r2 = Tombstone);
       r1 \<leftarrow> List.find (\<lambda>p. p_handle p = Handle ''r1'') right;
       check (p_status r1 \<noteq> Tombstone)
     }"

definition a_superseded_row_does_not_delete_the_shared_item :: "unit option" where
  "a_superseded_row_does_not_delete_the_shared_item =
     do {
       hub \<leftarrow> bind_right [''seen''] (hub_with_left [''seen'']);
       let hub = absorb (SourceId ''left'') [drop_of ''l1'' Superseded] hub;
       i \<leftarrow> item_at hub ''m1'';
       check (\<not> hi_deleted i);
       right \<leftarrow> at (placements hub ''right'') 0;
       check (p_status right = Clean)
     }"

definition a_delete_on_one_source_projects_a_tombstone_on_the_other :: "unit option" where
  "a_delete_on_one_source_projects_a_tombstone_on_the_other =
     do {
       hub \<leftarrow> bind_right [''seen''] (hub_with_left [''seen'']);
       let hub = absorb (SourceId ''left'') [drop_of ''l1'' Deleted] hub;
       i \<leftarrow> item_at hub ''m1'';
       check (hi_deleted i);
       check (source_at i ''left'' = None);
       let right = placements hub ''right'';
       check (length right = 1);
       p \<leftarrow> at right 0;
       check (p_status p = Tombstone);
       check (p_handle p = Handle ''r1'');
       check (p_base p \<noteq> None);
       check (placements hub ''left'' = [])
     }"

definition a_client_staged_tombstone_upsert_marks_deleted_and_keeps_the_binding :: "unit option" where
  "a_client_staged_tombstone_upsert_marks_deleted_and_keeps_the_binding =
     do {
       let hub = hub_with_left [''seen''];
       p \<leftarrow> popped (placements hub ''left'');
       let hub = absorb (SourceId ''left'') [UpsertPlacement (p\<lparr>p_status := Tombstone\<rparr>)] hub;
       i \<leftarrow> item_at hub ''m1'';
       check (hi_deleted i);
       check (source_at i ''left'' \<noteq> None);
       let left = placements hub ''left'';
       check (length left = 1);
       p \<leftarrow> at left 0;
       check (p_status p = Tombstone);
       check (p_handle p = Handle ''l1'');
       check (p_base p \<noteq> None)
     }"

definition a_deleted_item_is_pruned_once_every_source_propagates :: "unit option" where
  "a_deleted_item_is_pruned_once_every_source_propagates =
     do {
       hub \<leftarrow> bind_right [''seen''] (hub_with_left [''seen'']);
       let hub = fold (\<lambda>(source, h). absorb (SourceId source) [drop_of h Deleted]) [(''left'', ''l1''), (''right'', ''r1'')] hub;
       check (hub_items hub = [])
     }"

definition a_live_upsert_resurrects_a_delete_in_flight :: "unit option" where
  "a_live_upsert_resurrects_a_delete_in_flight =
     do {
       hub \<leftarrow> bind_right [''seen''] (hub_with_left [''seen'']);
       let hub = absorb (SourceId ''right'') [drop_of ''r1'' Deleted] hub;
       i \<leftarrow> item_at hub ''m1'';
       check (hi_deleted i);
       let pulled =
         \<lparr>p_collection = CollectionId ''inbox'', p_handle = Handle ''l1'', p_link_id = Some (LinkId ''m1''), p_object = None,
          p_level = LvMeta, p_meta = None, p_sort_key = sort_key_default, p_flags = flags_from_iter [''seen'', ''flagged''],
          p_status = Clean, p_conflict_revision = None, p_conflict_object = None,
          p_base = Some (based_on [''seen'', ''flagged'']), p_origin = None\<rparr>;
       let hub = absorb (SourceId ''left'') [UpsertPlacement pulled] hub;
       i \<leftarrow> item_at hub ''m1'';
       check (\<not> hi_deleted i);
       check (flags_contains (hi_flags i) ''flagged'');
       hub \<leftarrow> change_item (LinkId ''m1'') (\<lambda>i. i\<lparr>hi_object := Some (Hash ''h1'')\<rparr>) hub;
       right \<leftarrow> at (placements hub ''right'') 0;
       check (p_status right = Created)
     }"

lemma hub_projection_tests:
  "in_agreement_items_project_clean_without_a_body = Some ()"
  "a_flag_change_absorbed_from_one_source_projects_dirty_on_the_other = Some ()"
  "an_item_missing_on_a_source_projects_a_created_append_once_hydrated = Some ()"
  "a_missing_item_without_a_body_is_not_projected_no_fetch = Some ()"
  "absorbing_a_drop_removes_only_that_sources_binding = Some ()"
  "a_minted_copy_is_offered_to_a_source_that_holds_neither = Some ()"
  "a_drop_of_a_minted_copy_deletes_only_that_copy = Some ()"
  "a_superseded_row_does_not_delete_the_shared_item = Some ()"
  "a_delete_on_one_source_projects_a_tombstone_on_the_other = Some ()"
  "a_client_staged_tombstone_upsert_marks_deleted_and_keeps_the_binding = Some ()"
  "a_deleted_item_is_pruned_once_every_source_propagates = Some ()"
  "a_live_upsert_resurrects_a_delete_in_flight = Some ()"
  by code_simp+

section \<open>Bodies that diverge\<close>

definition synced_at :: "string \<Rightarrow> string \<Rightarrow> base" where
  "synced_at revision obj = \<lparr>b_flags = flags_default, b_revision = Some revision, b_object = Some (Hash obj)\<rparr>"

definition content_binding :: "string \<Rightarrow> source_binding" where
  "content_binding h =
     \<lparr>sb_handle = Handle h, sb_base = Some (synced_at ''r0'' ''o0''), sb_conflicted = False,
      sb_conflict_revision = None, sb_conflict_object = None, sb_shared_object = Some (Hash ''o0'')\<rparr>"

definition content_hub :: "hub_conflict \<Rightarrow> hub" where
  "content_hub policy =
     \<lparr>hub_items = [(LinkId ''m1'',
        \<lparr>hi_flags = flags_default, hi_object = Some (Hash ''o0''), hi_meta = None, hi_sort_key = sort_key_default,
         hi_level = LvFull, hi_deleted = False, hi_conflicted = False, hi_conflict_object = None,
         hi_sources = [(SourceId ''left'', content_binding ''l1''), (SourceId ''right'', content_binding ''r1'')]\<rparr>)],
      hub_policy = policy\<rparr>"

definition content_upsert :: "string \<Rightarrow> string \<Rightarrow> write_op" where
  "content_upsert h obj = UpsertPlacement
     \<lparr>p_collection = CollectionId ''inbox'', p_handle = Handle h, p_link_id = Some (LinkId ''m1''), p_object = Some (Hash obj),
      p_level = LvFull, p_meta = None, p_sort_key = sort_key_default, p_flags = flags_default, p_status = Clean,
      p_conflict_revision = None, p_conflict_object = None, p_base = Some (synced_at ''r1'' obj), p_origin = None\<rparr>"

definition edited_upsert :: "string \<Rightarrow> string \<Rightarrow> write_op option" where
  "edited_upsert h obj =
     do {
       p \<leftarrow> upserted (content_upsert h obj);
       Some (UpsertPlacement (p\<lparr>p_status := Dirty, p_base := Some (synced_at ''r0'' ''o0'')\<rparr>))
     }"

definition conflicted_upsert :: "string \<Rightarrow> string \<Rightarrow> string \<Rightarrow> write_op" where
  "conflicted_upsert h obj revision = UpsertPlacement
     \<lparr>p_collection = CollectionId ''inbox'', p_handle = Handle h, p_link_id = Some (LinkId ''m1''), p_object = Some (Hash obj),
      p_level = LvFull, p_meta = None, p_sort_key = sort_key_default, p_flags = flags_default, p_status = Conflict,
      p_conflict_revision = Some revision, p_conflict_object = Some (Hash ''o-remote''),
      p_base = Some (synced_at ''r0'' ''o0''), p_origin = None\<rparr>"

definition item_object :: "hub \<Rightarrow> hash option option" where
  "item_object hub = map_option hi_object (item_at hub ''m1'')"

abbreviation absorb_left :: "write_op \<Rightarrow> hub \<Rightarrow> hub" where
  "absorb_left op \<equiv> absorb (SourceId ''left'') [op]"

abbreviation absorb_right :: "write_op \<Rightarrow> hub \<Rightarrow> hub" where
  "absorb_right op \<equiv> absorb (SourceId ''right'') [op]"

definition a_clean_fast_forward_adopts_the_new_body :: "unit option" where
  "a_clean_fast_forward_adopts_the_new_body =
     do {
       let hub = absorb_left (content_upsert ''l1'' ''oa'') (content_hub HcManual);
       obj \<leftarrow> item_object hub;
       check (obj = Some (Hash ''oa''));
       i \<leftarrow> item_at hub ''m1'';
       check (\<not> hi_conflicted i)
     }"

definition a_second_offline_edit_is_not_a_divergence :: "unit option" where
  "a_second_offline_edit_is_not_a_divergence =
     do {
       hub \<leftarrow> change_item (LinkId ''m1'') (\<lambda>i. i\<lparr>hi_sources := bt_remove (SourceId ''right'') (hi_sources i)\<rparr>)
         (content_hub HcManual);
       e1 \<leftarrow> edited_upsert ''l1'' ''o1'';
       e2 \<leftarrow> edited_upsert ''l1'' ''o2'';
       i \<leftarrow> item_at (absorb_left e2 (absorb_left e1 hub)) ''m1'';
       check (hi_object i = Some (Hash ''o2''));
       check (\<not> hi_conflicted i);
       check (hi_conflict_object i = None)
     }"

definition a_divergence_between_unpushed_edits_still_conflicts :: "unit option" where
  "a_divergence_between_unpushed_edits_still_conflicts =
     do {
       a \<leftarrow> edited_upsert ''l1'' ''oa'';
       b \<leftarrow> edited_upsert ''r1'' ''ob'';
       i \<leftarrow> item_at (absorb_right b (absorb_left a (content_hub HcManual))) ''m1'';
       check (hi_conflicted i);
       check (hi_object i = Some (Hash ''oa''));
       check (hi_conflict_object i = Some (Hash ''ob''))
     }"

definition a_resolution_keeping_the_ancestor_moves_the_shared_body :: "unit option" where
  "a_resolution_keeping_the_ancestor_moves_the_shared_body =
     do {
       edit \<leftarrow> edited_upsert ''l1'' ''oa'';
       let hub = absorb_left edit (content_hub HcManual);
       conflicted \<leftarrow> upserted edit;
       let conflicted = conflicted\<lparr>p_status := Conflict, p_conflict_revision := Some ''r2'',
         p_conflict_object := Some (Hash ''ox'')\<rparr>;
       let hub = absorb_left (UpsertPlacement conflicted) hub;
       resolved \<leftarrow> upserted (content_upsert ''l1'' ''o0'');
       let resolved = resolved\<lparr>p_status := Dirty, p_base := Some (synced_at ''r2'' ''ox'')\<rparr>;
       i \<leftarrow> item_at (absorb_left (UpsertPlacement resolved) hub) ''m1'';
       check (hi_object i = Some (Hash ''o0''));
       check (\<not> hi_conflicted i)
     }"

definition divergent_content_conflicts_and_preserves_both_manual :: "unit option" where
  "divergent_content_conflicts_and_preserves_both_manual =
     do {
       i \<leftarrow> item_at (absorb_right (content_upsert ''r1'' ''ob'')
              (absorb_left (content_upsert ''l1'' ''oa'') (content_hub HcManual))) ''m1'';
       check (hi_conflicted i);
       check (hi_object i = Some (Hash ''oa''));
       check (hi_conflict_object i = Some (Hash ''ob''))
     }"

definition prefer_incoming_takes_the_last_writer :: "unit option" where
  "prefer_incoming_takes_the_last_writer =
     do {
       i \<leftarrow> item_at (absorb_right (content_upsert ''r1'' ''ob'')
              (absorb_left (content_upsert ''l1'' ''oa'') (content_hub HcPreferIncoming))) ''m1'';
       check (\<not> hi_conflicted i);
       check (hi_object i = Some (Hash ''ob''))
     }"

definition prefer_existing_keeps_the_shared_body :: "unit option" where
  "prefer_existing_keeps_the_shared_body =
     do {
       i \<leftarrow> item_at (absorb_right (content_upsert ''r1'' ''ob'')
              (absorb_left (content_upsert ''l1'' ''oa'') (content_hub HcPreferExisting))) ''m1'';
       check (\<not> hi_conflicted i);
       check (hi_object i = Some (Hash ''oa''))
     }"

section \<open>Conflicts of one source\<close>

definition a_conflicted_placement_round_trips_with_its_diverging_body :: "unit option" where
  "a_conflicted_placement_round_trips_with_its_diverging_body =
     do {
       let hub = absorb_left (conflicted_upsert ''l1'' ''o-local'' ''r-remote'') (content_hub HcManual);
       let projected = placements hub ''left'';
       check (length projected = 1);
       p \<leftarrow> at projected 0;
       check (p_status p = Conflict);
       check (p_object p = Some (Hash ''o-local''));
       check (p_conflict_revision p = Some ''r-remote'');
       check (p_conflict_object p = Some (Hash ''o-remote''))
     }"

definition a_conflict_outranks_the_base_comparison :: "unit option" where
  "a_conflict_outranks_the_base_comparison =
     do {
       let hub = absorb_left (conflicted_upsert ''l1'' ''o0'' ''r-remote'') (content_hub HcManual);
       i \<leftarrow> item_at hub ''m1'';
       b \<leftarrow> source_at i ''left'';
       check (sb_conflicted b);
       check (Option.bind (sb_base b) b_object = hi_object i);
       p \<leftarrow> at (placements hub ''left'') 0;
       check (p_status p = Conflict)
     }"

definition resolving_the_conflict_with_an_edit_clears_it :: "unit option" where
  "resolving_the_conflict_with_an_edit_clears_it =
     do {
       let hub = absorb_left (conflicted_upsert ''l1'' ''o-local'' ''r-remote'') (content_hub HcManual);
       p \<leftarrow> at (placements hub ''left'') 0;
       check (p_status p = Conflict);
       merged \<leftarrow> edited_upsert ''l1'' ''o-merged'';
       let hub = absorb_left merged hub;
       i \<leftarrow> item_at hub ''m1'';
       check (hi_object i = Some (Hash ''o-merged''));
       b \<leftarrow> source_at i ''left'';
       check (\<not> sb_conflicted b);
       check (sb_conflict_revision b = None);
       check (sb_conflict_object b = None);
       p \<leftarrow> at (placements hub ''left'') 0;
       check (p_status p \<noteq> Conflict)
     }"

definition the_two_conflict_axes_stay_independent :: "unit option" where
  "the_two_conflict_axes_stay_independent =
     do {
       let hub = absorb_left (conflicted_upsert ''l1'' ''o-local'' ''r-remote'') (content_hub HcManual);
       i \<leftarrow> item_at hub ''m1'';
       left \<leftarrow> source_at i ''left'';
       check (sb_conflicted left);
       check (\<not> hi_conflicted i);
       right \<leftarrow> source_at i ''right'';
       check (\<not> sb_conflicted right);
       p \<leftarrow> at (placements hub ''right'') 0;
       check (p_status p = Dirty);
       let hub = absorb_left (content_upsert ''l1'' ''o-l'') (content_hub HcManual);
       let hub = absorb_right (content_upsert ''r1'' ''o-r'') hub;
       i \<leftarrow> item_at hub ''m1'';
       check (hi_conflicted i);
       check (hi_conflict_object i = Some (Hash ''o-r''));
       right \<leftarrow> source_at i ''right'';
       check (\<not> sb_conflicted right)
     }"

definition a_tombstone_is_never_conflicted :: "unit option" where
  "a_tombstone_is_never_conflicted =
     do {
       let hub = absorb_left (conflicted_upsert ''l1'' ''o-local'' ''r-remote'') (content_hub HcManual);
       p \<leftarrow> upserted (content_upsert ''l1'' ''o0'');
       i \<leftarrow> item_at (absorb_left (UpsertPlacement (p\<lparr>p_status := Tombstone\<rparr>)) hub) ''m1'';
       check (hi_object i = Some (Hash ''o-local''));
       b \<leftarrow> source_at i ''left'';
       check (\<not> sb_conflicted b);
       check (sb_conflict_revision b = None);
       check (sb_conflict_object b = None)
     }"

definition a_tombstone_does_not_move_the_agreement_point :: "unit option" where
  "a_tombstone_does_not_move_the_agreement_point =
     do {
       left \<leftarrow> edited_upsert ''l1'' ''oa'';
       let hub = absorb_left left (content_hub HcManual);
       gone \<leftarrow> edited_upsert ''r1'' ''o0'';
       p \<leftarrow> upserted gone;
       let hub = absorb_right (UpsertPlacement (p\<lparr>p_status := Tombstone\<rparr>)) hub;
       right \<leftarrow> edited_upsert ''r1'' ''ob'';
       i \<leftarrow> item_at (absorb_right right hub) ''m1'';
       check (hi_conflicted i);
       check (hi_object i = Some (Hash ''oa''));
       check (hi_conflict_object i = Some (Hash ''ob''))
     }"

lemma hub_content_tests:
  "a_clean_fast_forward_adopts_the_new_body = Some ()"
  "a_second_offline_edit_is_not_a_divergence = Some ()"
  "a_divergence_between_unpushed_edits_still_conflicts = Some ()"
  "a_resolution_keeping_the_ancestor_moves_the_shared_body = Some ()"
  "divergent_content_conflicts_and_preserves_both_manual = Some ()"
  "prefer_incoming_takes_the_last_writer = Some ()"
  "prefer_existing_keeps_the_shared_body = Some ()"
  "a_conflicted_placement_round_trips_with_its_diverging_body = Some ()"
  "a_conflict_outranks_the_base_comparison = Some ()"
  "resolving_the_conflict_with_an_edit_clears_it = Some ()"
  "the_two_conflict_axes_stay_independent = Some ()"
  "a_tombstone_is_never_conflicted = Some ()"
  "a_tombstone_does_not_move_the_agreement_point = Some ()"
  by code_simp+

section \<open>Keys, flags and levels\<close>

definition hub_default :: hub where
  "hub_default = \<lparr>hub_items = [], hub_policy = HcManual\<rparr>"

definition probed_upsert :: "sort_key \<Rightarrow> flags \<Rightarrow> write_op" where
  "probed_upsert key fl = UpsertPlacement
     \<lparr>p_collection = CollectionId ''inbox'', p_handle = Handle ''1'', p_link_id = Some (LinkId ''mid:a@host''), p_object = None,
      p_level = LvMeta, p_meta = None, p_sort_key = key, p_flags = fl, p_status = Clean,
      p_conflict_revision = None, p_conflict_object = None, p_base = None, p_origin = None\<rparr>"

definition keyed_upsert :: "string \<Rightarrow> write_op" where
  "keyed_upsert key = probed_upsert (SortKey key) flags_default"

definition flagged_upsert :: "flags \<Rightarrow> write_op" where
  "flagged_upsert fl = probed_upsert sort_key_default fl"

definition a_sort_key_round_trips_through_the_hub :: "unit option" where
  "a_sort_key_round_trips_through_the_hub =
     do {
       let projected = placements (absorb_left (keyed_upsert ''2026-08-01T10:00:00Z'') hub_default) ''left'';
       check (length projected = 1);
       p \<leftarrow> at projected 0;
       check (sort_key_str (p_sort_key p) = ''2026-08-01T10:00:00Z'')
     }"

definition an_unknown_key_does_not_erase_a_known_one :: "unit option" where
  "an_unknown_key_does_not_erase_a_known_one =
     do {
       let hub = absorb_right (keyed_upsert []) (absorb_left (keyed_upsert ''2026-08-01T10:00:00Z'') hub_default);
       p \<leftarrow> at (placements hub ''left'') 0;
       check (sort_key_str (p_sort_key p) = ''2026-08-01T10:00:00Z'')
     }"

definition a_later_derivation_replaces_an_earlier_one :: "unit option" where
  "a_later_derivation_replaces_an_earlier_one =
     do {
       let hub = absorb_left (keyed_upsert ''2026-08-02T09:00:00Z'') (absorb_left (keyed_upsert ''2026-08-01T10:00:00Z'') hub_default);
       p \<leftarrow> at (placements hub ''left'') 0;
       check (sort_key_str (p_sort_key p) = ''2026-08-02T09:00:00Z'')
     }"

definition an_unknown_set_does_not_erase_a_known_one :: "unit option" where
  "an_unknown_set_does_not_erase_a_known_one =
     do {
       let hub = absorb_right (flagged_upsert Unknown) (absorb_left (flagged_upsert (flags_from_iter [''seen''])) hub_default);
       p \<leftarrow> at (placements hub ''left'') 0;
       check (flags_contains (p_flags p) ''seen'')
     }"

definition a_known_set_replaces_an_unknown_one :: "unit option" where
  "a_known_set_replaces_an_unknown_one =
     do {
       let hub = absorb_left (flagged_upsert (flags_from_iter [''seen''])) (absorb_left (flagged_upsert Unknown) hub_default);
       p \<leftarrow> at (placements hub ''left'') 0;
       check (flags_contains (p_flags p) ''seen'');
       let hub = absorb_left (flagged_upsert flags_default) hub;
       p \<leftarrow> at (placements hub ''left'') 0;
       check (p_flags p = flags_default)
     }"

text \<open>The summary of the fixture is \<open>{"v":1}\<close>.\<close>

definition level_upsert :: "level \<Rightarrow> string option \<Rightarrow> string option \<Rightarrow> write_op" where
  "level_upsert lv obj synced = UpsertPlacement
     \<lparr>p_collection = CollectionId ''contacts'', p_handle = Handle ''card-1.vcf'', p_link_id = Some (LinkId ''uid:card-1''),
      p_object = map_option Hash obj, p_level = lv,
      p_meta = Some (Meta (CHR ''{'' # CHR 0x22 # ''v'' @ CHR 0x22 # '':1}'')), p_sort_key = sort_key_default,
      p_flags = flags_default, p_status = Clean, p_conflict_revision = None, p_conflict_object = None,
      p_base = Some \<lparr>b_flags = flags_default, b_revision = None, b_object = map_option Hash synced\<rparr>, p_origin = None\<rparr>"

definition a_refreshed_item_stops_claiming_the_body_it_lost :: "unit option" where
  "a_refreshed_item_stops_claiming_the_body_it_lost =
     do {
       let hub = absorb_left (level_upsert LvFull (Some ''body1'') (Some ''body1'')) hub_default;
       let hub = absorb_left (level_upsert LvProbed None None) hub;
       i \<leftarrow> item_at hub ''uid:card-1'';
       check (hi_object i = None);
       check (hi_level i = LvMeta);
       p \<leftarrow> at (hub_project (CollectionId ''contacts'') (SourceId ''left'') hub) 0;
       check (p_level p = LvMeta)
     }"

definition a_body_less_item_stored_as_full_projects_below_it :: "unit option" where
  "a_body_less_item_stored_as_full_projects_below_it =
     do {
       let hub = absorb_left (level_upsert LvFull (Some ''body1'') None) hub_default;
       hub \<leftarrow> change_item (LinkId ''uid:card-1'') (\<lambda>i. i\<lparr>hi_object := None, hi_level := LvFull\<rparr>) hub;
       p \<leftarrow> at (hub_project (CollectionId ''contacts'') (SourceId ''left'') hub) 0;
       check (p_level p = LvMeta)
     }"

definition a_stored_body_keeps_the_level_it_reached :: "unit option" where
  "a_stored_body_keeps_the_level_it_reached =
     do {
       i \<leftarrow> item_at (absorb_left (level_upsert LvFull (Some ''body1'') None) hub_default) ''uid:card-1'';
       check (hi_level i = LvFull);
       check (stored_level i = LvFull)
     }"

lemma hub_shared_field_tests:
  "a_sort_key_round_trips_through_the_hub = Some ()"
  "an_unknown_key_does_not_erase_a_known_one = Some ()"
  "a_later_derivation_replaces_an_earlier_one = Some ()"
  "an_unknown_set_does_not_erase_a_known_one = Some ()"
  "a_known_set_replaces_an_unknown_one = Some ()"
  "a_refreshed_item_stops_claiming_the_body_it_lost = Some ()"
  "a_body_less_item_stored_as_full_projects_below_it = Some ()"
  "a_stored_body_keeps_the_level_it_reached = Some ()"
  by code_simp+

end
