(* ===== verification/Sync_Tests.thy ===== *)
theory Sync_Tests
  imports "HOL-Library.Sublist" Sync_Run Test_Prelude
begin

text \<open>
  The unit tests of \<open>sync.rs\<close>, run on the model. A test inspects the kind of a change and not
  its idempotency key, so the key is left unevaluated. The three tests that fill a chunk of 64
  pushes or of 1024 writes are left out, their inputs being too large for the simplifier; the
  sizes of chunks and batches are what the theory of bounds proves of every resume.
\<close>

declare kind_key_def [code del]

section \<open>Fixtures\<close>

definition synced :: "string \<Rightarrow> string list \<Rightarrow> placement" where
  "synced h fs =
     \<lparr>p_collection = CollectionId ''inbox'', p_handle = Handle h, p_link_id = Some (LinkId h), p_object = None,
      p_level = LvProbed, p_meta = None, p_sort_key = sort_key_default, p_flags = flags_from_iter fs, p_status = Clean,
      p_conflict_revision = None, p_conflict_object = None,
      p_base = Some \<lparr>b_flags = flags_from_iter fs, b_revision = None, b_object = None\<rparr>, p_origin = None\<rparr>"

definition created :: "string \<Rightarrow> placement" where
  "created h = (synced h [])\<lparr>p_link_id := None, p_flags := flags_default, p_status := Created, p_base := None,
     p_origin := Some \<lparr>or_collection = CollectionId ''sent'', or_handle = Handle ''9''\<rparr>\<rparr>"

definition remote :: "string \<Rightarrow> string list \<Rightarrow> remote_item" where
  "remote h fs = \<lparr>ri_handle = Handle h, ri_flags = flags_from_iter fs, ri_revision = None\<rparr>"

definition full :: "remote_item list \<Rightarrow> remote_snapshot" where
  "full items = \<lparr>rs_items = items, rs_vanished = [], rs_complete = True, rs_checkpoint = Checkpoint (as_bytes ''c1'')\<rparr>"

definition delta :: "remote_item list \<Rightarrow> string list \<Rightarrow> remote_snapshot" where
  "delta items gone =
     \<lparr>rs_items = items, rs_vanished = map Handle gone, rs_complete = False, rs_checkpoint = Checkpoint (as_bytes ''c1'')\<rparr>"

definition sync_of :: "sync_options \<Rightarrow> sync" where
  "sync_of opts = sync_new (CollectionId ''inbox'') opts"

definition result_of :: "string \<Rightarrow> push_outcome \<Rightarrow> push_result" where
  "result_of h outcome = \<lparr>pr_handle = Handle h, pr_outcome = outcome, pr_assigned = None, pr_revision = None\<rparr>"

definition accept_all :: "change list \<Rightarrow> push_result list" where
  "accept_all chs =
     map (\<lambda>c. \<lparr>pr_handle = change_handle c, pr_outcome = Accepted, pr_assigned = None, pr_revision = None\<rparr>) chs"

text \<open>A run to its enumeration, and one driven to its end against a remote that accepts all.\<close>

definition enumerated ::
  "sync \<Rightarrow> placement list \<Rightarrow> remote_snapshot \<Rightarrow> (sync \<times> (yield, arg_error + sync_report) cstate) option" where
  "enumerated sync local snapshot =
     do {
       (sync, _) \<leftarrow> sync_resume sync None;
       (sync, _) \<leftarrow> sync_resume sync (Some (ArgLoad \<lparr>ld_placements = local, ld_checkpoint = None\<rparr>));
       sync_resume sync (Some (ArgEnumerate snapshot))
     }"

definition run_snapshot ::
  "sync \<Rightarrow> placement list \<Rightarrow> remote_snapshot \<Rightarrow> (sync \<times> change list option \<times> write_op list \<times> sync_report) option" where
  "run_snapshot sync local snapshot =
     do {
       (sync, r) \<leftarrow> enumerated sync local snapshot;
       (sync, pushes, writes) \<leftarrow>
         (case wants_push r of
            Some changes \<Rightarrow>
              do {
                (sync, r) \<leftarrow> sync_resume sync (Some (ArgPush (accept_all changes)));
                w \<leftarrow> wants_write r;
                Some (sync, Some changes, w)
              }
          | None \<Rightarrow> do { w \<leftarrow> wants_write r; Some (sync, None, w) });
       (sync, r) \<leftarrow> sync_resume sync (Some ArgWrite);
       report \<leftarrow> completed_ok r;
       Some (sync, pushes, writes, report)
     }"

definition run_sync ::
  "sync_options \<Rightarrow> placement list \<Rightarrow> remote_item list \<Rightarrow> (change list option \<times> write_op list \<times> sync_report) option" where
  "run_sync opts local items = map_option snd (run_snapshot (sync_of opts) local (full items))"

definition drive_push ::
  "placement list \<Rightarrow> remote_item list \<Rightarrow> push_result list \<Rightarrow> (write_op list \<times> sync_report) option" where
  "drive_push local items results =
     do {
       (sync, r) \<leftarrow> enumerated (sync_of sync_options_default) local (full items);
       wants_push r;
       (sync, r) \<leftarrow> sync_resume sync (Some (ArgPush results));
       writes \<leftarrow> wants_write r;
       (_, r) \<leftarrow> sync_resume sync (Some ArgWrite);
       report \<leftarrow> completed_ok r;
       Some (writes, report)
     }"

definition drops :: "write_op list \<Rightarrow> string \<Rightarrow> bool" where
  "drops ws h = list_ex (\<lambda>op. case op of DropPlacement _ h' _ \<Rightarrow> h' = Handle h | _ \<Rightarrow> False) ws"

definition first_kind :: "change list option \<Rightarrow> change_kind option" where
  "first_kind pushes = do { chs \<leftarrow> pushes; c \<leftarrow> at chs 0; Some (ch_kind c) }"

text \<open>A dirty flag placement, ready to derive one push.\<close>

definition dirty_flags :: "string \<Rightarrow> string list \<Rightarrow> string list \<Rightarrow> placement" where
  "dirty_flags h base fs = (synced h base)\<lparr>p_flags := flags_from_iter fs, p_status := Dirty\<rparr>"

definition pending_flag :: "string \<Rightarrow> placement" where
  "pending_flag h = dirty_flags h [] [''flagged'']"

fun sets_flags :: "change_kind \<Rightarrow> flags option" where
  "sets_flags (SetFlags _ fl) = Some fl"
| "sets_flags _ = None"

text \<open>A synced placement with a staged content edit, and an item at a content revision.\<close>

definition edited :: "string \<Rightarrow> placement" where
  "edited h = (synced h [])\<lparr>p_status := Dirty, p_object := Some (Hash ''h2''), p_level := LvFull,
     p_base := Some \<lparr>b_flags = flags_from_iter [], b_revision = Some ''r1'', b_object = Some (Hash ''h1'')\<rparr>\<rparr>"

definition remote_rev :: "string \<Rightarrow> string \<Rightarrow> remote_item" where
  "remote_rev h revision = (remote h [])\<lparr>ri_revision := Some revision\<rparr>"

definition based :: "string option \<Rightarrow> hash option \<Rightarrow> placement \<Rightarrow> placement" where
  "based revision object p =
     p\<lparr>p_base := map_option (\<lambda>b. b\<lparr>b_revision := revision, b_object := object\<rparr>) (p_base p)\<rparr>"

definition tombstone :: "placement \<Rightarrow> placement" where
  "tombstone p = p\<lparr>p_status := Tombstone\<rparr>"

definition in_conflict :: "string \<Rightarrow> placement \<Rightarrow> placement" where
  "in_conflict revision p = p\<lparr>p_status := Conflict, p_conflict_revision := Some revision\<rparr>"

definition read_only :: sync_options where
  "read_only =
     \<lparr>opt_push = False, opt_rights = push_rights_all, opt_delete = Revert, opt_conflict = Manual, opt_full = False\<rparr>"

definition with_rights :: "bool \<Rightarrow> bool \<Rightarrow> bool \<Rightarrow> bool \<Rightarrow> sync_options" where
  "with_rights fl content add remove =
     sync_options_default\<lparr>opt_rights :=
       \<lparr>rights_flags = fl, rights_content = content, rights_add = add, rights_remove = remove\<rparr>\<rparr>"

definition with_conflict :: "conflict_policy \<Rightarrow> sync_options" where
  "with_conflict policy = sync_options_default\<lparr>opt_conflict := policy\<rparr>"

definition accepted_push :: "string \<Rightarrow> push_result" where
  "accepted_push h = result_of h Accepted"

text \<open>
  What a run asked for, in the order it asked, and a driver that assumes nothing about how many
  pushes and writes a run takes. The driver's loop may not end, so it is a partial function.
\<close>

datatype ask = AskPush | AskWrite

record run_log =
  run_chunks :: "change list list"
  run_order :: "ask list"
  run_batches :: "write_op list list"
  run_report :: sync_report

partial_function (option) run_loop :: "(sync \<times> (yield, arg_error + sync_report) cstate) option \<Rightarrow> run_log \<Rightarrow> run_log option" where
  "run_loop resumed run =
     (case resumed of
        Some (sync, Yielded (WantsPush _ changes)) \<Rightarrow>
          run_loop (sync_resume sync (Some (ArgPush (accept_all changes))))
            (run\<lparr>run_order := run_order run @ [AskPush], run_chunks := run_chunks run @ [changes]\<rparr>)
      | Some (sync, Yielded (WantsWrite writes)) \<Rightarrow>
          run_loop (sync_resume sync (Some ArgWrite))
            (run\<lparr>run_order := run_order run @ [AskWrite], run_batches := run_batches run @ [writes]\<rparr>)
      | Some (_, Complete (Inr report)) \<Rightarrow> Some (run\<lparr>run_report := report\<rparr>)
      | _ \<Rightarrow> None)"

lemma run_loop_code [code]:
  "run_loop None run = None"
  "run_loop (Some (sync, Yielded y)) run =
     (case y of
        WantsPush _ changes \<Rightarrow>
          run_loop (sync_resume sync (Some (ArgPush (accept_all changes))))
            (run\<lparr>run_order := run_order run @ [AskPush], run_chunks := run_chunks run @ [changes]\<rparr>)
      | WantsWrite writes \<Rightarrow>
          run_loop (sync_resume sync (Some ArgWrite))
            (run\<lparr>run_order := run_order run @ [AskWrite], run_batches := run_batches run @ [writes]\<rparr>)
      | _ \<Rightarrow> None)"
  "run_loop (Some (sync, Complete r)) run =
     (case r of Inr report \<Rightarrow> Some (run\<lparr>run_report := report\<rparr>) | Inl _ \<Rightarrow> None)"
  by (subst run_loop.simps, simp split: yield.split sum.split)+

definition run_to_end :: "sync \<Rightarrow> placement list \<Rightarrow> remote_snapshot \<Rightarrow> run_log option" where
  "run_to_end sync local snapshot =
     do {
       (sync, _) \<leftarrow> sync_resume sync None;
       (sync, _) \<leftarrow> sync_resume sync (Some (ArgLoad \<lparr>ld_placements = local, ld_checkpoint = None\<rparr>));
       run_loop (sync_resume sync (Some (ArgEnumerate snapshot)))
         \<lparr>run_chunks = [], run_order = [], run_batches = [], run_report = sync_report_default\<rparr>
     }"

definition moved_to :: "string \<Rightarrow> placement \<Rightarrow> placement" where
  "moved_to coll p = p\<lparr>p_origin := Some \<lparr>or_collection = CollectionId coll, or_handle = Handle ''1''\<rparr>\<rparr>"

text \<open>What a test reads of an add, a remove and an update.\<close>

fun adds :: "change_kind \<Rightarrow> (flags \<times> origin option \<times> hash option) option" where
  "adds (Add _ _ fl origin object) = Some (fl, origin, object)"
| "adds _ = None"

fun removes :: "change_kind \<Rightarrow> (collection_id option \<times> string option) option" where
  "removes (Remove _ to _ if_match) = Some (to, if_match)"
| "removes _ = None"

fun updates :: "change_kind \<Rightarrow> (handle \<times> hash \<times> string option) option" where
  "updates (Update h object if_match) = Some (h, object, if_match)"
| "updates _ = None"

abbreviation default_run :: "placement list \<Rightarrow> remote_item list \<Rightarrow> (change list option \<times> write_op list \<times> sync_report) option" where
  "default_run \<equiv> run_sync sync_options_default"

section \<open>Pulls and pushes of flags\<close>

definition remote_add_pulls_probed :: "unit option" where
  "remote_add_pulls_probed =
     do {
       (pushes, writes, report) \<leftarrow> default_run [] [remote ''1'' [''seen'']];
       check (pushes = None);
       check (sr_pulled report = 1);
       op \<leftarrow> at writes 0;
       p \<leftarrow> upserted op;
       check (p_level p = LvProbed);
       check (flags_contains (p_flags p) ''seen'')
     }"

definition an_unknown_local_set_adopts_the_remote_one_and_pushes_nothing :: "unit option" where
  "an_unknown_local_set_adopts_the_remote_one_and_pushes_nothing =
     do {
       (pushes, writes, report) \<leftarrow> default_run [(synced ''1'' [])\<lparr>p_flags := Unknown\<rparr>] [remote ''1'' [''seen'']];
       check (pushes = None);
       check (sr_pulled report = 1);
       op \<leftarrow> at writes 0;
       p \<leftarrow> upserted op;
       check (flags_contains (p_flags p) ''seen'')
     }"

definition local_flag_change_pushes :: "unit option" where
  "local_flag_change_pushes =
     do {
       (pushes, _, report) \<leftarrow> default_run [dirty_flags ''1'' [] [''seen'']] [remote ''1'' []];
       kind \<leftarrow> first_kind pushes;
       sets_flags kind;
       check (sr_pushed report = 1)
     }"

definition rejected_flag_push_keeps_dirty :: "unit option" where
  "rejected_flag_push_keeps_dirty =
     do {
       (writes, report) \<leftarrow> drive_push [pending_flag ''1''] [remote ''1'' []] [result_of ''1'' Rejected];
       check (upserted_at writes ''1'' = None);
       check (sr_rejected report = 1)
     }"

definition accepted_flag_push_rebases_clean :: "unit option" where
  "accepted_flag_push_rebases_clean =
     do {
       (writes, _) \<leftarrow> drive_push [pending_flag ''1''] [remote ''1'' []] [accepted_push ''1''];
       rebased \<leftarrow> upserted_at writes ''1'';
       check (p_status rebased = Clean);
       b \<leftarrow> p_base rebased;
       check (flags_contains (b_flags b) ''flagged'')
     }"

definition an_unreported_push_stays_pending :: "unit option" where
  "an_unreported_push_stays_pending =
     do {
       (writes, report) \<leftarrow>
         drive_push [pending_flag ''1'', pending_flag ''2''] [remote ''1'' [], remote ''2'' []] [accepted_push ''1''];
       p \<leftarrow> upserted_at writes ''1'';
       check (p_status p = Clean);
       check (upserted_at writes ''2'' = None);
       check (sr_pushed report = 1);
       check (sr_rejected report = 0)
     }"

definition a_result_set_is_matched_by_handle_not_by_shape :: "unit option" where
  "a_result_set_is_matched_by_handle_not_by_shape =
     do {
       (writes, report) \<leftarrow>
         drive_push [pending_flag ''1'', pending_flag ''2''] [remote ''1'' [], remote ''2'' []]
           [accepted_push ''2'', accepted_push ''nobody-pushed-this'', accepted_push ''1'', accepted_push ''2''];
       one \<leftarrow> upserted_at writes ''1'';
       check (p_status one = Clean);
       two \<leftarrow> upserted_at writes ''2'';
       check (p_status two = Clean);
       check (upserted_at writes ''nobody-pushed-this'' = None);
       check (sr_pushed report = 2);
       check (length (sr_events report) = 2)
     }"

definition partial_push_accepts_one_rejects_other :: "unit option" where
  "partial_push_accepts_one_rejects_other =
     do {
       (writes, report) \<leftarrow>
         drive_push [pending_flag ''1'', pending_flag ''2''] [remote ''1'' [], remote ''2'' []]
           [accepted_push ''1'', result_of ''2'' Rejected];
       one \<leftarrow> upserted_at writes ''1'';
       check (p_status one = Clean);
       check (upserted_at writes ''2'' = None);
       check (sr_pushed report = 1);
       check (sr_rejected report = 1)
     }"

definition rejected_push_retries_on_next_sync :: "unit option" where
  "rejected_push_retries_on_next_sync =
     do {
       (writes, _) \<leftarrow> drive_push [pending_flag ''1''] [remote ''1'' []] [result_of ''1'' Rejected];
       check (upserted_at writes ''1'' = None);
       (pushes, _, report) \<leftarrow> default_run [pending_flag ''1''] [remote ''1'' []];
       kind \<leftarrow> first_kind pushes;
       sets_flags kind;
       check (sr_pushed report = 1)
     }"

lemma flag_push_tests:
  "remote_add_pulls_probed = Some ()"
  "an_unknown_local_set_adopts_the_remote_one_and_pushes_nothing = Some ()"
  "local_flag_change_pushes = Some ()"
  "rejected_flag_push_keeps_dirty = Some ()"
  "accepted_flag_push_rebases_clean = Some ()"
  "an_unreported_push_stays_pending = Some ()"
  "a_result_set_is_matched_by_handle_not_by_shape = Some ()"
  "partial_push_accepts_one_rejects_other = Some ()"
  "rejected_push_retries_on_next_sync = Some ()"
  by code_simp+

section \<open>Unordered and duplicate listings\<close>

definition unordered_local :: "placement list" where
  "unordered_local = [synced ''1'' [], synced ''2'' [], synced ''3'' [], dirty_flags ''5'' [] [''flagged'']]"

definition ordered_items :: "remote_item list" where
  "ordered_items = [remote ''1'' [''seen''], remote ''3'' [], remote ''4'' [], remote ''5'' []]"

definition an_unordered_enumeration_merges_like_an_ordered_one :: "unit option" where
  "an_unordered_enumeration_merges_like_an_ordered_one =
     do {
       ordered \<leftarrow> run_to_end (sync_of sync_options_default) unordered_local (full ordered_items);
       unordered \<leftarrow> run_to_end (sync_of sync_options_default) unordered_local (full (rev ordered_items));
       check (run_chunks unordered = run_chunks ordered);
       check (concat (run_batches unordered) = concat (run_batches ordered));
       check (run_report unordered = run_report ordered);
       check (sr_pulled (run_report ordered) = 3);
       check (sr_pushed (run_report ordered) = 1)
     }"

definition a_handle_listed_twice_is_merged_once :: "unit option" where
  "a_handle_listed_twice_is_merged_once =
     do {
       run \<leftarrow> run_to_end (sync_of sync_options_default) [synced ''1'' []]
         (full [remote ''1'' [''seen''], remote ''1'' [''seen'']]);
       check (sr_events (run_report run) = [FlagsChanged (Handle ''1'')]);
       check (length (concat (run_batches run)) = 2)
     }"

lemma listing_tests:
  "an_unordered_enumeration_merges_like_an_ordered_one = Some ()"
  "a_handle_listed_twice_is_merged_once = Some ()"
  by code_simp+

section \<open>Flag reconciliation\<close>

definition remote_flag_change_pulls :: "unit option" where
  "remote_flag_change_pulls =
     do {
       (pushes, writes, report) \<leftarrow> default_run [synced ''1'' []] [remote ''1'' [''seen'']];
       check (pushes = None);
       check (sr_pulled report = 1);
       op \<leftarrow> at writes 0;
       p \<leftarrow> upserted op;
       check (flags_contains (p_flags p) ''seen'');
       check (p_status p = Clean)
     }"

definition divergent_flags_merge_element_wise :: "unit option" where
  "divergent_flags_merge_element_wise =
     do {
       (pushes, writes, report) \<leftarrow> default_run [pending_flag ''1''] [remote ''1'' [''seen'']];
       kind \<leftarrow> first_kind pushes;
       fl \<leftarrow> sets_flags kind;
       check (flags_contains fl ''flagged'' \<and> flags_contains fl ''seen'');
       check (sr_conflicts report = 0);
       check (sr_pulled report = 1);
       rebased \<leftarrow> upserted_at (rev writes) ''1'';
       check (p_status rebased = Clean);
       check (flags_contains (p_flags rebased) ''flagged'' \<and> flags_contains (p_flags rebased) ''seen'');
       b \<leftarrow> p_base rebased;
       check (flags_contains (b_flags b) ''flagged'' \<and> flags_contains (b_flags b) ''seen'')
     }"

definition flag_removal_merges_against_concurrent_addition :: "unit option" where
  "flag_removal_merges_against_concurrent_addition =
     do {
       (pushes, _, report) \<leftarrow>
         default_run [(synced ''1'' [''seen''])\<lparr>p_flags := flags_default, p_status := Dirty\<rparr>]
           [remote ''1'' [''seen'', ''important'']];
       kind \<leftarrow> first_kind pushes;
       fl \<leftarrow> sets_flags kind;
       check (flags_contains fl ''important'');
       check (\<not> flags_contains fl ''seen'');
       check (sr_conflicts report = 0)
     }"

definition read_only_keeps_local_dirty :: "unit option" where
  "read_only_keeps_local_dirty =
     do {
       (pushes, _, report) \<leftarrow> run_sync read_only [dirty_flags ''1'' [] [''seen'']] [remote ''1'' []];
       check (pushes = None);
       check (sr_pushed report = 0)
     }"

definition unchanged_flags_is_noop :: "unit option" where
  "unchanged_flags_is_noop =
     do {
       (pushes, writes, report) \<leftarrow> default_run [synced ''1'' [''seen'']] [remote ''1'' [''seen'']];
       check (pushes = None);
       check (report = sync_report_default);
       check (upserted_at writes ''1'' = None)
     }"

definition concurrent_same_flags_rebases_without_push :: "unit option" where
  "concurrent_same_flags_rebases_without_push =
     do {
       (pushes, writes, report) \<leftarrow> default_run [pending_flag ''1''] [remote ''1'' [''flagged'']];
       check (pushes = None);
       check (sr_conflicts report = 0);
       rebased \<leftarrow> upserted_at writes ''1'';
       check (p_status rebased = Clean);
       b \<leftarrow> p_base rebased;
       check (flags_contains (b_flags b) ''flagged'')
     }"

definition no_base_present_converges_on_remote :: "unit option" where
  "no_base_present_converges_on_remote =
     do {
       (pushes, writes, report) \<leftarrow>
         default_run [(synced ''1'' [''flagged''])\<lparr>p_base := None\<rparr>] [remote ''1'' [''seen'']];
       check (pushes = None);
       check (sr_pulled report = 1);
       pulled \<leftarrow> upserted_at writes ''1'';
       check (p_status pulled = Clean);
       check (flags_contains (p_flags pulled) ''seen'');
       check (\<not> flags_contains (p_flags pulled) ''flagged'')
     }"

definition flag_pull_on_a_conflicted_placement_keeps_the_conflict :: "unit option" where
  "flag_pull_on_a_conflicted_placement_keeps_the_conflict =
     do {
       (pushes, writes, report) \<leftarrow>
         default_run [in_conflict ''r2'' (edited ''1'')] [(remote_rev ''1'' ''r2'')\<lparr>ri_flags := flags_from_iter [''seen'']\<rparr>];
       check (pushes = None);
       check (sr_pulled report = 1);
       pulled \<leftarrow> upserted_at writes ''1'';
       check (p_status pulled = Conflict);
       check (flags_contains (p_flags pulled) ''seen'');
       check (p_object pulled = Some (Hash ''h2''))
     }"

definition read_only_still_pulls_remote_changes :: "unit option" where
  "read_only_still_pulls_remote_changes =
     do {
       (pushes, writes, report) \<leftarrow> run_sync read_only [synced ''1'' []] [remote ''1'' [''seen'']];
       check (pushes = None);
       check (sr_pulled report = 1);
       p \<leftarrow> upserted_at writes ''1'';
       check (flags_contains (p_flags p) ''seen'')
     }"

definition noop_flag_edit_rebases_clean :: "unit option" where
  "noop_flag_edit_rebases_clean =
     do {
       (pushes, writes, report) \<leftarrow>
         default_run [(synced ''1'' [''seen''])\<lparr>p_status := Dirty\<rparr>] [remote ''1'' [''seen'']];
       check (pushes = None);
       check (report = sync_report_default);
       cleaned \<leftarrow> upserted_at writes ''1'';
       check (p_status cleaned = Clean)
     }"

lemma flag_reconcile_tests:
  "remote_flag_change_pulls = Some ()"
  "divergent_flags_merge_element_wise = Some ()"
  "flag_removal_merges_against_concurrent_addition = Some ()"
  "read_only_keeps_local_dirty = Some ()"
  "unchanged_flags_is_noop = Some ()"
  "concurrent_same_flags_rebases_without_push = Some ()"
  "no_base_present_converges_on_remote = Some ()"
  "flag_pull_on_a_conflicted_placement_keeps_the_conflict = Some ()"
  "read_only_still_pulls_remote_changes = Some ()"
  "noop_flag_edit_rebases_clean = Some ()"
  by code_simp+

section \<open>Deltas\<close>

definition delta_vanished_drops :: "unit option" where
  "delta_vanished_drops =
     do {
       (_, pushes, writes, report) \<leftarrow>
         run_snapshot (sync_of sync_options_default) [synced ''1'' [''seen'']] (delta [] [''1'']);
       check (pushes = None);
       check (sr_pulled report = 1);
       op \<leftarrow> at writes 0;
       check (drops [op] ''1'')
     }"

definition delta_pull_add :: "unit option" where
  "delta_pull_add =
     do {
       (_, pushes, writes, report) \<leftarrow>
         run_snapshot (sync_of sync_options_default) [] (delta [remote ''9'' [''seen'']] []);
       check (pushes = None);
       check (sr_pulled report = 1);
       op \<leftarrow> at writes 0;
       p \<leftarrow> upserted op;
       check (p_handle p = Handle ''9'');
       check (p_level p = LvProbed)
     }"

definition delta_leaves_unlisted_untouched :: "unit option" where
  "delta_leaves_unlisted_untouched =
     do {
       (_, pushes, writes, report) \<leftarrow>
         run_snapshot (sync_of sync_options_default) [synced ''1'' [], synced ''2'' []]
           (delta [remote ''2'' [''seen'']] []);
       check (pushes = None);
       check (sr_pulled report = 1);
       check (length writes = 2);
       op \<leftarrow> at writes 0;
       p \<leftarrow> upserted op;
       check (p_handle p = Handle ''2'');
       check (flags_contains (p_flags p) ''seen'')
     }"

definition delta_pushes_unlisted_local_dirty :: "unit option" where
  "delta_pushes_unlisted_local_dirty =
     do {
       (_, pushes, _, report) \<leftarrow>
         run_snapshot (sync_of sync_options_default) [dirty_flags ''1'' [] [''seen'']] (delta [] []);
       kind \<leftarrow> first_kind pushes;
       sets_flags kind;
       check (sr_pushed report = 1)
     }"

definition unknown_vanished_handle_is_ignored :: "unit option" where
  "unknown_vanished_handle_is_ignored =
     do {
       (_, pushes, writes, report) \<leftarrow>
         run_snapshot (sync_of sync_options_default) [] (delta [] [''ghost'']);
       check (pushes = None);
       check (report = sync_report_default);
       check (length writes = 1);
       op \<leftarrow> at writes 0;
       check (case op of SetCheckpoint _ _ \<Rightarrow> True | _ \<Rightarrow> False)
     }"

definition full_sync_ignores_checkpoint :: "unit option" where
  "full_sync_ignores_checkpoint =
     do {
       (sync, _) \<leftarrow> sync_resume (sync_of
         \<lparr>opt_push = True, opt_rights = push_rights_all, opt_delete = Revert, opt_conflict = Manual, opt_full = True\<rparr>) None;
       (_, r) \<leftarrow> sync_resume sync (Some (ArgLoad \<lparr>ld_placements = [], ld_checkpoint = Some (Checkpoint (as_bytes ''cp''))\<rparr>));
       (_, cursor) \<leftarrow> wants_enumerate r;
       check (cursor = None)
     }"

lemma delta_tests:
  "delta_vanished_drops = Some ()"
  "delta_pull_add = Some ()"
  "delta_leaves_unlisted_untouched = Some ()"
  "delta_pushes_unlisted_local_dirty = Some ()"
  "unknown_vanished_handle_is_ignored = Some ()"
  "full_sync_ignores_checkpoint = Some ()"
  by code_simp+

section \<open>Deletes and creates\<close>

definition accepted_delete_drops_tombstone :: "unit option" where
  "accepted_delete_drops_tombstone =
     do {
       (writes, report) \<leftarrow>
         drive_push [tombstone (synced ''1'' [''seen''])] [remote ''1'' [''seen'']] [accepted_push ''1''];
       check (sr_pushed report = 1);
       check (drops writes ''1'')
     }"

definition rejected_delete_keeps_tombstone :: "unit option" where
  "rejected_delete_keeps_tombstone =
     do {
       (writes, report) \<leftarrow>
         drive_push [tombstone (synced ''1'' [''seen''])] [remote ''1'' [''seen'']] [result_of ''1'' Rejected];
       check (sr_rejected report = 1);
       check (\<not> drops writes ''1'')
     }"

definition local_delete_gone_remote_just_drops :: "unit option" where
  "local_delete_gone_remote_just_drops =
     do {
       (pushes, writes, report) \<leftarrow> default_run [tombstone (synced ''1'' [''seen''])] [];
       check (pushes = None);
       check (sr_pushed report = 0);
       check (drops writes ''1'')
     }"

definition remote_delete_in_full_drops :: "unit option" where
  "remote_delete_in_full_drops =
     do {
       (pushes, writes, report) \<leftarrow> default_run [synced ''1'' [''seen'']] [];
       check (pushes = None);
       check (sr_pulled report = 1);
       check (drops writes ''1'')
     }"

definition offline_created_item_left_for_create_path :: "unit option" where
  "offline_created_item_left_for_create_path =
     do {
       (pushes, writes, report) \<leftarrow> default_run [(synced ''1'' [''flagged''])\<lparr>p_base := None, p_status := Dirty\<rparr>] [];
       check (pushes = None);
       check (report = sync_report_default);
       check (upserted_at writes ''1'' = None \<and> \<not> drops writes ''1'')
     }"

definition created_placement_pushes_add :: "unit option" where
  "created_placement_pushes_add =
     do {
       (pushes, _, report) \<leftarrow> default_run [(created ''tmp-1'')\<lparr>p_flags := flags_from_iter [''seen'']\<rparr>] [];
       kind \<leftarrow> first_kind pushes;
       (fl, origin, _) \<leftarrow> adds kind;
       check (origin \<noteq> None);
       check (flags_contains fl ''seen'');
       check (sr_pushed report = 1)
     }"

definition accepted_create_rekeys_to_assigned :: "unit option" where
  "accepted_create_rekeys_to_assigned =
     do {
       (writes, _) \<leftarrow> drive_push [(created ''tmp-1'')\<lparr>p_object := Some (Hash ''h-1'')\<rparr>] []
         [\<lparr>pr_handle = Handle ''tmp-1'', pr_outcome = Accepted, pr_assigned = Some (Handle ''42''), pr_revision = Some ''r1''\<rparr>];
       check (drops writes ''tmp-1'');
       real \<leftarrow> upserted_at writes ''42'';
       check (p_status real = Clean);
       check (p_origin real = None);
       b \<leftarrow> p_base real;
       check (b_revision b = Some ''r1'');
       check (b_object b = Some (Hash ''h-1''))
     }"

definition rejected_create_keeps_placeholder :: "unit option" where
  "rejected_create_keeps_placeholder =
     do {
       (writes, report) \<leftarrow> drive_push [created ''tmp-1''] [] [result_of ''tmp-1'' Rejected];
       check (sr_rejected report = 1);
       check (\<not> list_ex (\<lambda>op. case op of DropPlacement _ _ _ \<Rightarrow> True | _ \<Rightarrow> False) writes);
       check (upserted_at writes ''tmp-1'' = None)
     }"

definition move_pushes_remove_with_target :: "unit option" where
  "move_pushes_remove_with_target =
     do {
       (pushes, _, report) \<leftarrow> default_run [moved_to ''archive'' (tombstone (synced ''1'' [''seen'']))] [remote ''1'' [''seen'']];
       kind \<leftarrow> first_kind pushes;
       (to, _) \<leftarrow> removes kind;
       check (to = Some (CollectionId ''archive''));
       check (sr_pushed report = 1)
     }"

definition accepted_create_without_assigned_drops_placeholder :: "unit option" where
  "accepted_create_without_assigned_drops_placeholder =
     do {
       (writes, _) \<leftarrow> drive_push [created ''tmp-1''] [] [accepted_push ''tmp-1''];
       check (drops writes ''tmp-1'');
       check (upserted_at writes ''tmp-1'' = None)
     }"

definition remote_content_change_beats_a_local_delete :: "unit option" where
  "remote_content_change_beats_a_local_delete =
     do {
       (pushes, writes, report) \<leftarrow> default_run [tombstone (edited ''1'')] [remote_rev ''1'' ''r2''];
       check (pushes = None);
       check (sr_pulled report = 1);
       p \<leftarrow> upserted_at writes ''1'';
       check (p_status p = Clean);
       b \<leftarrow> p_base p;
       check (b_revision b = Some ''r2'')
     }"

definition a_tombstone_carrying_a_staged_edit_still_removes :: "unit option" where
  "a_tombstone_carrying_a_staged_edit_still_removes =
     do {
       (pushes, _, _) \<leftarrow> default_run [tombstone (edited ''1'')] [remote_rev ''1'' ''r1''];
       kind \<leftarrow> first_kind pushes;
       (to, if_match) \<leftarrow> removes kind;
       check (to = None);
       check (if_match = Some ''r1'')
     }"

definition a_tombstone_origin_derives_a_move_remove :: "unit option" where
  "a_tombstone_origin_derives_a_move_remove =
     do {
       (pushes, _, _) \<leftarrow> default_run [moved_to ''archive'' (tombstone (synced ''1'' []))] [remote ''1'' []];
       kind \<leftarrow> first_kind pushes;
       (to, _) \<leftarrow> removes kind;
       check (to = Some (CollectionId ''archive''))
     }"

definition remove_carries_the_base_revision_as_precondition :: "unit option" where
  "remove_carries_the_base_revision_as_precondition =
     do {
       (pushes, _, _) \<leftarrow> default_run [tombstone (edited ''1'')] [remote_rev ''1'' ''r1''];
       kind \<leftarrow> first_kind pushes;
       (_, if_match) \<leftarrow> removes kind;
       check (if_match = Some ''r1'')
     }"

definition remote_delete_with_staged_edit_resurrects_as_create :: "unit option" where
  "remote_delete_with_staged_edit_resurrects_as_create =
     do {
       (pushes, writes, _) \<leftarrow> default_run [edited ''1''] [];
       kind \<leftarrow> first_kind pushes;
       (_, origin, object) \<leftarrow> adds kind;
       check (object = Some (Hash ''h2''));
       check (origin = None);
       p \<leftarrow> upserted_at writes ''1'';
       check (p_status p = Created);
       check (p_base p = None);
       check (p_object p = Some (Hash ''h2''))
     }"

definition remote_delete_of_a_conflicted_placement_resurrects_the_edit :: "unit option" where
  "remote_delete_of_a_conflicted_placement_resurrects_the_edit =
     do {
       (pushes, writes, _) \<leftarrow> default_run [in_conflict ''r2'' (edited ''1'')] [];
       kind \<leftarrow> first_kind pushes;
       (_, origin, _) \<leftarrow> adds kind;
       check (origin = None);
       p \<leftarrow> upserted_at writes ''1'';
       check (p_status p = Created);
       check (p_conflict_revision p = None);
       check (p_object p = Some (Hash ''h2''))
     }"

definition read_only_remote_delete_with_staged_edit_keeps_the_edit :: "unit option" where
  "read_only_remote_delete_with_staged_edit_keeps_the_edit =
     do {
       (pushes, writes, _) \<leftarrow> run_sync read_only [edited ''1''] [];
       check (pushes = None);
       p \<leftarrow> upserted_at writes ''1'';
       check (p_status p = Created);
       check (p_object p = Some (Hash ''h2''))
     }"

definition read_only_delete_is_reverted_rather_than_applied :: "unit option" where
  "read_only_delete_is_reverted_rather_than_applied =
     do {
       (pushes, writes, report) \<leftarrow> run_sync read_only [tombstone (synced ''1'' [''seen''])] [remote ''1'' [''seen'']];
       check (pushes = None);
       check (sr_pushed report = 0);
       check (\<not> list_ex (\<lambda>op. case op of DropPlacement _ _ _ \<Rightarrow> True | _ \<Rightarrow> False) writes);
       p \<leftarrow> upserted_at writes ''1'';
       check (p_status p = Clean)
     }"

definition a_read_only_delete_survives_a_delta_enumerate :: "unit option" where
  "a_read_only_delete_survives_a_delta_enumerate =
     do {
       (_, _, writes, _) \<leftarrow>
         run_snapshot (sync_of (sync_options_default\<lparr>opt_push := False\<rparr>)) [tombstone (synced ''1'' [''seen''])] (delta [] []);
       p \<leftarrow> upserted_at writes ''1'';
       check (p_status p = Clean)
     }"

lemma delete_tests:
  "accepted_delete_drops_tombstone = Some ()"
  "rejected_delete_keeps_tombstone = Some ()"
  "local_delete_gone_remote_just_drops = Some ()"
  "remote_delete_in_full_drops = Some ()"
  "offline_created_item_left_for_create_path = Some ()"
  "created_placement_pushes_add = Some ()"
  "accepted_create_rekeys_to_assigned = Some ()"
  "rejected_create_keeps_placeholder = Some ()"
  "move_pushes_remove_with_target = Some ()"
  "accepted_create_without_assigned_drops_placeholder = Some ()"
  by code_simp+

lemma delete_edit_tests:
  "remote_content_change_beats_a_local_delete = Some ()"
  "a_tombstone_carrying_a_staged_edit_still_removes = Some ()"
  "a_tombstone_origin_derives_a_move_remove = Some ()"
  "remove_carries_the_base_revision_as_precondition = Some ()"
  "remote_delete_with_staged_edit_resurrects_as_create = Some ()"
  "remote_delete_of_a_conflicted_placement_resurrects_the_edit = Some ()"
  "read_only_remote_delete_with_staged_edit_keeps_the_edit = Some ()"
  "read_only_delete_is_reverted_rather_than_applied = Some ()"
  "a_read_only_delete_survives_a_delta_enumerate = Some ()"
  by code_simp+

section \<open>Content\<close>

definition a_content_push_still_pulls_a_remote_flag_change :: "unit option" where
  "a_content_push_still_pulls_a_remote_flag_change =
     do {
       (pushes, writes, _) \<leftarrow>
         default_run [edited ''1''] [(remote_rev ''1'' ''r1'')\<lparr>ri_flags := flags_from_iter [''seen'']\<rparr>];
       kind \<leftarrow> first_kind pushes;
       updates kind;
       pulled \<leftarrow> upserted_at writes ''1'';
       check (flags_contains (p_flags pulled) ''seen'')
     }"

definition local_content_edit_pushes_update_and_rebases :: "unit option" where
  "local_content_edit_pushes_update_and_rebases =
     do {
       (sync, r) \<leftarrow> enumerated (sync_of sync_options_default) [edited ''1''] (full [remote_rev ''1'' ''r1'']);
       pushes \<leftarrow> wants_push r;
       kind \<leftarrow> first_kind (Some pushes);
       (handle, object, if_match) \<leftarrow> updates kind;
       check (handle = Handle ''1'');
       check (object = Hash ''h2'');
       check (if_match = Some ''r1'');
       (_, r) \<leftarrow> sync_resume sync (Some (ArgPush [(accepted_push ''1'')\<lparr>pr_revision := Some ''r2''\<rparr>]));
       writes \<leftarrow> wants_write r;
       rebased \<leftarrow> upserted_at writes ''1'';
       check (p_status rebased = Clean);
       b \<leftarrow> p_base rebased;
       check (b_revision b = Some ''r2'');
       check (b_object b = Some (Hash ''h2''))
     }"

definition content_rebase_defers_a_riding_flag_edit :: "unit option" where
  "content_rebase_defers_a_riding_flag_edit =
     do {
       (writes, _) \<leftarrow>
         drive_push [(edited ''1'')\<lparr>p_flags := flags_from_iter [''seen'']\<rparr>] [remote_rev ''1'' ''r1'']
           [(accepted_push ''1'')\<lparr>pr_revision := Some ''r2''\<rparr>];
       rebased \<leftarrow> upserted_at writes ''1'';
       check (p_status rebased = Dirty);
       b \<leftarrow> p_base rebased;
       check (\<not> flags_contains (b_flags b) ''seen'');
       check (b_object b = Some (Hash ''h2''))
     }"

definition remote_content_change_refreshes_the_stale_body :: "unit option" where
  "remote_content_change_refreshes_the_stale_body =
     do {
       let row = based (Some ''r1'') (Some (Hash ''h1'')) ((synced ''1'' [])\<lparr>p_object := Some (Hash ''h1''), p_level := LvFull\<rparr>);
       (pushes, writes, report) \<leftarrow> default_run [row] [remote_rev ''1'' ''r2''];
       check (pushes = None);
       check (sr_refreshed report = 1);
       p \<leftarrow> upserted_at writes ''1'';
       check (p_object p = None);
       check (p_level p = LvProbed);
       b \<leftarrow> p_base p;
       check (b_revision b = Some ''r2'');
       check (b_object b = None)
     }"

definition divergent_content_edits_conflict :: "unit option" where
  "divergent_content_edits_conflict =
     do {
       (pushes, writes, report) \<leftarrow> default_run [edited ''1''] [remote_rev ''1'' ''r2''];
       check (pushes = None);
       check (sr_conflicts report = 1);
       check (sr_refreshed report = 0);
       p \<leftarrow> upserted_at writes ''1'';
       check (p_status p = Conflict);
       check (p_conflict_revision p = Some ''r2'');
       check (p_conflict_object p = None);
       check (p_object p = Some (Hash ''h2''))
     }"

definition base_less_body_present_on_both_conflicts :: "unit option" where
  "base_less_body_present_on_both_conflicts =
     do {
       (pushes, writes, report) \<leftarrow>
         default_run [(synced ''1'' [])\<lparr>p_base := None, p_object := Some (Hash ''h1''), p_level := LvFull\<rparr>]
           [remote_rev ''1'' ''r9''];
       check (pushes = None);
       check (sr_conflicts report = 1);
       p \<leftarrow> upserted_at writes ''1'';
       check (p_status p = Conflict);
       check (p_conflict_revision p = Some ''r9'');
       check (p_object p = Some (Hash ''h1''))
     }"

definition base_less_body_less_present_on_both_stays_flag_only :: "unit option" where
  "base_less_body_less_present_on_both_stays_flag_only =
     do {
       (pushes, writes, report) \<leftarrow>
         default_run [(synced ''1'' [''seen''])\<lparr>p_base := None\<rparr>] [remote ''1'' [''seen'']];
       check (pushes = None);
       check (sr_conflicts report = 0);
       p \<leftarrow> upserted_at writes ''1'';
       check (p_status p = Clean);
       check (p_base p \<noteq> None)
     }"

lemma content_tests:
  "a_content_push_still_pulls_a_remote_flag_change = Some ()"
  "local_content_edit_pushes_update_and_rebases = Some ()"
  "content_rebase_defers_a_riding_flag_edit = Some ()"
  "remote_content_change_refreshes_the_stale_body = Some ()"
  "divergent_content_edits_conflict = Some ()"
  "base_less_body_present_on_both_conflicts = Some ()"
  "base_less_body_less_present_on_both_stays_flag_only = Some ()"
  by code_simp+

section \<open>Conflicts\<close>

definition an_unresolved_conflict_tracks_the_latest_remote_revision :: "unit option" where
  "an_unresolved_conflict_tracks_the_latest_remote_revision =
     do {
       (pushes, writes, report) \<leftarrow> default_run [in_conflict ''r2'' (edited ''1'')] [remote_rev ''1'' ''r3''];
       check (pushes = None);
       check (sr_conflicts report = 0);
       p \<leftarrow> upserted_at writes ''1'';
       check (p_status p = Conflict);
       check (p_conflict_revision p = Some ''r3'');
       check (p_object p = Some (Hash ''h2''))
     }"

definition a_conflict_whose_remote_moved_drops_its_stored_body :: "unit option" where
  "a_conflict_whose_remote_moved_drops_its_stored_body =
     do {
       (_, writes, _) \<leftarrow>
         default_run [(in_conflict ''r2'' (edited ''1''))\<lparr>p_conflict_object := Some (Hash ''h-r2'')\<rparr>] [remote_rev ''1'' ''r3''];
       p \<leftarrow> upserted_at writes ''1'';
       check (p_conflict_revision p = Some ''r3'');
       check (p_conflict_object p = None)
     }"

definition a_resolution_keeping_the_ancestor_pushes_it :: "unit option" where
  "a_resolution_keeping_the_ancestor_pushes_it =
     do {
       let row = based (Some ''r2'') (Some (Hash ''h-remote'')) ((edited ''1'')\<lparr>p_object := Some (Hash ''h-base'')\<rparr>);
       (pushes, _, report) \<leftarrow> default_run [row] [remote_rev ''1'' ''r2''];
       check (sr_conflicts report = 0);
       kind \<leftarrow> first_kind pushes;
       (_, object, if_match) \<leftarrow> updates kind;
       check (object = Hash ''h-base'');
       check (if_match = Some ''r2'')
     }"

definition a_resolution_taking_the_remote_body_settles_clean :: "unit option" where
  "a_resolution_taking_the_remote_body_settles_clean =
     do {
       let row = based (Some ''r2'') (Some (Hash ''h-remote'')) ((edited ''1'')\<lparr>p_object := Some (Hash ''h-remote'')\<rparr>);
       (pushes, writes, report) \<leftarrow> default_run [row] [remote_rev ''1'' ''r2''];
       check (pushes = None);
       check (sr_conflicts report = 0);
       p \<leftarrow> upserted_at writes ''1'';
       check (p_status p = Clean);
       check (p_object p = Some (Hash ''h-remote''))
     }"

definition an_immutable_backend_records_no_conflict_at_all :: "unit option" where
  "an_immutable_backend_records_no_conflict_at_all =
     do {
       (_, writes, report) \<leftarrow> default_run [based None (Some (Hash ''h1'')) (edited ''1'')] [remote ''1'' []];
       check (sr_conflicts report = 0);
       check (list_all (\<lambda>p. p_status p \<noteq> Conflict \<and> p_conflict_revision p = None \<and> p_conflict_object p = None)
         (List.map_filter upserted writes))
     }"

definition a_content_conflict_still_pulls_the_remote_flag_change :: "unit option" where
  "a_content_conflict_still_pulls_the_remote_flag_change =
     do {
       (pushes, writes, report) \<leftarrow>
         default_run [edited ''1''] [(remote_rev ''1'' ''r2'')\<lparr>ri_flags := flags_from_iter [''seen'']\<rparr>];
       check (pushes = None);
       check (sr_conflicts report = 1);
       p \<leftarrow> upserted_at (rev writes) ''1'';
       check (p_status p = Conflict);
       check (p_conflict_revision p = Some ''r2'');
       check (flags_contains (p_flags p) ''seen'');
       check (p_object p = Some (Hash ''h2''))
     }"

definition unlisted_conflict_keeps_its_observed_remote_revision :: "unit option" where
  "unlisted_conflict_keeps_its_observed_remote_revision =
     do {
       (_, pushes, writes, report) \<leftarrow>
         run_snapshot (sync_of sync_options_default) [in_conflict ''r2'' (edited ''1'')] (delta [] []);
       check (pushes = None);
       check (sr_conflicts report = 0);
       check (upserted_at writes ''1'' = None)
     }"

definition read_only_keeps_a_content_edit_dirty :: "unit option" where
  "read_only_keeps_a_content_edit_dirty =
     do {
       (pushes, writes, _) \<leftarrow> run_sync read_only [edited ''1''] [remote_rev ''1'' ''r1''];
       check (pushes = None);
       check (upserted_at writes ''1'' = None)
     }"

lemma conflict_tests:
  "an_unresolved_conflict_tracks_the_latest_remote_revision = Some ()"
  "a_conflict_whose_remote_moved_drops_its_stored_body = Some ()"
  "a_resolution_keeping_the_ancestor_pushes_it = Some ()"
  "a_resolution_taking_the_remote_body_settles_clean = Some ()"
  "an_immutable_backend_records_no_conflict_at_all = Some ()"
  "a_content_conflict_still_pulls_the_remote_flag_change = Some ()"
  "unlisted_conflict_keeps_its_observed_remote_revision = Some ()"
  "read_only_keeps_a_content_edit_dirty = Some ()"
  by code_simp+

section \<open>Arguments out of turn\<close>

definition sync_missing_arg_errors :: "unit option" where
  "sync_missing_arg_errors =
     do {
       (sync, _) \<leftarrow> sync_resume (sync_of sync_options_default) None;
       (_, r) \<leftarrow> sync_resume sync None;
       e \<leftarrow> completed_err r;
       check (e = MissingArg)
     }"

definition a_completed_sync_does_not_resume :: "unit option" where
  "a_completed_sync_does_not_resume =
     do {
       (sync, _, _, _) \<leftarrow> run_snapshot (sync_of sync_options_default) [] (full []);
       (_, r) \<leftarrow> sync_resume sync (Some ArgWrite);
       e \<leftarrow> completed_err r;
       check (e = UnexpectedArg)
     }"

definition sync_unexpected_arg_errors :: "unit option" where
  "sync_unexpected_arg_errors =
     do {
       (sync, _) \<leftarrow> sync_resume (sync_of sync_options_default) None;
       (_, r) \<leftarrow> sync_resume sync (Some ArgWrite);
       e \<leftarrow> completed_err r;
       check (e = UnexpectedArg)
     }"

lemma sync_argument_tests:
  "sync_missing_arg_errors = Some ()"
  "a_completed_sync_does_not_resume = Some ()"
  "sync_unexpected_arg_errors = Some ()"
  by code_simp+

section \<open>Push rights\<close>

definition forbidding_flags_keeps_dirty_without_push :: "unit option" where
  "forbidding_flags_keeps_dirty_without_push =
     do {
       (pushes, _, report) \<leftarrow>
         run_sync (with_rights False True True True) [dirty_flags ''1'' [] [''seen'']] [remote ''1'' []];
       check (pushes = None);
       check (sr_pushed report = 0)
     }"

definition forbidding_remove_reverts_the_tombstone_by_default :: "unit option" where
  "forbidding_remove_reverts_the_tombstone_by_default =
     do {
       (pushes, writes, report) \<leftarrow>
         run_sync (with_rights True True True False) [tombstone (synced ''1'' [''seen''])] [remote ''1'' [''seen'']];
       check (pushes = None);
       check (\<not> drops writes ''1'');
       p \<leftarrow> upserted_at writes ''1'';
       check (p_status p = Clean);
       check (sr_pushed report = 0)
     }"

definition kept_tombstone :: "sync_options \<Rightarrow> unit option" where
  "kept_tombstone opts =
     do {
       (pushes, writes, _) \<leftarrow> run_sync opts [tombstone (synced ''1'' [''seen''])] [remote ''1'' [''seen'']];
       check (pushes = None);
       check (upserted_at writes ''1'' = None)
     }"

definition keeping_a_refused_delete_holds_the_tombstone_either_way :: "unit option" where
  "keeping_a_refused_delete_holds_the_tombstone_either_way =
     do {
       kept_tombstone (sync_options_default
         \<lparr>opt_rights := push_rights_all\<lparr>rights_remove := False\<rparr>, opt_delete := Keep\<rparr>);
       kept_tombstone (sync_options_default\<lparr>opt_push := False, opt_delete := Keep\<rparr>)
     }"

definition flags_allowed_remove_forbidden_pushes_only_flags :: "unit option" where
  "flags_allowed_remove_forbidden_pushes_only_flags =
     do {
       (pushes, _, _) \<leftarrow>
         run_sync (with_rights True True True False)
           [dirty_flags ''1'' [] [''seen''], tombstone (synced ''2'' [])] [remote ''1'' [], remote ''2'' []];
       chs \<leftarrow> pushes;
       check (list_all (\<lambda>c. sets_flags (ch_kind c) \<noteq> None) chs)
     }"

definition forbidding_add_keeps_created_pending :: "unit option" where
  "forbidding_add_keeps_created_pending =
     do {
       (pushes, _, report) \<leftarrow> run_sync (with_rights True True False True) [created ''tmp''] [];
       check (pushes = None);
       check (sr_pushed report = 0)
     }"

lemma rights_tests:
  "forbidding_flags_keeps_dirty_without_push = Some ()"
  "forbidding_remove_reverts_the_tombstone_by_default = Some ()"
  "keeping_a_refused_delete_holds_the_tombstone_either_way = Some ()"
  "flags_allowed_remove_forbidden_pushes_only_flags = Some ()"
  "forbidding_add_keeps_created_pending = Some ()"
  by code_simp+

section \<open>Events\<close>

definition event_added_on_remote_add :: "unit option" where
  "event_added_on_remote_add =
     do {
       (_, _, report) \<leftarrow> default_run [] [remote ''1'' [''seen'']];
       check (sr_events report = [Added (Handle ''1'')])
     }"

definition event_flags_changed_on_remote_flag_pull :: "unit option" where
  "event_flags_changed_on_remote_flag_pull =
     do {
       (_, _, report) \<leftarrow> default_run [synced ''1'' []] [remote ''1'' [''seen'']];
       check (sr_events report = [FlagsChanged (Handle ''1'')])
     }"

definition event_vanished_on_delta_vanish :: "unit option" where
  "event_vanished_on_delta_vanish =
     do {
       (_, _, _, report) \<leftarrow> run_snapshot (sync_of sync_options_default) [synced ''1'' [''seen'']] (delta [] [''1'']);
       check (sr_events report = [Vanished (Handle ''1'')])
     }"

definition event_flags_changed_on_accepted_push :: "unit option" where
  "event_flags_changed_on_accepted_push =
     do {
       (_, _, report) \<leftarrow> default_run [dirty_flags ''1'' [] [''seen'']] [remote ''1'' []];
       check (sr_events report = [FlagsChanged (Handle ''1'')]);
       check (sr_pushed report = 1)
     }"

definition event_created_on_accepted_create :: "unit option" where
  "event_created_on_accepted_create =
     do {
       (_, report) \<leftarrow> drive_push [created ''tmp''] []
         [\<lparr>pr_handle = Handle ''tmp'', pr_outcome = Accepted, pr_assigned = Some (Handle ''99''), pr_revision = None\<rparr>];
       check (sr_events report = [EvCreated (Handle ''99'')])
     }"

lemma event_tests:
  "event_added_on_remote_add = Some ()"
  "event_flags_changed_on_remote_flag_pull = Some ()"
  "event_vanished_on_delta_vanish = Some ()"
  "event_flags_changed_on_accepted_push = Some ()"
  "event_created_on_accepted_create = Some ()"
  by code_simp+

section \<open>The headless conflict policies\<close>

definition created_upsert :: "write_op list \<Rightarrow> placement option" where
  "created_upsert ws = List.find (\<lambda>p. p_status p = Created) (List.map_filter upserted ws)"

definition prefer_remote_drops_the_local_edit :: "unit option" where
  "prefer_remote_drops_the_local_edit =
     do {
       (pushes, writes, report) \<leftarrow> run_sync (with_conflict PreferRemote) [edited ''1''] [remote_rev ''1'' ''r2''];
       check (pushes = None);
       check (sr_conflicts report = 0);
       check (sr_refreshed report = 1);
       p \<leftarrow> upserted_at writes ''1'';
       check (p_object p = None);
       check (p_level p = LvProbed)
     }"

definition prefer_local_overwrites_the_remote :: "unit option" where
  "prefer_local_overwrites_the_remote =
     do {
       (pushes, _, report) \<leftarrow> run_sync (with_conflict PreferLocal) [edited ''1''] [remote_rev ''1'' ''r2''];
       kind \<leftarrow> first_kind pushes;
       (_, object, if_match) \<leftarrow> updates kind;
       check (object = Hash ''h2'');
       check (if_match = Some ''r2'');
       check (sr_conflicts report = 0)
     }"

definition prefer_local_falls_back_to_conflict_when_it_cannot_push :: "unit option" where
  "prefer_local_falls_back_to_conflict_when_it_cannot_push =
     do {
       let opts = sync_options_default
         \<lparr>opt_conflict := PreferLocal, opt_rights := push_rights_all\<lparr>rights_content := False\<rparr>\<rparr>;
       (pushes, _, report) \<leftarrow> run_sync opts [edited ''1''] [remote_rev ''1'' ''r2''];
       check (pushes = None);
       check (sr_conflicts report = 1)
     }"

definition keep_both_pulls_the_remote_and_stages_the_local_body :: "unit option" where
  "keep_both_pulls_the_remote_and_stages_the_local_body =
     do {
       (pushes, writes, report) \<leftarrow> run_sync (with_conflict KeepBoth) [edited ''1''] [remote_rev ''1'' ''r2''];
       check (pushes = None);
       check (sr_conflicts report = 0);
       check (sr_refreshed report = 1);
       dup \<leftarrow> created_upsert writes;
       check (p_object dup = Some (Hash ''h2''));
       check (sublist ''h2'' (handle_str (p_handle dup)));
       check (p_link_id dup \<noteq> None)
     }"

definition dup_of :: "placement \<Rightarrow> placement option" where
  "dup_of local =
     do {
       (_, writes, _) \<leftarrow> run_sync (with_conflict KeepBoth) [local] [remote_rev ''1'' ''r2''];
       created_upsert writes
     }"

definition two_keep_both_duplicates_of_one_handle_do_not_collide :: "unit option" where
  "two_keep_both_duplicates_of_one_handle_do_not_collide =
     do {
       first \<leftarrow> dup_of ((edited ''1'')\<lparr>p_object := Some (Hash ''h2'')\<rparr>);
       second \<leftarrow> dup_of ((edited ''1'')\<lparr>p_object := Some (Hash ''h3'')\<rparr>);
       check (p_handle first \<noteq> p_handle second);
       check (p_link_id first \<noteq> p_link_id second)
     }"

lemma policy_tests:
  "prefer_remote_drops_the_local_edit = Some ()"
  "prefer_local_overwrites_the_remote = Some ()"
  "prefer_local_falls_back_to_conflict_when_it_cannot_push = Some ()"
  "keep_both_pulls_the_remote_and_stages_the_local_body = Some ()"
  "two_keep_both_duplicates_of_one_handle_do_not_collide = Some ()"
  by code_simp+

end
