(* ===== verification/Mutate_Tests.thy ===== *)
theory Mutate_Tests
  imports Mutate Test_Prelude
begin

text \<open>The unit tests of \<open>mutate.rs\<close>, run on the model.\<close>

abbreviation mutate_inbox :: "mutation \<Rightarrow> mutate" where
  "mutate_inbox \<equiv> mutate_new (CollectionId ''inbox'')"

section \<open>Fixtures\<close>

definition mutable_row :: "string \<Rightarrow> placement" where
  "mutable_row h =
     \<lparr>p_collection = CollectionId ''inbox'', p_handle = Handle h, p_link_id = Some (LinkId h), p_object = None,
      p_level = LvMeta, p_meta = None, p_sort_key = sort_key_default, p_flags = flags_default, p_status = Clean,
      p_conflict_revision = None, p_conflict_object = None,
      p_base = Some \<lparr>b_flags = flags_default, b_revision = None, b_object = None\<rparr>, p_origin = None\<rparr>"

definition loaded_row :: "placement \<Rightarrow> loaded" where
  "loaded_row p = \<lparr>ld_placements = [p], ld_checkpoint = None\<rparr>"

text \<open>The opening of nearly every test: start the mutation, answer its load, read what it writes.\<close>

definition staged_by :: "mutation \<Rightarrow> placement \<Rightarrow> write_op list option" where
  "staged_by m p =
     do {
       (mutate, _) \<leftarrow> mutate_resume (mutate_inbox m) None;
       (_, r) \<leftarrow> mutate_resume mutate (Some (ArgLoad (loaded_row p)));
       wants_write r
     }"

definition upsert_at :: "write_op list \<Rightarrow> nat \<Rightarrow> placement option" where
  "upsert_at ops i = do { op \<leftarrow> at ops i; upserted op }"

definition edit_of :: "string \<Rightarrow> nat \<Rightarrow> string \<Rightarrow> meta option \<Rightarrow> mutation" where
  "edit_of obj n body m = MEdit (Handle ''1'') \<lparr>o_hash = Hash obj, o_size = n\<rparr> (as_bytes body) m None"

definition add_of :: "string \<Rightarrow> string \<Rightarrow> string list \<Rightarrow> nat \<Rightarrow> string \<Rightarrow> meta option \<Rightarrow> mutation" where
  "add_of link obj fs n body m =
     MAdd (Handle ''draft-1'') (LinkId link) (flags_from_iter fs) \<lparr>o_hash = Hash obj, o_size = n\<rparr> (as_bytes body) m
       sort_key_default"

definition with_base_object :: "string \<Rightarrow> placement \<Rightarrow> placement option" where
  "with_base_object obj p = map_option (\<lambda>b. p\<lparr>p_base := Some (b\<lparr>b_object := Some (Hash obj)\<rparr>)\<rparr>) (p_base p)"

section \<open>Flags, removes and adds\<close>

definition seen_on_1 :: mutation where
  "seen_on_1 = MSetFlags (Handle ''1'') (flags_from_iter [''seen''])"

definition set_flags_marks_dirty :: "unit option" where
  "set_flags_marks_dirty =
     do {
       ops \<leftarrow> staged_by seen_on_1 (mutable_row ''1'');
       p \<leftarrow> upsert_at ops 0;
       check (p_status p = Dirty);
       check (flags_contains (p_flags p) ''seen'');
       check (p_base p \<noteq> None)
     }"

definition set_flags_on_a_conflicted_placement_keeps_the_conflict :: "unit option" where
  "set_flags_on_a_conflicted_placement_keeps_the_conflict =
     do {
       ops \<leftarrow> staged_by seen_on_1 ((mutable_row ''1'')\<lparr>p_status := Conflict, p_conflict_revision := Some ''r2''\<rparr>);
       p \<leftarrow> upsert_at ops 0;
       check (p_status p = Conflict);
       check (p_conflict_revision p = Some ''r2'');
       check (flags_contains (p_flags p) ''seen'')
     }"

definition set_flags_on_a_created_placement_stays_created :: "unit option" where
  "set_flags_on_a_created_placement_stays_created =
     do {
       ops \<leftarrow> staged_by seen_on_1 ((mutable_row ''1'')\<lparr>p_status := Created, p_base := None\<rparr>);
       p \<leftarrow> upsert_at ops 0;
       check (p_status p = Created);
       check (flags_contains (p_flags p) ''seen'')
     }"

definition remove_marks_tombstone :: "unit option" where
  "remove_marks_tombstone =
     do {
       ops \<leftarrow> staged_by (MRemove (Handle ''1'')) (mutable_row ''1'');
       p \<leftarrow> upsert_at ops 0;
       check (p_status p = Tombstone)
     }"

definition unknown_handle_errors :: "unit option" where
  "unknown_handle_errors =
     do {
       (mutate, _) \<leftarrow> mutate_resume (mutate_inbox (MRemove (Handle ''nope''))) None;
       (_, r) \<leftarrow> mutate_resume mutate (Some (ArgLoad (loaded_row (mutable_row ''1''))));
       e \<leftarrow> completed_err r;
       check (e = UnknownHandle ''nope'')
     }"

definition draft_flag :: string where
  "draft_flag = CHR 0x5C # ''Draft''"

definition add_stages_an_append_create :: "unit option" where
  "add_stages_an_append_create =
     do {
       ops \<leftarrow> staged_by (add_of ''mid:new'' ''deadbeef'' [draft_flag] 5 ''hello'' (Some (Meta (CHR ''{'' # CHR 0x22 # ''v'' @ CHR 0x22 # '':1}''))))
         (mutable_row ''other'');
       op \<leftarrow> at ops 0;
       check (op = StoreObject \<lparr>o_hash = Hash ''deadbeef'', o_size = 5\<rparr> (Some (as_bytes ''hello'')));
       p \<leftarrow> upsert_at ops 1;
       check (p_status p = Created);
       check (p_base p = None);
       check (p_origin p = None);
       check (p_link_id p = Some (LinkId ''mid:new''));
       check (p_level p = LvFull);
       check (flags_contains (p_flags p) draft_flag)
     }"

definition add_rejects_a_live_link_id_collision :: "unit option" where
  "add_rejects_a_live_link_id_collision =
     do {
       (mutate, _) \<leftarrow> mutate_resume (mutate_inbox (add_of ''mid:dup'' ''deadbeef'' [] 1 ''x'' None)) None;
       (_, r) \<leftarrow> mutate_resume mutate
         (Some (ArgLoad (loaded_row ((mutable_row ''existing'')\<lparr>p_link_id := Some (LinkId ''mid:dup'')\<rparr>))));
       e \<leftarrow> completed_err r;
       check (e = LinkExists ''mid:dup'')
     }"

definition add_over_a_tombstone_link_id_is_allowed :: "unit option" where
  "add_over_a_tombstone_link_id_is_allowed =
     do {
       staged_by (add_of ''mid:gone'' ''deadbeef'' [] 1 ''x'' None)
         ((mutable_row ''existing'')\<lparr>p_link_id := Some (LinkId ''mid:gone''), p_status := Tombstone\<rparr>);
       Some ()
     }"

lemma mutate_staging_tests:
  "set_flags_marks_dirty = Some ()"
  "set_flags_on_a_conflicted_placement_keeps_the_conflict = Some ()"
  "set_flags_on_a_created_placement_stays_created = Some ()"
  "remove_marks_tombstone = Some ()"
  "unknown_handle_errors = Some ()"
  "add_stages_an_append_create = Some ()"
  "add_rejects_a_live_link_id_collision = Some ()"
  "add_over_a_tombstone_link_id_is_allowed = Some ()"
  by code_simp+

section \<open>The contract of the coroutine\<close>

definition write_completes :: "unit option" where
  "write_completes =
     do {
       (mutate, _) \<leftarrow> mutate_resume (mutate_inbox (MRemove (Handle ''1''))) None;
       (mutate, _) \<leftarrow> mutate_resume mutate (Some (ArgLoad (loaded_row (mutable_row ''1''))));
       (_, r) \<leftarrow> mutate_resume mutate (Some ArgWrite);
       completed_ok r
     }"

definition missing_arg_errors :: "unit option" where
  "missing_arg_errors =
     do {
       (mutate, _) \<leftarrow> mutate_resume (mutate_inbox (MRemove (Handle ''1''))) None;
       (_, r) \<leftarrow> mutate_resume mutate None;
       e \<leftarrow> completed_err r;
       check (e = MutateArg MissingArg)
     }"

definition a_completed_mutate_does_not_resume :: "unit option" where
  "a_completed_mutate_does_not_resume =
     do {
       (mutate, _) \<leftarrow> mutate_resume (mutate_inbox (MRemove (Handle ''1''))) None;
       (mutate, _) \<leftarrow> mutate_resume mutate (Some (ArgLoad (loaded_row (mutable_row ''1''))));
       (mutate, _) \<leftarrow> mutate_resume mutate (Some ArgWrite);
       (_, r) \<leftarrow> mutate_resume mutate (Some ArgWrite);
       e \<leftarrow> completed_err r;
       check (e = MutateArg UnexpectedArg)
     }"

definition unexpected_arg_errors :: "unit option" where
  "unexpected_arg_errors =
     do {
       (mutate, _) \<leftarrow> mutate_resume (mutate_inbox (MRemove (Handle ''1''))) None;
       (_, r) \<leftarrow> mutate_resume mutate (Some ArgWrite);
       e \<leftarrow> completed_err r;
       check (e = MutateArg UnexpectedArg)
     }"

definition a_mutation_reads_only_what_it_edits :: "unit option" where
  "a_mutation_reads_only_what_it_edits =
     do {
       (_, r) \<leftarrow> mutate_resume (mutate_inbox (MRemove (Handle ''7''))) None;
       (_, scope) \<leftarrow> wants_load r;
       check (scope = ScopeHandles [Handle ''7'']);
       let add = MAdd (Handle ''tmp'') (LinkId ''m1'') flags_default \<lparr>o_hash = Hash ''h'', o_size = 1\<rparr> [] None sort_key_default;
       (_, r) \<leftarrow> mutate_resume (mutate_inbox add) None;
       (_, scope) \<leftarrow> wants_load r;
       check (scope = ScopeLinks [LinkId ''m1''])
     }"

lemma mutate_contract_tests:
  "write_completes = Some ()"
  "missing_arg_errors = Some ()"
  "a_completed_mutate_does_not_resume = Some ()"
  "unexpected_arg_errors = Some ()"
  "a_mutation_reads_only_what_it_edits = Some ()"
  by code_simp+

section \<open>Edits and resolutions\<close>

definition edit_stages_a_dirty_body :: "unit option" where
  "edit_stages_a_dirty_body =
     do {
       ops \<leftarrow> staged_by (edit_of ''h2'' 4 ''body'' None) (mutable_row ''1'');
       op \<leftarrow> at ops 0;
       check (case op of StoreObject obj _ \<Rightarrow> o_hash obj = Hash ''h2'' | _ \<Rightarrow> False);
       p \<leftarrow> upsert_at ops 1;
       check (p_status p = Dirty);
       check (p_object p = Some (Hash ''h2''));
       check (p_level p = LvFull);
       check (p_base p \<noteq> None)
     }"

definition an_edit_restating_the_synced_body_stages_nothing :: "unit option" where
  "an_edit_restating_the_synced_body_stages_nothing =
     do {
       row \<leftarrow> with_base_object ''h1'' ((mutable_row ''1'')\<lparr>p_object := Some (Hash ''h1''), p_level := LvFull\<rparr>);
       ops \<leftarrow> staged_by (edit_of ''h1'' 4 ''body'' None) row;
       p \<leftarrow> upsert_at ops 1;
       check (p_status p = Clean);
       check (staged_edit p = None)
     }"

definition conflicted_row :: "string \<Rightarrow> placement" where
  "conflicted_row obj = (mutable_row ''1'')\<lparr>p_status := Conflict, p_object := Some (Hash obj), p_level := LvFull,
     p_conflict_revision := Some ''r2'', p_conflict_object := Some (Hash ''h-remote'')\<rparr>"

definition resolving_a_conflict_with_the_base_body_still_pushes :: "unit option" where
  "resolving_a_conflict_with_the_base_body_still_pushes =
     do {
       row \<leftarrow> with_base_object ''h1'' (conflicted_row ''h2'');
       ops \<leftarrow> staged_by (edit_of ''h1'' 4 ''body'' None) row;
       p \<leftarrow> upsert_at ops 1;
       check (p_status p = Dirty);
       check (p_conflict_revision p = None);
       check (p_conflict_object p = None)
     }"

definition a_resolution_adopts_the_whole_remote_state_into_the_base :: "unit option" where
  "a_resolution_adopts_the_whole_remote_state_into_the_base =
     do {
       b \<leftarrow> p_base (conflicted_row ''h-local'');
       let row = (conflicted_row ''h-local'')\<lparr>p_base := Some (b\<lparr>b_revision := Some ''r1'', b_object := Some (Hash ''h-base'')\<rparr>)\<rparr>;
       ops \<leftarrow> staged_by (edit_of ''h-base'' 4 ''base'' None) row;
       p \<leftarrow> upsert_at ops 1;
       b \<leftarrow> p_base p;
       check (b_revision b = Some ''r2'');
       check (b_object b = Some (Hash ''h-remote''));
       check (staged_edit p = Some (Hash ''h-base''))
     }"

definition a_resolution_gives_a_base_less_conflict_a_base :: "unit option" where
  "a_resolution_gives_a_base_less_conflict_a_base =
     do {
       ops \<leftarrow> staged_by (edit_of ''h-merged'' 6 ''merged'' None) ((conflicted_row ''h-local'')\<lparr>p_base := None\<rparr>);
       p \<leftarrow> upsert_at ops 1;
       b \<leftarrow> p_base p;
       check (b_revision b = Some ''r2'');
       check (b_object b = Some (Hash ''h-remote''));
       check (b_flags b = p_flags p)
     }"

definition edit_refreshes_the_projected_meta :: "unit option" where
  "edit_refreshes_the_projected_meta =
     do {
       ops \<leftarrow> staged_by (edit_of ''h2'' 4 ''body'' (Some (Meta ''fresh''))) (mutable_row ''1'');
       p \<leftarrow> upsert_at ops 1;
       check (p_meta p = Some (Meta ''fresh''))
     }"

definition edit_resolves_a_conflict :: "unit option" where
  "edit_resolves_a_conflict =
     do {
       ops \<leftarrow> staged_by (edit_of ''h3'' 6 ''merged'' None)
         ((mutable_row ''1'')\<lparr>p_status := Conflict, p_conflict_revision := Some ''r2'', p_conflict_object := Some (Hash ''h-remote'')\<rparr>);
       p \<leftarrow> upsert_at ops 1;
       check (p_status p = Dirty);
       check (p_conflict_revision p = None);
       check (p_conflict_object p = None);
       b \<leftarrow> p_base p;
       check (b_revision b = Some ''r2'')
     }"

section \<open>Copies and moves\<close>

definition copy_stages_created_placement_in_target :: "unit option" where
  "copy_stages_created_placement_in_target =
     do {
       ops \<leftarrow> staged_by (MCopy (Handle ''1'') (CollectionId ''archive'') (Handle ''tmp-1'')) (mutable_row ''1'');
       p \<leftarrow> upsert_at ops 0;
       check (p_collection p = CollectionId ''archive'');
       check (p_handle p = Handle ''tmp-1'');
       check (p_status p = Created);
       check (p_base p = None);
       oo \<leftarrow> p_origin p;
       check (or_collection oo = CollectionId ''inbox'');
       check (or_handle oo = Handle ''1'')
     }"

definition move_stages_target_create_and_source_tombstone :: "unit option" where
  "move_stages_target_create_and_source_tombstone =
     do {
       ops \<leftarrow> staged_by (MMove (Handle ''1'') (CollectionId ''archive'') (Handle ''tmp-1'')) (mutable_row ''1'');
       create \<leftarrow> upsert_at ops 0;
       check (p_collection create = CollectionId ''archive'');
       check (p_handle create = Handle ''tmp-1'');
       check (p_status create = Created);
       check (p_base create = None);
       oo \<leftarrow> p_origin create;
       check (or_handle oo = Handle ''1'');
       source \<leftarrow> upsert_at ops 1;
       check (p_collection source = CollectionId ''inbox'');
       check (p_status source = Tombstone);
       oo \<leftarrow> p_origin source;
       check (or_collection oo = CollectionId ''archive'')
     }"

definition a_move_of_an_unlinked_item_stages_the_relocation_alone :: "unit option" where
  "a_move_of_an_unlinked_item_stages_the_relocation_alone =
     do {
       ops \<leftarrow> staged_by (MMove (Handle ''1'') (CollectionId ''archive'') (Handle ''tmp-1'')) ((mutable_row ''1'')\<lparr>p_link_id := None\<rparr>);
       check (length ops = 1);
       source \<leftarrow> upsert_at ops 0;
       check (p_collection source = CollectionId ''inbox'');
       check (p_status source = Tombstone)
     }"

lemma mutate_edit_tests:
  "edit_stages_a_dirty_body = Some ()"
  "an_edit_restating_the_synced_body_stages_nothing = Some ()"
  "resolving_a_conflict_with_the_base_body_still_pushes = Some ()"
  "a_resolution_adopts_the_whole_remote_state_into_the_base = Some ()"
  "a_resolution_gives_a_base_less_conflict_a_base = Some ()"
  "edit_refreshes_the_projected_meta = Some ()"
  "edit_resolves_a_conflict = Some ()"
  "copy_stages_created_placement_in_target = Some ()"
  "move_stages_target_create_and_source_tombstone = Some ()"
  "a_move_of_an_unlinked_item_stages_the_relocation_alone = Some ()"
  by code_simp+

end
