(* ===== verification/Upgrade_Tests.thy ===== *)
theory Upgrade_Tests
  imports Upgrade Test_Prelude
begin

text \<open>The unit tests of \<open>upgrade.rs\<close>, run on the model.\<close>

section \<open>Fixtures\<close>

definition probed_row :: "string \<Rightarrow> string option \<Rightarrow> level \<Rightarrow> placement" where
  "probed_row h link lv =
     \<lparr>p_collection = CollectionId ''inbox'', p_handle = Handle h, p_link_id = map_option LinkId link, p_object = None,
      p_level = lv, p_meta = None, p_sort_key = sort_key_default, p_flags = flags_default, p_status = Clean,
      p_conflict_revision = None, p_conflict_object = None, p_base = None, p_origin = None\<rparr>"

text \<open>An item as a fetch returns it, and the body it may carry.\<close>

definition fetched_as :: "string \<Rightarrow> string \<Rightarrow> fetched_body option \<Rightarrow> fetched_item" where
  "fetched_as h link body =
     \<lparr>fi_handle = Handle h, fi_link_id = LinkId link, fi_meta = Meta ''hdr'', fi_sort_key = sort_key_default,
      fi_body = body, fi_revision = None\<rparr>"

definition upgrade_of :: "string list \<Rightarrow> tier \<Rightarrow> upgrade" where
  "upgrade_of hs t = upgrade_new (CollectionId ''inbox'') (map Handle hs) t"

text \<open>The opening of the tests: start, and answer the load with the given rows.\<close>

definition loaded_upgrade ::
  "string list \<Rightarrow> tier \<Rightarrow> placement list \<Rightarrow> (upgrade \<times> (yield, arg_error + upgrade_report) cstate) option" where
  "loaded_upgrade hs t ps =
     do {
       (up, _) \<leftarrow> upgrade_resume (upgrade_of hs t) None;
       upgrade_resume up (Some (ArgLoad \<lparr>ld_placements = ps, ld_checkpoint = None\<rparr>))
     }"

definition link_written :: "write_op list \<Rightarrow> (handle \<times> link_id option) list" where
  "link_written ops = List.map_filter (\<lambda>op. map_option (\<lambda>p. (p_handle p, p_link_id p)) (upserted op)) ops"

definition links_of :: "write_op list \<Rightarrow> (handle, link_id option) btree_map" where
  "links_of ops = bt_collect (link_written ops)"

definition first_upsert :: "write_op list \<Rightarrow> placement option" where
  "first_upsert ops = at (List.map_filter upserted ops) 0"

section \<open>Linking and fetching\<close>

definition full_dedup_links_without_fetch :: "unit option" where
  "full_dedup_links_without_fetch =
     do {
       (up, r) \<leftarrow> loaded_upgrade [''2''] TierFull [probed_row ''2'' (Some ''msg-a'') LvMeta];
       links \<leftarrow> wants_lookup r;
       check (links = [LinkId ''msg-a'']);
       (up, r) \<leftarrow> upgrade_resume up (Some (ArgLookupObject [(LinkId ''msg-a'', Hash ''h-a'')]));
       ops \<leftarrow> wants_write r;
       op \<leftarrow> at ops 0;
       p \<leftarrow> upserted op;
       check (p_level p = LvFull);
       check (p_object p = Some (Hash ''h-a''));
       (_, r) \<leftarrow> upgrade_resume up (Some ArgWrite);
       report \<leftarrow> completed_ok r;
       check (ur_deduped report = 1);
       check (ur_fetched report = 0)
     }"

definition full_miss_fetches_and_stores :: "unit option" where
  "full_miss_fetches_and_stores =
     do {
       (up, _) \<leftarrow> loaded_upgrade [''1''] TierFull [probed_row ''1'' (Some ''msg-b'') LvMeta];
       (up, r) \<leftarrow> upgrade_resume up (Some (ArgLookupObject []));
       (hs, tier) \<leftarrow> wants_fetch r;
       check (tier = TierFull);
       check (hs = [Handle ''1'']);
       (up, r) \<leftarrow> upgrade_resume up (Some (ArgFetch [fetched_as ''1'' ''msg-b'' (Some (Inline (Hash ''h-b'') (as_bytes ''body'')))]));
       ops \<leftarrow> wants_write r;
       op \<leftarrow> at ops 0;
       check (case op of StoreObject _ _ \<Rightarrow> True | _ \<Rightarrow> False);
       (_, r) \<leftarrow> upgrade_resume up (Some ArgWrite);
       report \<leftarrow> completed_ok r;
       check (ur_fetched report = 1);
       check (ur_deduped report = 0)
     }"

definition fetch_results_are_matched_by_handle_not_order :: "unit option" where
  "fetch_results_are_matched_by_handle_not_order =
     do {
       (up, _) \<leftarrow> loaded_upgrade [''1'', ''2''] TierFull [probed_row ''1'' (Some ''msg-a'') LvMeta, probed_row ''2'' (Some ''msg-b'') LvMeta];
       (up, _) \<leftarrow> upgrade_resume up (Some (ArgLookupObject []));
       (_, r) \<leftarrow> upgrade_resume up (Some (ArgFetch
         [(fetched_as ''2'' ''msg-b'' (Some (Inline (Hash ''h-b'') (as_bytes ''bbb''))))\<lparr>fi_meta := Meta ''h''\<rparr>,
          (fetched_as ''1'' ''msg-a'' (Some (Inline (Hash ''h-a'') (as_bytes ''aaaaa''))))\<lparr>fi_meta := Meta ''h''\<rparr>]));
       ops \<leftarrow> wants_write r;
       let object_for = (\<lambda>h. Option.bind (List.find (\<lambda>p. p_handle p = Handle h \<and> p_object p \<noteq> None)
         (List.map_filter upserted ops)) p_object);
       check (object_for ''1'' = Some (Hash ''h-a''));
       check (object_for ''2'' = Some (Hash ''h-b''))
     }"

definition a_full_fetch_keeps_an_already_resolved_link_id :: "unit option" where
  "a_full_fetch_keeps_an_already_resolved_link_id =
     do {
       (up, _) \<leftarrow> loaded_upgrade [''1''] TierFull [probed_row ''1'' (Some ''mid:real'') LvMeta];
       (up, _) \<leftarrow> upgrade_resume up (Some (ArgLookupObject []));
       (_, r) \<leftarrow> upgrade_resume up (Some (ArgFetch [fetched_as ''1'' ''alt:divergent'' (Some (Persisted (Hash ''h'') 10))]));
       ops \<leftarrow> wants_write r;
       p \<leftarrow> first_upsert ops;
       check (p_link_id p = Some (LinkId ''mid:real''));
       check (p_level p = LvFull)
     }"

definition a_meta_fetch_still_sets_the_link_of_an_unlinked_item :: "unit option" where
  "a_meta_fetch_still_sets_the_link_of_an_unlinked_item =
     do {
       (up, _) \<leftarrow> loaded_upgrade [''1''] TierMeta [probed_row ''1'' None LvProbed];
       (up, _) \<leftarrow> upgrade_resume up (Some (ArgLookupObject []));
       (up, r) \<leftarrow> upgrade_resume up (Some (ArgFetch [fetched_as ''1'' ''mid:resolved'' None]));
       (_, scope) \<leftarrow> wants_load r;
       check (scope = ScopeLinks [LinkId ''mid:resolved'']);
       (_, r) \<leftarrow> upgrade_resume up (Some (ArgLoad \<lparr>ld_placements = [], ld_checkpoint = None\<rparr>));
       ops \<leftarrow> wants_write r;
       p \<leftarrow> first_upsert ops;
       check (p_link_id p = Some (LinkId ''mid:resolved''))
     }"

definition a_persisted_body_stores_the_object_without_bytes :: "unit option" where
  "a_persisted_body_stores_the_object_without_bytes =
     do {
       (up, _) \<leftarrow> loaded_upgrade [''1''] TierFull [probed_row ''1'' (Some ''msg-b'') LvMeta];
       (up, _) \<leftarrow> upgrade_resume up (Some (ArgLookupObject []));
       (_, r) \<leftarrow> upgrade_resume up (Some (ArgFetch [fetched_as ''1'' ''msg-b'' (Some (Persisted (Hash ''h-b'') 4096))]));
       ops \<leftarrow> wants_write r;
       op \<leftarrow> at ops 0;
       check (op = StoreObject \<lparr>o_hash = Hash ''h-b'', o_size = 4096\<rparr> None);
       op \<leftarrow> at ops 1;
       p \<leftarrow> upserted op;
       check (p_object p = Some (Hash ''h-b'') \<and> p_level p = LvFull)
     }"

definition full_fetch_stamps_the_base_revision_and_object :: "unit option" where
  "full_fetch_stamps_the_base_revision_and_object =
     do {
       let row = (probed_row ''1'' (Some ''msg-b'') LvMeta)\<lparr>p_base := Some \<lparr>b_flags = flags_default, b_revision = None, b_object = None\<rparr>\<rparr>;
       (up, _) \<leftarrow> loaded_upgrade [''1''] TierFull [row];
       (up, _) \<leftarrow> upgrade_resume up (Some (ArgLookupObject []));
       (_, r) \<leftarrow> upgrade_resume up (Some (ArgFetch
         [(fetched_as ''1'' ''msg-b'' (Some (Inline (Hash ''h-b'') (as_bytes ''body''))))\<lparr>fi_revision := Some ''r7''\<rparr>]));
       ops \<leftarrow> wants_write r;
       p \<leftarrow> first_upsert ops;
       b \<leftarrow> p_base p;
       check (b_revision b = Some ''r7'');
       check (b_object b = Some (Hash ''h-b''));
       check (p_object p = Some (Hash ''h-b''))
     }"

definition full_mixes_dedup_hits_and_fetch_misses :: "unit option" where
  "full_mixes_dedup_hits_and_fetch_misses =
     do {
       (up, _) \<leftarrow> loaded_upgrade [''1'', ''2''] TierFull [probed_row ''1'' (Some ''msg-a'') LvMeta, probed_row ''2'' (Some ''msg-b'') LvMeta];
       (up, r) \<leftarrow> upgrade_resume up (Some (ArgLookupObject [(LinkId ''msg-a'', Hash ''h-a'')]));
       (hs, _) \<leftarrow> wants_fetch r;
       check (hs = [Handle ''2'']);
       (up, _) \<leftarrow> upgrade_resume up (Some (ArgFetch [fetched_as ''2'' ''msg-b'' (Some (Inline (Hash ''h-b'') (as_bytes ''body'')))]));
       (_, r) \<leftarrow> upgrade_resume up (Some ArgWrite);
       report \<leftarrow> completed_ok r;
       check (ur_upgraded report = 2);
       check (ur_deduped report = 1);
       check (ur_fetched report = 1)
     }"

lemma upgrade_fetch_tests:
  "full_dedup_links_without_fetch = Some ()"
  "full_miss_fetches_and_stores = Some ()"
  "fetch_results_are_matched_by_handle_not_order = Some ()"
  "a_full_fetch_keeps_an_already_resolved_link_id = Some ()"
  "a_meta_fetch_still_sets_the_link_of_an_unlinked_item = Some ()"
  "a_persisted_body_stores_the_object_without_bytes = Some ()"
  "full_fetch_stamps_the_base_revision_and_object = Some ()"
  "full_mixes_dedup_hits_and_fetch_misses = Some ()"
  by code_simp+

section \<open>Two copies of one identity\<close>

definition upgrade_twins :: "string list \<Rightarrow> string \<Rightarrow> placement list \<Rightarrow> placement list \<Rightarrow> write_op list option" where
  "upgrade_twins hs link loaded stored =
     do {
       (up, _) \<leftarrow> loaded_upgrade hs TierMeta loaded;
       (up, r) \<leftarrow> upgrade_resume up (Some (ArgFetch (map (\<lambda>h. fetched_as h link None) hs)));
       (case wants_write r of
          Some ops \<Rightarrow> Some ops
        | None \<Rightarrow>
            do {
              (_, scope) \<leftarrow> wants_load r;
              check (case scope of ScopeLinks _ \<Rightarrow> True | _ \<Rightarrow> False);
              (_, r) \<leftarrow> upgrade_resume up (Some (ArgLoad \<lparr>ld_placements = stored, ld_checkpoint = None\<rparr>));
              wants_write r
            })
     }"

definition a_second_copy_of_one_identity_is_minted :: "unit option" where
  "a_second_copy_of_one_identity_is_minted =
     do {
       ops \<leftarrow> upgrade_twins [''u1'', ''u2''] ''m1'' [probed_row ''u1'' None LvProbed, probed_row ''u2'' None LvProbed] [];
       check (links_of ops = [(Handle ''u1'', Some (LinkId ''m1'')), (Handle ''u2'', Some (LinkId ''dup:m1#u2''))])
     }"

definition the_mint_is_decided_against_the_collection_not_the_batch :: "unit option" where
  "the_mint_is_decided_against_the_collection_not_the_batch =
     do {
       ops \<leftarrow> upgrade_twins [''u2''] ''m1'' [probed_row ''u2'' None LvProbed] [probed_row ''u1'' (Some ''m1'') LvMeta];
       check (links_of ops = [(Handle ''u2'', Some (LinkId ''dup:m1#u2''))])
     }"

definition a_minted_copy_is_not_minted_again :: "unit option" where
  "a_minted_copy_is_not_minted_again =
     do {
       ops \<leftarrow> upgrade_twins [''u2''] ''m1'' [probed_row ''u2'' (Some ''dup:m1#u2'') LvProbed] [probed_row ''u1'' (Some ''m1'') LvMeta];
       check (links_of ops = [(Handle ''u2'', Some (LinkId ''dup:m1#u2''))])
     }"

lemma upgrade_mint_tests:
  "a_second_copy_of_one_identity_is_minted = Some ()"
  "the_mint_is_decided_against_the_collection_not_the_batch = Some ()"
  "a_minted_copy_is_not_minted_again = Some ()"
  by code_simp+

section \<open>What needs an upgrade\<close>

definition meta_upgrade_fetches_headers :: "unit option" where
  "meta_upgrade_fetches_headers =
     do {
       (_, r) \<leftarrow> loaded_upgrade [''1''] TierMeta [probed_row ''1'' None LvProbed];
       (_, tier) \<leftarrow> wants_fetch r;
       check (tier = TierMeta)
     }"

definition already_full_completes_without_work :: "unit option" where
  "already_full_completes_without_work =
     do {
       (_, r) \<leftarrow> loaded_upgrade [''1''] TierFull [(probed_row ''1'' (Some ''x'') LvFull)\<lparr>p_object := Some (Hash ''h1'')\<rparr>];
       report \<leftarrow> completed_ok r;
       check (ur_upgraded report = 0)
     }"

definition a_full_row_holding_no_body_is_upgraded_again :: "unit option" where
  "a_full_row_holding_no_body_is_upgraded_again =
     do {
       (_, r) \<leftarrow> loaded_upgrade [''1''] TierFull [probed_row ''1'' None LvFull];
       (hs, _) \<leftarrow> wants_fetch r;
       check (hs = [Handle ''1''])
     }"

definition a_meta_row_holding_no_summary_is_upgraded_again :: "unit option" where
  "a_meta_row_holding_no_summary_is_upgraded_again =
     do {
       (_, r) \<leftarrow> loaded_upgrade [''1''] TierMeta [probed_row ''1'' None LvMeta];
       (hs, _) \<leftarrow> wants_fetch r;
       check (hs = [Handle ''1''])
     }"

definition unknown_handle_completes_without_work :: "unit option" where
  "unknown_handle_completes_without_work =
     do {
       (_, r) \<leftarrow> loaded_upgrade [''nope''] TierMeta [probed_row ''1'' None LvProbed];
       report \<leftarrow> completed_ok r;
       check (ur_upgraded report = 0)
     }"

definition full_without_link_ids_fetches_directly :: "unit option" where
  "full_without_link_ids_fetches_directly =
     do {
       (_, r) \<leftarrow> loaded_upgrade [''1''] TierFull [probed_row ''1'' None LvProbed];
       (hs, tier) \<leftarrow> wants_fetch r;
       check (tier = TierFull);
       check (hs = [Handle ''1''])
     }"

definition fetched_unknown_handle_is_skipped :: "unit option" where
  "fetched_unknown_handle_is_skipped =
     do {
       (up, _) \<leftarrow> loaded_upgrade [''1''] TierMeta [probed_row ''1'' None LvProbed];
       (up, r) \<leftarrow> upgrade_resume up (Some (ArgFetch [fetched_as ''ghost'' ''msg-x'' None]));
       ops \<leftarrow> wants_write r;
       check (ops = []);
       (_, r) \<leftarrow> upgrade_resume up (Some ArgWrite);
       report \<leftarrow> completed_ok r;
       check (ur_upgraded report = 0)
     }"

section \<open>The contract of the coroutine\<close>

definition upgrade_missing_arg_errors :: "unit option" where
  "upgrade_missing_arg_errors =
     do {
       (up, _) \<leftarrow> upgrade_resume (upgrade_of [''1''] TierMeta) None;
       (_, r) \<leftarrow> upgrade_resume up None;
       e \<leftarrow> completed_err r;
       check (e = MissingArg)
     }"

definition a_completed_upgrade_does_not_resume :: "unit option" where
  "a_completed_upgrade_does_not_resume =
     do {
       (up, _) \<leftarrow> loaded_upgrade [''1''] TierFull [(probed_row ''1'' (Some ''x'') LvFull)\<lparr>p_object := Some (Hash ''h1'')\<rparr>];
       (_, r) \<leftarrow> upgrade_resume up (Some ArgWrite);
       e \<leftarrow> completed_err r;
       check (e = UnexpectedArg)
     }"

definition upgrade_unexpected_arg_errors :: "unit option" where
  "upgrade_unexpected_arg_errors =
     do {
       (up, _) \<leftarrow> upgrade_resume (upgrade_of [''1''] TierMeta) None;
       (_, r) \<leftarrow> upgrade_resume up (Some ArgWrite);
       e \<leftarrow> completed_err r;
       check (e = UnexpectedArg)
     }"

lemma upgrade_scope_tests:
  "meta_upgrade_fetches_headers = Some ()"
  "already_full_completes_without_work = Some ()"
  "a_full_row_holding_no_body_is_upgraded_again = Some ()"
  "a_meta_row_holding_no_summary_is_upgraded_again = Some ()"
  "unknown_handle_completes_without_work = Some ()"
  "full_without_link_ids_fetches_directly = Some ()"
  "fetched_unknown_handle_is_skipped = Some ()"
  "upgrade_missing_arg_errors = Some ()"
  "a_completed_upgrade_does_not_resume = Some ()"
  "upgrade_unexpected_arg_errors = Some ()"
  by code_simp+

section \<open>Revisions and conflicts\<close>

definition based_row :: "string \<Rightarrow> string \<Rightarrow> string option \<Rightarrow> placement" where
  "based_row h link revision = (probed_row h (Some link) LvMeta)
     \<lparr>p_base := Some \<lparr>b_flags = flags_default, b_revision = revision, b_object = None\<rparr>\<rparr>"

definition upgrade_full ::
  "placement \<Rightarrow> (upgrade \<times> (yield, arg_error + upgrade_report) cstate) option" where
  "upgrade_full p = loaded_upgrade [handle_str (p_handle p)] TierFull [p]"

definition upgrade_with_lookup ::
  "placement \<Rightarrow> (link_id, hash) btree_map \<Rightarrow> (yield, arg_error + upgrade_report) cstate option" where
  "upgrade_with_lookup p kn =
     do {
       (up, r) \<leftarrow> upgrade_full p;
       (if wants_lookup r \<noteq> None then map_option snd (upgrade_resume up (Some (ArgLookupObject kn))) else Some r)
     }"

definition a_deduped_body_rebases_so_the_placement_reads_clean :: "unit option" where
  "a_deduped_body_rebases_so_the_placement_reads_clean =
     do {
       r \<leftarrow> upgrade_with_lookup (based_row ''2'' ''msg-a'' None) [(LinkId ''msg-a'', Hash ''h-a'')];
       ops \<leftarrow> wants_write r;
       op \<leftarrow> at ops 0;
       p \<leftarrow> upserted op;
       check (p_object p = Some (Hash ''h-a''));
       check (p_level p = LvFull);
       check (Option.bind (p_base p) b_object = Some (Hash ''h-a''))
     }"

definition a_mutable_placement_is_fetched_rather_than_linked :: "unit option" where
  "a_mutable_placement_is_fetched_rather_than_linked =
     do {
       r \<leftarrow> upgrade_with_lookup (based_row ''card-1.vcf'' ''uid:card-1'' (Some ''etag-1'')) [(LinkId ''uid:card-1'', Hash ''h-a'')];
       (hs, tier) \<leftarrow> wants_fetch r;
       check (tier = TierFull);
       check (hs = [Handle ''card-1.vcf''])
     }"

definition conflicted_card :: "string option \<Rightarrow> placement" where
  "conflicted_card obj = (based_row ''card-1.vcf'' ''uid:card-1'' (Some ''etag-1''))
     \<lparr>p_object := Some (Hash ''h-local''), p_level := LvFull, p_status := Conflict,
      p_conflict_revision := Some ''etag-2'', p_conflict_object := map_option Hash obj\<rparr>"

definition a_conflicted_placement_asks_for_the_diverging_body :: "unit option" where
  "a_conflicted_placement_asks_for_the_diverging_body =
     do {
       (_, r) \<leftarrow> upgrade_full (conflicted_card None);
       (hs, tier) \<leftarrow> wants_fetch r;
       check (tier = TierFull);
       check (hs = [Handle ''card-1.vcf'']);
       (_, r) \<leftarrow> upgrade_full (conflicted_card (Some ''h-remote''));
       report \<leftarrow> completed_ok r;
       check (ur_fetched report = 0)
     }"

definition a_fetched_body_lands_as_the_conflict_object :: "unit option" where
  "a_fetched_body_lands_as_the_conflict_object =
     do {
       (up, _) \<leftarrow> upgrade_full (conflicted_card None);
       (_, r) \<leftarrow> upgrade_resume up (Some (ArgFetch
         [(fetched_as ''card-1.vcf'' ''uid:card-1'' (Some (Inline (Hash ''h-remote'') (as_bytes ''remote''))))
            \<lparr>fi_meta := Meta ''remote'', fi_revision := Some ''etag-2''\<rparr>]));
       ops \<leftarrow> wants_write r;
       op \<leftarrow> at ops 1;
       p \<leftarrow> upserted op;
       check (p_conflict_object p = Some (Hash ''h-remote''));
       check (p_object p = Some (Hash ''h-local''));
       check (Option.bind (p_base p) b_revision = Some ''etag-1'')
     }"

lemma upgrade_conflict_tests:
  "a_deduped_body_rebases_so_the_placement_reads_clean = Some ()"
  "a_mutable_placement_is_fetched_rather_than_linked = Some ()"
  "a_conflicted_placement_asks_for_the_diverging_body = Some ()"
  "a_fetched_body_lands_as_the_conflict_object = Some ()"
  by code_simp+

end
