(* ===== verification/Rekey_Tests.thy ===== *)
theory Rekey_Tests
  imports Rekey Test_Prelude
begin

text \<open>The unit tests of \<open>rekey.rs\<close>, run on the model.\<close>

section \<open>Fixtures\<close>

definition synced_row :: "string \<Rightarrow> string \<Rightarrow> string list \<Rightarrow> placement" where
  "synced_row h link fs =
     \<lparr>p_collection = CollectionId ''inbox'', p_handle = Handle h, p_link_id = Some (LinkId link), p_object = None,
      p_level = LvMeta, p_meta = Some (Meta ''row''), p_sort_key = sort_key_default, p_flags = flags_from_iter fs,
      p_status = Clean, p_conflict_revision = None, p_conflict_object = None,
      p_base = Some \<lparr>b_flags = flags_from_iter fs, b_revision = None, b_object = None\<rparr>, p_origin = None\<rparr>"

definition listed_item :: "string \<Rightarrow> string list \<Rightarrow> remote_item" where
  "listed_item h fs = \<lparr>ri_handle = Handle h, ri_flags = flags_from_iter fs, ri_revision = None\<rparr>"

definition fetched_meta :: "string \<Rightarrow> string \<Rightarrow> fetched_item" where
  "fetched_meta h link =
     \<lparr>fi_handle = Handle h, fi_link_id = LinkId link, fi_meta = Meta ''fresh row'', fi_sort_key = sort_key_default,
      fi_body = None, fi_revision = None\<rparr>"

definition new_spine :: "remote_item list \<Rightarrow> remote_snapshot" where
  "new_spine items = \<lparr>rs_items = items, rs_vanished = [], rs_complete = True, rs_checkpoint = Checkpoint (as_bytes ''v2'')\<rparr>"

definition run_rekey ::
  "placement list \<Rightarrow> remote_item list \<Rightarrow> fetched_item list \<Rightarrow> (write_op list \<times> rekey_report) option" where
  "run_rekey old items metas =
     do {
       (rekey, _) \<leftarrow> rekey_resume (rekey_new (CollectionId ''inbox'')) None;
       (rekey, _) \<leftarrow> rekey_resume rekey (Some (ArgLoad \<lparr>ld_placements = old, ld_checkpoint = None\<rparr>));
       (rekey, r) \<leftarrow> rekey_resume rekey (Some (ArgEnumerate (new_spine items)));
       (rekey, writes) \<leftarrow>
         (case wants_fetch r of
            Some (_, tier) \<Rightarrow>
              do {
                check (tier = TierMeta);
                (rekey, r) \<leftarrow> rekey_resume rekey (Some (ArgFetch metas));
                w \<leftarrow> wants_write r;
                Some (rekey, w)
              }
          | None \<Rightarrow> do { w \<leftarrow> wants_write r; Some (rekey, w) });
       (_, r) \<leftarrow> rekey_resume rekey (Some ArgWrite);
       report \<leftarrow> completed_ok r;
       Some (writes, report)
     }"

definition dropped :: "write_op \<Rightarrow> handle option" where
  "dropped op = (case op of DropPlacement _ h _ \<Rightarrow> Some h | _ \<Rightarrow> None)"

definition dropped_and_upserted :: "write_op list \<Rightarrow> handle list" where
  "dropped_and_upserted ws = filter (\<lambda>h. upserted_at ws (handle_str h) \<noteq> None) (List.map_filter dropped ws)"

section \<open>Which rows a batch writes and drops\<close>

definition a_reused_handle_is_not_dropped_by_the_batch_that_writes_it :: "unit option" where
  "a_reused_handle_is_not_dropped_by_the_batch_that_writes_it =
     do {
       (writes, report) \<leftarrow> run_rekey [synced_row ''1'' ''a'' []] [listed_item ''1'' []] [fetched_meta ''1'' ''a''];
       check (rr_rekeyed report = 1);
       check (upserted_at writes ''1'' \<noteq> None);
       check (dropped_and_upserted writes = [])
     }"

definition a_resurrected_edit_is_not_dropped_by_the_batch_that_writes_it :: "unit option" where
  "a_resurrected_edit_is_not_dropped_by_the_batch_that_writes_it =
     do {
       let old = (synced_row ''1'' ''a'' [])\<lparr>p_status := Dirty, p_object := Some (Hash ''h2''), p_level := LvFull,
         p_base := Some \<lparr>b_flags = flags_default, b_revision = None, b_object = Some (Hash ''h1'')\<rparr>\<rparr>;
       (writes, _) \<leftarrow> run_rekey [old] [listed_item ''101'' []] [fetched_meta ''101'' ''other''];
       p \<leftarrow> upserted_at writes ''1'';
       check (p_status p = Created);
       check (dropped_and_upserted writes = [])
     }"

definition a_pending_flag_delta_survives_the_bump :: "unit option" where
  "a_pending_flag_delta_survives_the_bump =
     do {
       let old = (synced_row ''1'' ''msg-a'' [''seen''])\<lparr>p_flags := flags_from_iter [''seen'', ''flagged''], p_status := Dirty\<rparr>;
       (writes, report) \<leftarrow> run_rekey [old] [listed_item ''101'' [''seen'']] [fetched_meta ''101'' ''msg-a''];
       check (rr_rekeyed report = 1);
       check (rr_dropped report = 0);
       check (Handle ''1'' \<in> set (List.map_filter dropped writes));
       p \<leftarrow> upserted_at writes ''101'';
       check (p_status p = Dirty);
       check (flags_contains (p_flags p) ''flagged'');
       b \<leftarrow> p_base p;
       check (flags_contains (b_flags b) ''seen'' \<and> \<not> flags_contains (b_flags b) ''flagged'')
     }"

definition a_tombstone_survives_with_its_destination :: "unit option" where
  "a_tombstone_survives_with_its_destination =
     do {
       let old = (synced_row ''1'' ''msg-a'' [''seen''])\<lparr>p_status := Tombstone,
         p_origin := Some \<lparr>or_collection = CollectionId ''archive'', or_handle = Handle ''1''\<rparr>\<rparr>;
       (writes, report) \<leftarrow> run_rekey [old] [listed_item ''101'' [''seen'']] [fetched_meta ''101'' ''msg-a''];
       check (rr_rekeyed report = 1);
       p \<leftarrow> upserted_at writes ''101'';
       check (p_status p = Tombstone);
       oo \<leftarrow> p_origin p;
       check (or_collection oo = CollectionId ''archive'')
     }"

definition a_staged_edit_survives_with_its_body :: "unit option" where
  "a_staged_edit_survives_with_its_body =
     do {
       let old = (synced_row ''1'' ''msg-a'' [])\<lparr>p_object := Some (Hash ''h2''), p_level := LvFull, p_status := Dirty\<rparr>;
       (writes, report) \<leftarrow> run_rekey [old] [listed_item ''101'' []] [fetched_meta ''101'' ''msg-a''];
       check (rr_rekeyed report = 1);
       p \<leftarrow> upserted_at writes ''101'';
       check (p_status p = Dirty);
       check (p_object p = Some (Hash ''h2''));
       check (p_level p = LvFull)
     }"

definition a_clean_cache_carries_over_without_pending_state :: "unit option" where
  "a_clean_cache_carries_over_without_pending_state =
     do {
       let old = synced_row ''1'' ''msg-a'' [''seen''];
       b \<leftarrow> p_base old;
       let old = old\<lparr>p_object := Some (Hash ''h1''), p_base := Some (b\<lparr>b_object := Some (Hash ''h1'')\<rparr>), p_level := LvFull\<rparr>;
       (writes, report) \<leftarrow> run_rekey [old] [listed_item ''101'' [''seen'']] [fetched_meta ''101'' ''msg-a''];
       check (rr_rekeyed report = 1);
       p \<leftarrow> upserted_at writes ''101'';
       check (p_status p = Clean);
       check (p_object p = Some (Hash ''h1''));
       check (p_level p = LvFull);
       b \<leftarrow> p_base p;
       check (b_object b = Some (Hash ''h1''))
     }"

definition an_unmatched_staged_edit_resurrects_as_a_pending_create :: "unit option" where
  "an_unmatched_staged_edit_resurrects_as_a_pending_create =
     do {
       let old = (synced_row ''1'' ''msg-a'' [])\<lparr>p_object := Some (Hash ''h2''), p_level := LvFull, p_status := Dirty\<rparr>;
       (writes, report) \<leftarrow> run_rekey [old] [] [];
       check (rr_rekeyed report = 1);
       check (rr_dropped report = 0);
       p \<leftarrow> upserted_at writes ''1'';
       check (p_status p = Created);
       check (p_base p = None);
       check (p_object p = Some (Hash ''h2''))
     }"

definition unmatched_pending_state_is_dropped_and_counted :: "unit option" where
  "unmatched_pending_state_is_dropped_and_counted =
     do {
       let old = (synced_row ''1'' ''msg-a'' [])\<lparr>p_link_id := None, p_flags := flags_from_iter [''flagged''], p_status := Dirty\<rparr>;
       (writes, report) \<leftarrow> run_rekey [old] [listed_item ''101'' []] [];
       check (rr_rekeyed report = 0);
       check (rr_pulled report = 1);
       check (rr_dropped report = 1);
       p \<leftarrow> upserted_at writes ''101'';
       check (p_status p = Clean)
     }"

definition no_link_ids_skips_the_meta_fetch :: "unit option" where
  "no_link_ids_skips_the_meta_fetch =
     do {
       let old = (synced_row ''1'' ''msg-a'' [])\<lparr>p_link_id := None\<rparr>;
       (rekey, _) \<leftarrow> rekey_resume (rekey_new (CollectionId ''inbox'')) None;
       (rekey, _) \<leftarrow> rekey_resume rekey (Some (ArgLoad \<lparr>ld_placements = [old], ld_checkpoint = None\<rparr>));
       (_, r) \<leftarrow> rekey_resume rekey (Some (ArgEnumerate (new_spine [listed_item ''101'' []])));
       wants_write r;
       Some ()
     }"

definition pending_creates_are_left_untouched :: "unit option" where
  "pending_creates_are_left_untouched =
     do {
       (writes, report) \<leftarrow> run_rekey [(synced_row ''tmp-1'' ''msg-b'' [])\<lparr>p_status := Created, p_base := None\<rparr>] [] [];
       check (rr_rekeyed report + rr_pulled report + rr_dropped report = 0);
       check (Handle ''tmp-1'' \<notin> set (List.map_filter dropped writes))
     }"

definition a_minted_key_is_carried_over_a_handle_space_change :: "unit option" where
  "a_minted_key_is_carried_over_a_handle_space_change =
     do {
       let minted = (synced_row ''8'' ''dup:m1#8'' [])\<lparr>p_flags := flags_from_iter [''seen''], p_status := Dirty\<rparr>;
       (writes, report) \<leftarrow> run_rekey [synced_row ''7'' ''m1'' [], minted] [listed_item ''v2-0'' [], listed_item ''v2-1'' []]
         [fetched_meta ''v2-0'' ''m1'', fetched_meta ''v2-1'' ''dup:m1#8''];
       check (rr_rekeyed report = 2);
       check (rr_dropped report = 0);
       first \<leftarrow> upserted_at writes ''v2-0'';
       check (p_link_id first = Some (LinkId ''m1''));
       copy \<leftarrow> upserted_at writes ''v2-1'';
       check (p_link_id copy = Some (LinkId ''dup:m1#8''));
       check (p_status copy = Dirty)
     }"

lemma rekey_rebuild_tests:
  "a_reused_handle_is_not_dropped_by_the_batch_that_writes_it = Some ()"
  "a_resurrected_edit_is_not_dropped_by_the_batch_that_writes_it = Some ()"
  "a_pending_flag_delta_survives_the_bump = Some ()"
  "a_tombstone_survives_with_its_destination = Some ()"
  "a_staged_edit_survives_with_its_body = Some ()"
  "a_clean_cache_carries_over_without_pending_state = Some ()"
  "an_unmatched_staged_edit_resurrects_as_a_pending_create = Some ()"
  "unmatched_pending_state_is_dropped_and_counted = Some ()"
  "no_link_ids_skips_the_meta_fetch = Some ()"
  "pending_creates_are_left_untouched = Some ()"
  "a_minted_key_is_carried_over_a_handle_space_change = Some ()"
  by code_simp+

section \<open>The contract of the coroutine\<close>

definition rekey_missing_arg_errors :: "unit option" where
  "rekey_missing_arg_errors =
     do {
       (rekey, _) \<leftarrow> rekey_resume (rekey_new (CollectionId ''inbox'')) None;
       (_, r) \<leftarrow> rekey_resume rekey None;
       e \<leftarrow> completed_err r;
       check (e = MissingArg)
     }"

definition a_completed_rekey_does_not_resume :: "unit option" where
  "a_completed_rekey_does_not_resume =
     do {
       (rekey, _) \<leftarrow> rekey_resume (rekey_new (CollectionId ''inbox'')) None;
       (rekey, _) \<leftarrow> rekey_resume rekey (Some (ArgLoad \<lparr>ld_placements = [], ld_checkpoint = None\<rparr>));
       (rekey, _) \<leftarrow> rekey_resume rekey (Some (ArgEnumerate (new_spine [])));
       (rekey, _) \<leftarrow> rekey_resume rekey (Some ArgWrite);
       (_, r) \<leftarrow> rekey_resume rekey (Some ArgWrite);
       e \<leftarrow> completed_err r;
       check (e = UnexpectedArg)
     }"

definition rekey_unexpected_arg_errors :: "unit option" where
  "rekey_unexpected_arg_errors =
     do {
       (rekey, _) \<leftarrow> rekey_resume (rekey_new (CollectionId ''inbox'')) None;
       (_, r) \<leftarrow> rekey_resume rekey (Some ArgWrite);
       e \<leftarrow> completed_err r;
       check (e = UnexpectedArg)
     }"

lemma rekey_contract_tests:
  "rekey_missing_arg_errors = Some ()"
  "a_completed_rekey_does_not_resume = Some ()"
  "rekey_unexpected_arg_errors = Some ()"
  by code_simp+

end
