(* ===== verification/Verb_Tests.thy ===== *)
theory Verb_Tests
  imports Open_Verb Test_Prelude
begin

text \<open>
  The unit tests of the smaller modules (\<open>placement.rs\<close>, \<open>change.rs\<close>, \<open>open.rs\<close>),
  run on the model. Left out are the tests of the conversions between owned and borrowed strings,
  which are one constructor here, and the two tests that compare digests byte by byte, too slow
  for the simplifier.
\<close>

section \<open>Placements\<close>

definition merge_keeps_unchanged_flags :: "unit option" where
  "merge_keeps_unchanged_flags =
     (let base = flags_from_iter [''seen''] in check (flags_merge base base base = base))"

definition merge_takes_each_side_addition :: "unit option" where
  "merge_takes_each_side_addition =
     check (flags_merge (flags_from_iter []) (flags_from_iter [''a'']) (flags_from_iter [''b'']) = flags_from_iter [''a'', ''b''])"

definition merge_takes_each_side_removal :: "unit option" where
  "merge_takes_each_side_removal =
     check (flags_merge (flags_from_iter [''a'', ''b'', ''c'']) (flags_from_iter [''b'', ''c'']) (flags_from_iter [''a'', ''b''])
       = flags_from_iter [''b''])"

definition merge_removal_beats_the_other_side_keeping :: "unit option" where
  "merge_removal_beats_the_other_side_keeping =
     (let base = flags_from_iter [''seen''] in check (flags_merge base (flags_from_iter []) base = flags_from_iter []))"

definition merge_agreeing_changes_converge :: "unit option" where
  "merge_agreeing_changes_converge =
     (let both = flags_from_iter [''new''] in check (flags_merge (flags_from_iter [''old'']) both both = both))"

definition an_unknown_side_takes_the_other_and_two_stay_unknown :: "unit option" where
  "an_unknown_side_takes_the_other_and_two_stay_unknown =
     (let base = flags_from_iter [''seen'']; known = flags_from_iter [''flagged'']
      in do {
        check (flags_merge base Unknown known = known);
        check (flags_merge base known Unknown = known);
        check (flags_merge base Unknown Unknown = Unknown)
      })"

definition an_unknown_base_keeps_both_sides_markers :: "unit option" where
  "an_unknown_base_keeps_both_sides_markers =
     check (flags_merge Unknown (flags_from_iter [''a'']) (flags_from_iter [''b'']) = flags_from_iter [''a'', ''b''])"

definition an_unknown_set_is_not_an_empty_one :: "unit option" where
  "an_unknown_set_is_not_an_empty_one =
     do {
       check (Unknown \<noteq> flags_from_iter []);
       check (flags_is_unknown Unknown);
       check (\<not> flags_contains Unknown ''seen'');
       check (known Unknown = None);
       check (\<not> flags_is_unknown flags_default)
     }"

lemma placement_tests:
  "merge_keeps_unchanged_flags = Some ()"
  "merge_takes_each_side_addition = Some ()"
  "merge_takes_each_side_removal = Some ()"
  "merge_removal_beats_the_other_side_keeping = Some ()"
  "merge_agreeing_changes_converge = Some ()"
  "an_unknown_side_takes_the_other_and_two_stay_unknown = Some ()"
  "an_unknown_base_keeps_both_sides_markers = Some ()"
  "an_unknown_set_is_not_an_empty_one = Some ()"
  by code_simp+

section \<open>Change keys\<close>

text \<open>The two tests that compare the digits of different keys are left to the lemmas on the digest.\<close>

abbreviation inbox :: collection_id where
  "inbox \<equiv> CollectionId ''inbox''"

abbreviation archive :: collection_id where
  "archive \<equiv> CollectionId ''archive''"

definition key :: "collection_id \<Rightarrow> change_kind \<Rightarrow> change_key" where
  "key c kind = ch_key (change_new c kind)"

definition set_flags :: "string \<Rightarrow> string list \<Rightarrow> change_kind" where
  "set_flags h fs = SetFlags (Handle h) (flags_from_iter fs)"

definition update :: "string \<Rightarrow> string \<Rightarrow> string option \<Rightarrow> change_kind" where
  "update h obj if_match = Update (Handle h) (Hash obj) if_match"

definition the_same_derived_change_keys_the_same :: "unit option" where
  "the_same_derived_change_keys_the_same =
     check (key inbox (set_flags ''1'' [''seen'']) = key inbox (set_flags ''1'' [''seen'']))"

definition a_precondition_is_not_part_of_the_key :: "unit option" where
  "a_precondition_is_not_part_of_the_key =
     (let keyed = key inbox (update ''1'' ''aaa'' None)
      in do {
        check (key inbox (update ''1'' ''aaa'' (Some ''r1'')) = keyed);
        check (key inbox (update ''1'' ''aaa'' (Some ''r2'')) = keyed)
      })"

lemma update_precondition: "key c (update h obj (Some r)) = key c (update h obj None)"
  by (simp add: key_def update_def change_new_def kind_key_def)

lemma change_tests:
  "the_same_derived_change_keys_the_same = Some ()"
  "a_precondition_is_not_part_of_the_key = Some ()"
  by (simp_all add: the_same_derived_change_keys_the_same_def a_precondition_is_not_part_of_the_key_def check_def
      update_precondition Let_def)

section \<open>The open verb\<close>

definition open_row :: "string \<Rightarrow> placement" where
  "open_row h =
     \<lparr>p_collection = inbox, p_handle = Handle h, p_link_id = None, p_object = None, p_level = LvProbed, p_meta = None,
      p_sort_key = sort_key_default, p_flags = flags_default, p_status = Clean, p_conflict_revision = None,
      p_conflict_object = None, p_base = None, p_origin = None\<rparr>"

definition start_yields_load :: "unit option" where
  "start_yields_load =
     do {
       (_, r) \<leftarrow> open_resume (open_new inbox) None;
       (c, _) \<leftarrow> wants_load r;
       check (collection_str c = ''inbox'')
     }"

definition load_completes_with_placements :: "unit option" where
  "load_completes_with_placements =
     do {
       (open, _) \<leftarrow> open_resume (open_new inbox) None;
       let loaded = \<lparr>ld_placements = [open_row ''1'', open_row ''2''], ld_checkpoint = Some (Checkpoint (as_bytes ''tok''))\<rparr>;
       (_, r) \<leftarrow> open_resume open (Some (ArgLoad loaded));
       out \<leftarrow> completed_ok r;
       check (length (ld_placements out) = 2)
     }"

definition a_completed_open_does_not_resume :: "unit option" where
  "a_completed_open_does_not_resume =
     do {
       (open, _) \<leftarrow> open_resume (open_new inbox) None;
       (open, _) \<leftarrow> open_resume open (Some (ArgLoad \<lparr>ld_placements = [open_row ''1''], ld_checkpoint = None\<rparr>));
       (_, r) \<leftarrow> open_resume open (Some ArgWrite);
       e \<leftarrow> completed_err r;
       check (e = UnexpectedArg)
     }"

definition unexpected_arg_at_start_errors :: "unit option" where
  "unexpected_arg_at_start_errors =
     do {
       (_, r) \<leftarrow> open_resume (open_new inbox) (Some ArgWrite);
       e \<leftarrow> completed_err r;
       check (e = UnexpectedArg)
     }"

definition missing_arg_at_pending_load_errors :: "unit option" where
  "missing_arg_at_pending_load_errors =
     do {
       (open, _) \<leftarrow> open_resume (open_new inbox) None;
       (_, r) \<leftarrow> open_resume open None;
       e \<leftarrow> completed_err r;
       check (e = MissingArg)
     }"

definition wrong_arg_kind_at_pending_load_errors :: "unit option" where
  "wrong_arg_kind_at_pending_load_errors =
     do {
       (open, _) \<leftarrow> open_resume (open_new inbox) None;
       (_, r) \<leftarrow> open_resume open (Some ArgWrite);
       e \<leftarrow> completed_err r;
       check (e = UnexpectedArg)
     }"

lemma open_tests:
  "start_yields_load = Some ()"
  "load_completes_with_placements = Some ()"
  "a_completed_open_does_not_resume = Some ()"
  "unexpected_arg_at_start_errors = Some ()"
  "missing_arg_at_pending_load_errors = Some ()"
  "wrong_arg_kind_at_pending_load_errors = Some ()"
  by code_simp+

end
