(* ===== verification/Spec2Isabelle.thy ===== *)
theory Spec2Isabelle
  imports Sync_Cases Sync_Bounds Server_Edit Hub_Store Mailbox
    Hub_Tests Sync_Tests Mutate_Tests Upgrade_Tests Rekey_Tests Verb_Tests
begin

text \<open>
  A verification development of \<open>io-replica\<close>, an offline-first replica engine: a local
  storage holds the items of remote collections, edits are staged locally, and a sync
  reconciles both sides by a three-way merge. The engine does no I/O of its own. Each of its
  verbs (open, mutate, upgrade, rekey, sync) is a coroutine that yields what it wants of the
  storage or the remote and is resumed with the answer; a blocking client drives any verb over
  the two seams; a hub lets several remotes share one storage of logical items.

  \<^bold>\<open>The theories and the code they model\<close> (paths under \<open>src/src/\<close>)

  \<^item> \<open>Replica_Prelude\<close>: byte strings, options, and Rust's \<open>BTreeMap\<close> as a sorted association
    list; the locale \<open>ordered_map\<close> and its interpretation \<open>bt\<close>.
  \<^item> \<open>Identity\<close> (\<open>lib.rs\<close> \<open>replica_id!\<close>, \<open>object.rs\<close>, \<open>collection.rs\<close>): the string newtypes, each
    a datatype with the bytewise order as its \<open>linorder\<close> instance.
  \<^item> \<open>Placement\<close> (\<open>placement.rs\<close>): flags and their three-way merge, levels, statuses, the base,
    the placement record.
  \<^item> \<open>Change\<close> (\<open>change.rs\<close>): changes, the FNV-1a idempotency key on 64-bit words, write
    operations.
  \<^item> \<open>Coroutine\<close> (\<open>coroutine.rs\<close>, \<open>storage.rs\<close>, \<open>remote.rs\<close>): yields, arguments, and the contract of
    a verb as three locales. \<open>verb\<close> says a resume never panics, keeps an invariant, decreases
    a rank with every yield and stays completed; \<open>driven_verb\<close> adds that a matching reply is
    never an argument error; \<open>offline_verb\<close> that nothing is asked of the remote.
  \<^item> \<open>Open_Verb\<close>, \<open>Mutate\<close>, \<open>Upgrade\<close>, \<open>Rekey\<close> (\<open>open.rs\<close>, \<open>mutate.rs\<close>, \<open>upgrade.rs\<close>, \<open>rekey.rs\<close>): one
    verb each. Its record is the code's struct, its \<open>_resume\<close> the code's \<open>resume\<close> arm for arm,
    and it interprets the contract (\<open>opn\<close>, \<open>mut\<close>, \<open>upg\<close>, \<open>rek\<close>).
  \<^item> \<open>Sync_State\<close>, \<open>Sync_Merge\<close>, \<open>Sync_Run\<close> (\<open>sync.rs\<close>): the options, the report and the join; the
    merge of one candidate, one definition per method and per arm of \<open>merge\<close>; the state
    machine of a run, which interprets the contract as \<open>syn\<close>.
  \<^item> \<open>Sync_Laws\<close>: what a whole run promises, by an invariant over its reachable states.
    \<open>Sync_Cases\<close>: what the merge and the settling of a push decide in each case.
    \<open>Sync_Bounds\<close>: how large the batches and the chunks of a run get.
  \<^item> \<open>Sync_Whole\<close>: a one-shot reference of a whole run (merge every candidate, push, then write
    once), and the proof that the interruptible run of the client is this reference. Its locale
    \<open>sync_view\<close> is the contract of a change of state the merge and the pushes cannot see; the
    writes already flushed (\<open>vw\<close>) and the full option (\<open>wf\<close>) are such. \<open>Sync_Mirror\<close> reads off the
    reference what a first sync, a repeated sync and the sync after an offline edit do,
    \<open>Sync_Delta\<close> that a sync from a delta is the full sync of the listing it stands for, and
    \<open>Sync_Pull\<close> that a replica with nothing to push converges to the listing.
  \<^item> \<open>Hub\<close> (\<open>hub.rs\<close>): projecting the shared items to one source and absorbing its writes.
  \<^item> \<open>Client\<close> (\<open>client.rs\<close>): the two seams as records of functions, the driving loop, the five
    operations.
  \<^item> \<open>Mem_Store\<close> (\<open>tests/common/mod.rs\<close>): the contract of a storage as the locale
    \<open>replica_storage\<close>, with its cursors as \<open>cursor_storage\<close>, and the in-memory storage as their
    interpretations \<open>mem\<close> and \<open>mem_cur\<close>.
  \<^item> \<open>Typed\<close>: the locale \<open>typed_verb\<close>, a verb that turns well-formed rows into well-formed rows,
    interpreted by all five verbs, and the sessions of a client as a step relation.
  \<^item> \<open>Mailbox\<close> (\<open>examples/mailbox_lifecycle.rs\<close>): the example's storage, a second interpretation of
    the storage contracts (\<open>box\<close>, \<open>box_cur\<close>), its server, and the story its \<open>main\<close> plays.
  \<^item> \<open>Mem_Remote\<close> (\<open>tests/common/mod.rs\<close>): the server of the tests, with its change counter, its
    deltas and its guarded pushes, and its history as a step relation. \<open>Replica_System\<close>: that
    server, the in-memory storage and the client as one system whose steps interleave. \<open>Server_Edit\<close>: an
    offline edit in that system.
  \<^item> \<open>Hub_Store\<close> (\<open>tests/common/mod.rs\<close>): the storage that wraps the hub, one shared store and a
    view of it per source.
  \<^item> \<open>Test_Prelude\<close>, \<open>Hub_Tests\<close>, \<open>Sync_Tests\<close>, \<open>Mutate_Tests\<close>, \<open>Upgrade_Tests\<close>,
    \<open>Rekey_Tests\<close>, \<open>Verb_Tests\<close>: the unit tests of the source files, each the definition of a
    computation that panics (\<open>None\<close>) where an assertion of the test would fail, and lemmas that
    evaluate it to \<open>Some ()\<close> on the model.
  \<^item> This theory: the properties that span components.

  \<^bold>\<open>How the code is read\<close>

  A method with \<open>&mut self\<close> takes the record and returns it updated. A panic (\<open>expect\<close>) is
  \<open>None\<close> of an option, and that no verb panics is proved. \<open>Result\<close> is a sum with the error on the
  left. A \<open>BTreeSet\<close> is a finite set, iterated in its order where the code iterates. A \<open>usize\<close>
  counter is a natural number; the digest of a key is a 64-bit word and wraps, and a flag
  count enters it as eight little-endian bytes, the code's \<open>usize\<close> on a 64-bit target. A string
  is the list of its UTF-8 bytes. The storage and the remote are the caller's: they are the
  arguments \<open>sto\<close> and \<open>rem\<close> of the client, arbitrary functions that may fail. The storages and
  servers of the tests and of the example are the instances the repository has.

  \<^bold>\<open>Termination and bounds\<close>

  The client's loop has no bound in the code, so it is a \<open>partial_function\<close> and that it returns is
  a theorem, from the rank of the verb contract. The merge loop recurses on the candidates
  left. A push chunk holds 64 changes and a write batch closes once it holds 1024 operations,
  as in the code; a candidate adds three writes at most and an outcome five, which bounds
  every batch. No fuel is used anywhere.

  \<^bold>\<open>What the theorems show\<close>

  Every client operation returns and no verb panics, whatever the seams answer. A sync pushes
  only what its options allow, each handle at most once and in order, in bounded chunks, and
  writes its checkpoint last. The merge decides each case as documented: flags merge
  element-wise, a diverged body follows the conflict policy, an edit beats a delete, a
  rejected push records nothing. A chunked run leaves the storage, the remote and the report as
  one merge written at once would; over a working remote it completes. A first sync mirrors
  the remote, a clean replica converges to whatever the remote lists by then, a sync from a
  delta ends as a full one, and an offline edit or flag change is delivered by the next sync, up
  to the state of the example's server. The deltas of the tests' server are what changed since
  the cursor, so that against it a replica stays in step through any interleaving of changes on
  the server and incremental syncs, and an edit made offline ends up on the server. No session of
  the client leaves a malformed row. A rekey never reads as a delete, and loses no staged edit as
  long as no new member takes the handle of one. Of the copies of an identity an upgrade links one
  under the bare hint and every other under a key of its own, in whatever order bodies arrive. The hub keeps
  the sources' bindings apart, converges once its sources agree, and records a conflict when two
  sources edit one body; over the store that wraps it no row is lost and an edit made through one source is the
  next push of another. The last properties state behaviour of the code that its documentation does not
  intend: a reverted delete that strands an edit, a reverted move that relocates later, an
  upgrade that lowers a level; and a completed run resumed with no argument answers another error
  than documented; further lemmas show an edit the hub drops and a handle written
  twice by a rekey. The unit tests validate the definitions themselves: what the code's authors
  assert of each verb and of the hub is what the model computes.

  \<^bold>\<open>Not modelled\<close>

  Logging and the test logger, \<open>Display\<close> and \<open>Error\<close> implementations, the client's accessors, the
  property tests beside their storages and their server, the unit tests whose input is too large
  for the simplifier (three that fill a chunk of \<open>sync.rs\<close>, two that compare digests of
  \<open>change.rs\<close>) or that convert strings, and what the example prints around its values. The example's lossy decoding of a body is the identity on the
  valid UTF-8 its server is seeded with, and is left out.
\<close>

section \<open>A conflict resolved by an edit\<close>

text \<open>
  C27: a resolved conflict is pushed against the revision it was resolved on. Editing a
  conflicted placement whose flags both sides agree on, and syncing with content pushes allowed
  and the manual policy, pushes the resolution, conditional on the remote revision
  the conflict recorded, when the remote still reports it, and writes nothing before the
  answer; it is a new conflict when the remote moved on meanwhile;
  and when the resolution is the remote's own body, nothing is pushed and the placement
  settles clean.
\<close>

theorem resolved_conflict_pushes:
  fixes p :: placement and obj :: object and m :: "meta option" and k :: "sort_key option"
  assumes "p_status p = Conflict" "p_base p = Some b" "p_conflict_revision p = Some r"
    "p_flags p = b_flags b" "ri_flags item = b_flags b"
    "may_push_content (sy_opts s)" "opt_conflict (sy_opts s) = Manual"
  defines "q \<equiv> edit_placement p obj m k"
  shows "(ri_revision item = Some r \<and> p_conflict_object p \<noteq> Some (o_hash obj) \<longrightarrow>
            (\<exists>s'. merge \<lparr>ca_handle = p_handle p, ca_local = Some q, ca_remote = Some item\<rparr> s
                = Some (s', Some (Update (p_handle p) (o_hash obj) (Some r)))
              \<and> sy_writes s' = sy_writes s))
    \<and> (ri_revision item \<notin> {None, Some r} \<and> p_conflict_object p \<noteq> Some (o_hash obj) \<longrightarrow>
            (\<exists>s'. merge \<lparr>ca_handle = p_handle p, ca_local = Some q, ca_remote = Some item\<rparr> s = Some (s', None)
              \<and> sy_writes s' = sy_writes s @ [UpsertPlacement (conflicted_placement q item)]))
    \<and> (ri_revision item = Some r \<and> p_conflict_object p = Some (o_hash obj) \<longrightarrow>
            (\<exists>s' c. merge \<lparr>ca_handle = p_handle p, ca_local = Some q, ca_remote = Some item\<rparr> s = Some (s', None)
              \<and> sy_writes s' = sy_writes s @ [UpsertPlacement c] \<and> p_status c = Clean
              \<and> p_object c = Some (o_hash obj)))"
proof -
  have q: "p_status q = Dirty" "p_object q = Some (o_hash obj)" "p_flags q = b_flags b" "p_handle q = p_handle p"
    "p_base q = Some \<lparr>b_flags = b_flags b, b_revision = Some r, b_object = p_conflict_object p\<rparr>"
    using assms(1-4) by (simp_all add: q_def edit_placement_resolving)
  show ?thesis
    using assms(5-7) q
    by (auto simp: merge_table merge_present_def reconcile_content_def push_update_def resolve_conflict_def
          mark_conflict_def conflicted_placement_def reconcile_flags_def rebase_def rebased_placement_def
          settled_status_def recording Let_def)
qed

theorem resolved_conflict_pushes_witness:
  "\<exists>s' q. merge \<lparr>ca_handle = Handle ''1'', ca_local = Some q,
      ca_remote = Some \<lparr>ri_handle = Handle ''1'', ri_flags = flags_default, ri_revision = Some ''2''\<rparr>\<rparr>
     (sync_new (CollectionId ''c'') sync_options_default)
   = Some (s', Some (Update (Handle ''1'') (Hash ''z'') (Some ''2'')))"
proof -
  let ?p = "(sample_placement ''1'')\<lparr>p_status := Conflict, p_conflict_revision := Some ''2''\<rparr>"
  let ?i = "\<lparr>ri_handle = Handle ''1'', ri_flags = flags_default, ri_revision = Some ''2''\<rparr>"
  let ?s = "sync_new (CollectionId ''c'') sync_options_default"
  have "p_status ?p = Conflict" "p_base ?p = Some sample_base" "p_conflict_revision ?p = Some ''2''"
    "p_flags ?p = b_flags sample_base" "ri_flags ?i = b_flags sample_base"
    "may_push_content (sy_opts ?s)" "opt_conflict (sy_opts ?s) = Manual"
    by (simp_all add: sample_placement_def sample_base_def sync_new_def sync_options_default_def
          may_push_content_def push_rights_all_def)
  note moved = resolved_conflict_pushes[OF this, of "\<lparr>o_hash = Hash ''z'', o_size = 1\<rparr>" None None]
  have "ri_revision ?i = Some ''2''" "p_conflict_object ?p \<noteq> Some (Hash ''z'')" "p_handle ?p = Handle ''1''"
    by (simp_all add: sample_placement_def)
  with moved show ?thesis by auto
qed

section \<open>A move is two halves\<close>

text \<open>
  A move is staged as two halves that name each other. Moving a synced, linked row writes
  a pending create in the target collection and a tombstone in the source one; syncing the
  target derives an add that names the row it comes from and carries its link id, and syncing
  the source derives a removal that names the target, carries the same link id and is guarded
  by the synced revision, so that either half can deliver the item and the other can tell.
\<close>

theorem move_derives_two_halves:
  assumes "p_status p = Clean" "p_base p = Some b" "p_link_id p = Some l" "staged_edit p = None"
    "mu_mutation move = MMove (p_handle p) target placeholder"
    "ri_revision item \<in> {None, b_revision b}"
    "may_push_add (sy_opts s)" "may_push_remove (sy_opts s)"
  shows "\<exists>copy gone. mutate_writes move p = [UpsertPlacement copy, UpsertPlacement gone]
    \<and> p_collection copy = target \<and> p_handle copy = placeholder \<and> p_collection gone = p_collection p
    \<and> map_option snd (merge \<lparr>ca_handle = placeholder, ca_local = Some copy, ca_remote = None\<rparr> s)
      = Some (Some (Add placeholder (Some l) (p_flags p)
          (Some \<lparr>or_collection = p_collection p, or_handle = p_handle p\<rparr>) (p_object p)))
    \<and> map_option snd (merge \<lparr>ca_handle = p_handle p, ca_local = Some gone, ca_remote = Some item\<rparr> s)
      = Some (Some (Remove (p_handle p) (Some target) (Some l) (b_revision b)))"
  using assms
  by (auto simp: mutate_writes_def staged_copy_def merge_table merge_created_def merge_deleted_def Let_def)

theorem move_derives_two_halves_witness:
  "\<exists>gone. map_option snd (merge \<lparr>ca_handle = p_handle (sample_placement ''1''), ca_local = Some gone,
        ca_remote = Some \<lparr>ri_handle = Handle ''1'', ri_flags = flags_default, ri_revision = None\<rparr>\<rparr>
      (sync_new (CollectionId ''c'') sync_options_default))
    = Some (Some (Remove (p_handle (sample_placement ''1'')) (Some (CollectionId ''archive'')) (Some (LinkId ''1''))
        (b_revision sample_base)))"
proof -
  let ?p = "sample_placement ''1''"
  let ?s = "sync_new (CollectionId ''c'') sync_options_default"
  let ?m = "mutate_new (CollectionId ''inbox'') (MMove (Handle ''1'') (CollectionId ''archive'') (Handle ''t''))"
  let ?i = "\<lparr>ri_handle = Handle ''1'', ri_flags = flags_default, ri_revision = None\<rparr>"
  have "p_status ?p = Clean" "p_base ?p = Some sample_base" "p_link_id ?p = Some (LinkId ''1'')" "staged_edit ?p = None"
    "mu_mutation ?m = MMove (p_handle ?p) (CollectionId ''archive'') (Handle ''t'')"
    "ri_revision ?i \<in> {None, b_revision sample_base}" "may_push_add (sy_opts ?s)" "may_push_remove (sy_opts ?s)"
    by (simp_all add: sample_placement_def sample_base_def staged_edit_def mutate_new_def sync_new_def
          sync_options_default_def may_push_add_def may_push_remove_def push_rights_all_def)
  from move_derives_two_halves[OF this] show ?thesis by (elim exE conjE) (rule exI)
qed

section \<open>From one source to another\<close>

text \<open>
  C30: an edit absorbed from one source is pushed to the other. When a source that agreed with
  the shared body writes an edited one, the other source, still at its own base, is projected
  a placement whose sync against an unchanged remote derives exactly one change, the update
  of its own handle to the new body, guarded by the revision it last synced.
\<close>

theorem absorbed_edit_reaches_other_source:
  assumes "s \<noteq> s'" "map_of (hi_sources i) s' = Some b'" "sb_base b' = Some a'" "\<not> sb_conflicted b'"
    "hi_object i = agreed_object (map_of (hi_sources i) s)"
    "p_object p \<noteq> prev_object (map_of (hi_sources i) s)"
    "p_status p \<noteq> Tombstone" "p_object p = Some y" "b_object a' \<noteq> Some y"
    "p_flags p = b_flags a'" "p_flags p \<noteq> Unknown"
    "ri_flags item = b_flags a'" "ri_revision item \<in> {None, b_revision a'}"
    "may_push_content (sy_opts st)"
  shows "\<exists>q. project_item c s' l (upsert_item s p policy i) = Some q
    \<and> map_option snd (merge \<lparr>ca_handle = sb_handle b', ca_local = Some q, ca_remote = Some item\<rparr> st)
      = Some (Some (Update (sb_handle b') y (b_revision a')))"
proof -
  let ?i = "upsert_item s p policy i"
  have known: "\<not> flags_is_unknown (p_flags p)" using assms(11) by (cases "p_flags p") simp_all
  have shared: "hi_object ?i = Some y" "hi_flags ?i = b_flags a'" "\<not> hi_deleted ?i"
    using assms(5-8,10) known by (auto simp: upsert_item_live reconcile_unmoved)
  have other: "map_of (hi_sources ?i) s' = Some b'"
    using assms(1,2) by (simp add: upsert_item_others)
  have "project_item c s' l ?i = Some (bound_placement c l ?i b')"
    using shared(3) other by (simp add: project_item_def)
  moreover have "p_status (bound_placement c l ?i b') = Dirty" "p_object (bound_placement c l ?i b') = Some y"
    "p_base (bound_placement c l ?i b') = Some a'" "p_flags (bound_placement c l ?i b') = b_flags a'"
    "p_handle (bound_placement c l ?i b') = sb_handle b'"
    using shared assms(3,4,9) by (simp_all add: bound_placement_def item_project_def in_sync_def)
  ultimately show ?thesis
    using assms(9,12-14)
    by (auto simp: merge_table merge_present_def reconcile_content_def push_update_def Let_def case_prod_unfold)
qed

theorem absorbed_edit_reaches_other_source_witness:
  "\<exists>q. map_option snd (merge \<lparr>ca_handle = Handle ''2'', ca_local = Some q,
        ca_remote = Some \<lparr>ri_handle = Handle ''2'', ri_flags = flags_default, ri_revision = None\<rparr>\<rparr>
      (sync_new (CollectionId ''c'') sync_options_default))
    = Some (Some (Update (Handle ''2'') (Hash ''y'') (Some ''1'')))"
proof -
  let ?i = "\<lparr>ri_handle = Handle ''2'', ri_flags = flags_default, ri_revision = None\<rparr>"
  let ?st = "sync_new (CollectionId ''c'') sync_options_default"
  have facts: "SourceId ''l'' \<noteq> SourceId ''r''"
    "map_of (hi_sources sample_hub_item) (SourceId ''r'') = Some (sample_binding ''2'')"
    "sb_base (sample_binding ''2'') = Some sample_base" "\<not> sb_conflicted (sample_binding ''2'')"
    by (simp_all add: sample_binding_def)
  have agreed: "hi_object sample_hub_item = agreed_object (map_of (hi_sources sample_hub_item) (SourceId ''l''))"
    by (simp add: agreed_object_def sample_binding_def) (simp add: sample_hub_item_def)
  have edited: "p_object (sample_edit ''1'' ''y'') \<noteq> prev_object (map_of (hi_sources sample_hub_item) (SourceId ''l''))"
    by (simp add: prev_object_def sample_binding_def sample_base_def)
  have rest: "p_status (sample_edit ''1'' ''y'') \<noteq> Tombstone" "p_object (sample_edit ''1'' ''y'') = Some (Hash ''y'')"
    "b_object sample_base \<noteq> Some (Hash ''y'')" "p_flags (sample_edit ''1'' ''y'') = b_flags sample_base"
    "p_flags (sample_edit ''1'' ''y'') \<noteq> Unknown" "ri_flags ?i = b_flags sample_base"
    "ri_revision ?i \<in> {None, b_revision sample_base}" "may_push_content (sy_opts ?st)"
    by (simp_all add: sample_base_def sample_edit_def sample_placement_def flags_default_def sync_new_def
          sync_options_default_def may_push_content_def push_rights_all_def)
  have handle: "sb_handle (sample_binding ''2'') = Handle ''2''" "b_revision sample_base = Some ''1''"
    by (simp_all add: sample_binding_def sample_base_def)
  from absorbed_edit_reaches_other_source[OF facts agreed edited rest] show ?thesis
    unfolding handle by blast
qed

end
